(* ===== verification/Prelude.thy ===== *)
theory Prelude
  imports Complex_Main "HOL-Library.Word" "HOL-Library.Product_Lexorder"
begin

text \<open>
  Shared vocabulary of the development: the Go types that the components exchange
  (times, durations, byte slices, maps, identifiers), 64-bit wrap-around, decimal printing,
  and the set-level semantics of the SQL statements that the storage adapters issue.

  \<^item> A \<open>time.Time\<close> is the number of nanoseconds since the zero time of package time
    (January 1, year 1), so that \<open>IsZero\<close> is equality with 0.
  \<^item> A \<open>time.Duration\<close> is a signed 64-bit count of nanoseconds; it is an \<open>int\<close>,
    with the wrap-around written out by \<open>wrap64\<close> where the code multiplies or doubles.
  \<^item> A Go \<open>map[string]string\<close> is an association list with distinct keys.
  \<^item> A SQL table is the list of its rows. \<open>sql_update\<close> and \<open>sql_delete\<close> are the
    effect of one \<open>UPDATE\<close> or \<open>DELETE\<close> statement, \<open>sql_count\<close> the affected rows.
\<close>

section \<open>Rule collections\<close>

named_theorems row_simps \<open>look-up of one row after a statement\<close>
named_theorems row_ok_intros \<open>row well-formedness is kept by a statement\<close>

section \<open>Go types\<close>

type_synonym time = int
type_synonym duration = int
type_synonym bytes = "8 word list"
type_synonym headers = "(string \<times> string) list"
type_synonym uuid = "128 word"
type_synonym message_id = string

abbreviation IsZero :: "time \<Rightarrow> bool" where
  "IsZero t \<equiv> t = 0"

definition Microsecond :: duration where "Microsecond = 1000"
definition Millisecond :: duration where "Millisecond = 1000000"
definition Second :: duration where "Second = 1000000000"
definition Minute :: duration where "Minute = 60000000000"
definition Hour :: duration where "Hour = 3600000000000"

lemmas duration_units = Microsecond_def Millisecond_def Second_def Minute_def Hour_def

text \<open>Two's complement reduction of an integer to the range of \<open>int64\<close>.\<close>

definition wrap64 :: "int \<Rightarrow> int" where
  "wrap64 x = (x + 2 ^ 63) mod 2 ^ 64 - 2 ^ 63"

lemma wrap64_id: "- (2 ^ 63) \<le> x \<Longrightarrow> x < 2 ^ 63 \<Longrightarrow> wrap64 x = x"
  by (simp add: wrap64_def)

lemma wrap64_range: "- (2 ^ 63) \<le> wrap64 x \<and> wrap64 x < 2 ^ 63"
  by (simp add: wrap64_def)

text \<open>Go's integer division truncates towards zero.\<close>

definition go_div :: "int \<Rightarrow> int \<Rightarrow> int" where
  "go_div a b = sgn a * sgn b * (\<bar>a\<bar> div \<bar>b\<bar>)"

lemma go_div_nonneg: "0 \<le> a \<Longrightarrow> 0 < b \<Longrightarrow> go_div a b = a div b"
  by (cases "a = 0") (auto simp: go_div_def)

section \<open>Decimal printing\<close>

definition digit_char :: "nat \<Rightarrow> char" where
  "digit_char d = char_of (48 + d)"

fun show_nat :: "nat \<Rightarrow> string" where
  "show_nat n = (if n < 10 then [digit_char n] else show_nat (n div 10) @ [digit_char (n mod 10)])"

declare show_nat.simps [simp del]

definition show_int :: "int \<Rightarrow> string" where
  "show_int i = (if i < 0 then ''-'' @ show_nat (nat (- i)) else show_nat (nat i))"

section \<open>Association lists as Go maps\<close>

fun map_set :: "'k \<Rightarrow> 'v \<Rightarrow> ('k \<times> 'v) list \<Rightarrow> ('k \<times> 'v) list" where
  "map_set k v [] = [(k, v)]"
| "map_set k v ((k', v') # m) = (if k' = k then (k, v) # m else (k', v') # map_set k v m)"

lemma map_of_map_set [simp]: "map_of (map_set k v m) = (map_of m)(k \<mapsto> v)"
  by (induction m) auto

lemma keys_map_set [simp]: "fst ` set (map_set k v m) = insert k (fst ` set m)"
  by (induction k v m rule: map_set.induct) (simp_all add: insert_commute)

lemma distinct_map_set [simp]: "distinct (map fst m) \<Longrightarrow> distinct (map fst (map_set k v m))"
  by (induction k v m rule: map_set.induct) auto

lemma map_set_not_Nil [simp]: "map_set k v m \<noteq> []"
  by (induction k v m rule: map_set.induct) simp_all

text \<open>Reading a key that may be absent: the zero value \<open>d\<close> of the map's element type.\<close>

definition map_get :: "'k \<Rightarrow> 'v \<Rightarrow> ('k \<times> 'v) list \<Rightarrow> 'v" where
  "map_get k d m = (case map_of m k of None \<Rightarrow> d | Some v \<Rightarrow> v)"

section \<open>SQL statements on a table\<close>

definition sql_update :: "('r \<Rightarrow> bool) \<Rightarrow> ('r \<Rightarrow> 'r) \<Rightarrow> 'r list \<Rightarrow> 'r list" where
  "sql_update p f rows = map (\<lambda>r. if p r then f r else r) rows"

definition sql_delete :: "('r \<Rightarrow> bool) \<Rightarrow> 'r list \<Rightarrow> 'r list" where
  "sql_delete p rows = filter (\<lambda>r. \<not> p r) rows"

definition sql_count :: "('r \<Rightarrow> bool) \<Rightarrow> 'r list \<Rightarrow> int" where
  "sql_count p rows = int (length (filter p rows))"

lemma sql_update_Nil [simp]: "sql_update p f [] = []"
  by (simp add: sql_update_def)

lemma sql_update_Cons [simp]:
  "sql_update p f (r # rows) = (if p r then f r else r) # sql_update p f rows"
  by (simp add: sql_update_def)

lemma length_sql_update [simp]: "length (sql_update p f rows) = length rows"
  by (simp add: sql_update_def)

lemma set_sql_update: "set (sql_update p f rows) = (\<lambda>r. if p r then f r else r) ` set rows"
  by (simp add: sql_update_def)

lemma sql_update_none: "(\<And>r. r \<in> set rows \<Longrightarrow> \<not> p r) \<Longrightarrow> sql_update p f rows = rows"
  by (simp add: sql_update_def map_idI)

lemma map_sql_update_same [simp]:
  "(\<And>r. g (f r) = g r) \<Longrightarrow> map g (sql_update p f rows) = map g rows"
  by (simp add: sql_update_def)

lemma sql_update_cong:
  "(\<And>r. r \<in> set rows \<Longrightarrow> p r = q r) \<Longrightarrow> sql_update p f rows = sql_update q f rows"
  by (simp add: sql_update_def)

lemma set_sql_delete [simp]: "set (sql_delete p rows) = {r \<in> set rows. \<not> p r}"
  by (auto simp: sql_delete_def)

lemma distinct_map_sql_delete [simp]:
  "distinct (map g rows) \<Longrightarrow> distinct (map g (sql_delete p rows))"
  by (simp add: sql_delete_def distinct_map_filter)

lemma length_sql_delete: "int (length (sql_delete p rows)) = int (length rows) - sql_count p rows"
  using sum_length_filter_compl [of p rows] by (simp add: sql_delete_def sql_count_def)

lemma sql_count_nonneg [simp]: "0 \<le> sql_count p rows"
  by (simp add: sql_count_def)

lemma sql_count_0_iff: "sql_count p rows = 0 \<longleftrightarrow> (\<forall>r\<in>set rows. \<not> p r)"
  by (simp add: sql_count_def filter_empty_conv)

text \<open>A selection inside another that selects as many rows selects the same ones.\<close>

lemma sql_count_full:
  assumes "sql_count p rows = sql_count P rows" "\<forall>r\<in>set rows. p r \<longrightarrow> P r" "r \<in> set rows" "P r"
  shows "p r"
proof -
  have "filter p rows = filter p (filter P rows)" using assms(2) by (auto intro: filter_cong)
  then have "length (filter p (filter P rows)) = length (filter P rows)" using assms(1) by (simp add: sql_count_def)
  then have "\<forall>r\<in>set (filter P rows). p r" by (metis filter_id_conv length_filter_less nat_neq_iff)
  with assms(3,4) show ?thesis by simp
qed

text \<open>The first row with a given key, the result of a single-row query on a key column.\<close>

definition row_by :: "('r \<Rightarrow> 'k) \<Rightarrow> 'k \<Rightarrow> 'r list \<Rightarrow> 'r option" where
  "row_by key k rows = find (\<lambda>r. key r = k) rows"

lemma row_by_Nil [simp]: "row_by key k [] = None"
  by (simp add: row_by_def)

lemma row_by_Cons [simp]: "row_by key k (r # rows) = (if key r = k then Some r else row_by key k rows)"
  by (simp add: row_by_def)

lemma row_by_Some_in: "row_by key k rows = Some r \<Longrightarrow> r \<in> set rows \<and> key r = k"
  by (induction rows) (auto split: if_splits)

lemma row_by_None_iff: "row_by key k rows = None \<longleftrightarrow> k \<notin> key ` set rows"
  by (induction rows) auto

lemma row_by_in: "distinct (map key rows) \<Longrightarrow> r \<in> set rows \<Longrightarrow> row_by key (key r) rows = Some r"
  by (induction rows) (auto simp: image_iff)

lemma row_by_update [row_simps]:
  "(\<And>r. key (f r) = key r) \<Longrightarrow>
   row_by key k (sql_update p f rows) = map_option (\<lambda>r. if p r then f r else r) (row_by key k rows)"
  by (induction rows) auto

lemma row_by_append [row_simps]:
  "row_by key k (rows @ rows') =
     (case row_by key k rows of Some r \<Rightarrow> Some r | None \<Rightarrow> row_by key k rows')"
  by (induction rows) auto

lemma row_by_delete [row_simps]:
  "distinct (map key rows) \<Longrightarrow>
   row_by key k (sql_delete p rows) =
     (case row_by key k rows of None \<Rightarrow> None | Some r \<Rightarrow> if p r then None else Some r)"
proof (induction rows)
  case Nil
  then show ?case by (simp add: sql_delete_def)
next
  case (Cons r rows)
  then have IH: "row_by key k (sql_delete p rows) =
      (case row_by key k rows of None \<Rightarrow> None | Some r \<Rightarrow> if p r then None else Some r)"
    by simp
  have "key r = k \<Longrightarrow> row_by key k rows = None"
    using Cons.prems by (auto simp: row_by_None_iff)
  with IH show ?case by (auto simp: sql_delete_def)
qed

text \<open>
  \<open>ORDER BY ... LIMIT n\<close>. The rows a limited, ordered query returns are the first of the
  sorted table; every row it leaves out sorts after every row it returns.
\<close>

definition order_limit :: "('r \<Rightarrow> 'k::linorder) \<Rightarrow> int \<Rightarrow> 'r list \<Rightarrow> 'r list" where
  "order_limit key n rows = take (nat n) (sort_key key rows)"

lemma set_order_limit: "set (order_limit key n rows) \<subseteq> set rows"
  by (auto simp: order_limit_def dest: in_set_takeD)

lemma length_order_limit: "length (order_limit key n rows) = min (nat n) (length rows)"
  by (simp add: order_limit_def)

lemma distinct_order_limit: "distinct (map g rows) \<Longrightarrow> distinct (map g (order_limit key n rows))"
proof -
  assume "distinct (map g rows)"
  then have "distinct rows" and "inj_on g (set rows)"
    by (simp_all add: distinct_map)
  then show ?thesis
    using set_order_limit [of key n rows]
    by (simp add: order_limit_def distinct_map distinct_take inj_on_subset)
qed

lemma sorted_order_limit: "sorted (map key (order_limit key n rows))"
  by (simp add: order_limit_def flip: take_map)

lemma order_limit_first:
  assumes "r \<in> set (order_limit key n rows)" and "s \<in> set rows"
    and "s \<notin> set (order_limit key n rows)"
  shows "key r \<le> key s"
proof -
  let ?xs = "sort_key key rows"
  have "sorted (map key (take (nat n) ?xs @ drop (nat n) ?xs))" by simp
  then have le: "\<forall>x\<in>set (take (nat n) ?xs). \<forall>y\<in>set (drop (nat n) ?xs). key x \<le> key y"
    by (simp only: map_append sorted_append) auto
  have "s \<in> set ?xs" using assms(2) by simp
  then have "s \<in> set (take (nat n) ?xs) \<union> set (drop (nat n) ?xs)"
    by (metis append_take_drop_id set_append)
  with assms(3) have "s \<in> set (drop (nat n) ?xs)" by (simp add: order_limit_def)
  with assms(1) le show ?thesis by (simp add: order_limit_def)
qed

lemma order_limit_Nil_iff: "0 < n \<Longrightarrow> order_limit key n rows = [] \<longleftrightarrow> rows = []"
  using length_order_limit [of key n rows] by (auto simp flip: length_0_conv)

text \<open>A query that names rows by a unique column selects at most as many rows as it names values.\<close>

lemma length_filter_key:
  assumes "distinct (map f xs)"
  shows "length (filter (\<lambda>x. f x \<in> set ys) xs) \<le> length ys"
proof -
  let ?zs = "map f (filter (\<lambda>x. f x \<in> set ys) xs)"
  have "distinct ?zs" using assms by (rule distinct_map_filter)
  then have "length ?zs = card (set ?zs)" by (simp only: distinct_card)
  also have "\<dots> \<le> card (set ys)" by (rule card_mono) auto
  also have "\<dots> \<le> length ys" by (rule card_length)
  finally show ?thesis by simp
qed

lemma length_filter_key_eq:
  assumes "distinct (map f xs)" "distinct ys" "set ys \<subseteq> f ` set xs"
  shows "length (filter (\<lambda>x. f x \<in> set ys) xs) = length ys"
proof -
  let ?zs = "map f (filter (\<lambda>x. f x \<in> set ys) xs)"
  have "distinct ?zs" using assms(1) by (rule distinct_map_filter)
  moreover have "set ?zs = set ys" using assms(3) by auto
  ultimately have "length ?zs = length ys" using assms(2) by (metis distinct_card)
  then show ?thesis by simp
qed

text \<open>
  \<open>LIMIT\<close> without \<open>ORDER BY\<close>: the server chooses which rows. The choice is a parameter of
  the statements that use it, and this is what the SQL standard says of it.
\<close>

definition limit_choice :: "(nat \<Rightarrow> 'r list \<Rightarrow> 'r list) \<Rightarrow> bool" where
  "limit_choice ch \<longleftrightarrow> (\<forall>n rows. set (ch n rows) \<subseteq> set rows \<and>
     length (ch n rows) = min n (length rows) \<and> (distinct rows \<longrightarrow> distinct (ch n rows)))"

lemma limit_choice_take: "limit_choice take"
  by (auto simp: limit_choice_def dest: in_set_takeD)

lemma limit_choiceD:
  assumes "limit_choice ch"
  shows "set (ch n rows) \<subseteq> set rows" "length (ch n rows) = min n (length rows)"
    "distinct rows \<Longrightarrow> distinct (ch n rows)"
  using assms by (auto simp: limit_choice_def)

end
