(* ===== verification/Errors.thy ===== *)
theory Errors
  imports Prelude
begin

text \<open>
  Go error values as the library builds and inspects them (src/errors.go). A value of type
  \<open>error\<close> is a \<open>goerr option\<close>, \<open>None\<close> being \<open>nil\<close>. The constructors are the
  error types of the package, the two context sentinels and the no-rows sentinel of the
  database drivers, the MySQL driver's numbered error, and the two shapes \<open>fmt.Errorf\<close>
  gives: a plain text, or a text that ends in the wrapped error (\<open>%w\<close>).
\<close>

datatype goerr =
    ErrorString string
  | WrapError string goerr
  | ErrDuplicate (dup_ExistingID: string) (dup_EventType: string) (dup_Key: string)
  | RetryAfterErr duration "goerr option"
  | DeadLetterErr "goerr option"
  | SkipErr string
  | ContextCanceled
  | ContextDeadlineExceeded
  | ErrNoRows
  | MySQLError int string

section \<open>The chain that errors.Is and errors.As walk\<close>

fun Unwrap :: "goerr \<Rightarrow> goerr option" where
  "Unwrap (WrapError _ e) = Some e"
| "Unwrap (RetryAfterErr _ e) = e"
| "Unwrap (DeadLetterErr e) = e"
| "Unwrap _ = None"

fun err_chain :: "goerr \<Rightarrow> goerr list" where
  "err_chain (WrapError p e) = WrapError p e # err_chain e"
| "err_chain (RetryAfterErr d None) = [RetryAfterErr d None]"
| "err_chain (RetryAfterErr d (Some e)) = RetryAfterErr d (Some e) # err_chain e"
| "err_chain (DeadLetterErr None) = [DeadLetterErr None]"
| "err_chain (DeadLetterErr (Some e)) = DeadLetterErr (Some e) # err_chain e"
| "err_chain e = [e]"

definition errors_chain :: "goerr option \<Rightarrow> goerr list" where
  "errors_chain err = (case err of None \<Rightarrow> [] | Some e \<Rightarrow> err_chain e)"

definition errors_Is :: "goerr option \<Rightarrow> goerr \<Rightarrow> bool" where
  "errors_Is err target = (target \<in> set (errors_chain err))"

lemma err_chain_unfold:
  "err_chain e = e # (case Unwrap e of None \<Rightarrow> [] | Some e' \<Rightarrow> err_chain e')"
  by (cases e rule: err_chain.cases) auto

lemma errors_chain_None [simp]: "errors_chain None = []"
  by (simp add: errors_chain_def)

lemma errors_chain_Some [simp]:
  "errors_chain (Some e) = e # errors_chain (Unwrap e)"
  using err_chain_unfold [of e] by (simp add: errors_chain_def split: option.splits)

section \<open>Sentinels and constructors (errors.go)\<close>

definition IsDuplicate :: "goerr option \<Rightarrow> bool" where
  "IsDuplicate err = list_ex (\<lambda>e. case e of ErrDuplicate _ _ _ \<Rightarrow> True | _ \<Rightarrow> False) (errors_chain err)"

definition RetryAfter :: "duration \<Rightarrow> goerr option \<Rightarrow> goerr option" where
  "RetryAfter delay err =
     (let err' = (case err of None \<Rightarrow> ErrorString ''retry requested'' | Some e \<Rightarrow> e)
      in Some (RetryAfterErr delay (Some err')))"

fun first_retry_after :: "goerr list \<Rightarrow> duration \<times> bool" where
  "first_retry_after (RetryAfterErr d _ # _) = (d, True)"
| "first_retry_after (_ # es) = first_retry_after es"
| "first_retry_after [] = (0, False)"

definition ExtractRetryAfter :: "goerr option \<Rightarrow> duration \<times> bool" where
  "ExtractRetryAfter err = first_retry_after (errors_chain err)"

definition DeadLetter :: "goerr option \<Rightarrow> goerr option" where
  "DeadLetter err =
     (let err' = (case err of None \<Rightarrow> ErrorString ''dead-lettered'' | Some e \<Rightarrow> e)
      in Some (DeadLetterErr (Some err')))"

definition IsDeadLetter :: "goerr option \<Rightarrow> bool" where
  "IsDeadLetter err = list_ex (\<lambda>e. case e of DeadLetterErr _ \<Rightarrow> True | _ \<Rightarrow> False) (errors_chain err)"

definition Skip :: "string \<Rightarrow> goerr option" where
  "Skip reason = Some (SkipErr reason)"

definition IsSkip :: "goerr option \<Rightarrow> bool" where
  "IsSkip err = list_ex (\<lambda>e. case e of SkipErr _ \<Rightarrow> True | _ \<Rightarrow> False) (errors_chain err)"

lemmas error_defs = IsDuplicate_def RetryAfter_def ExtractRetryAfter_def DeadLetter_def
  IsDeadLetter_def Skip_def IsSkip_def errors_Is_def

text \<open>
  Wrapping never hides a classification: the predicates see through \<open>%w\<close>, through
  \<open>RetryAfter\<close> and through \<open>DeadLetter\<close>.
\<close>

lemma IsDuplicate_simps [simp]:
  "\<not> IsDuplicate None" "IsDuplicate (Some (ErrDuplicate i t k))"
  "IsDuplicate (Some (WrapError p e)) = IsDuplicate (Some e)"
  "\<not> IsDuplicate (Some (ErrorString s))" "\<not> IsDuplicate (Some ErrNoRows)"
  by (simp_all add: IsDuplicate_def)

lemma IsDeadLetter_simps [simp]:
  "\<not> IsDeadLetter None" "IsDeadLetter (Some (DeadLetterErr e))" "IsDeadLetter (DeadLetter err)"
  "IsDeadLetter (Some (WrapError p e')) = IsDeadLetter (Some e')"
  "IsDeadLetter (Some (RetryAfterErr d (Some e'))) = IsDeadLetter (Some e')"
  "\<not> IsDeadLetter (Some (ErrorString s))"
  by (simp_all add: IsDeadLetter_def DeadLetter_def)

lemma IsSkip_simps [simp]:
  "\<not> IsSkip None" "IsSkip (Skip r)" "IsSkip (Some (SkipErr r))"
  "IsSkip (Some (WrapError p e)) = IsSkip (Some e)"
  "IsSkip (Some (RetryAfterErr d (Some e))) = IsSkip (Some e)"
  "IsSkip (Some (DeadLetterErr (Some e))) = IsSkip (Some e)"
  "\<not> IsSkip (Some (ErrorString s))"
  by (simp_all add: IsSkip_def Skip_def)

lemma ExtractRetryAfter_simps [simp]:
  "ExtractRetryAfter None = (0, False)"
  "ExtractRetryAfter (RetryAfter d err) = (d, True)"
  "ExtractRetryAfter (Some (RetryAfterErr d e)) = (d, True)"
  "ExtractRetryAfter (Some (WrapError p e')) = ExtractRetryAfter (Some e')"
  "ExtractRetryAfter (Some (DeadLetterErr (Some e'))) = ExtractRetryAfter (Some e')"
  "ExtractRetryAfter (Some (ErrorString s)) = (0, False)"
  by (simp_all add: ExtractRetryAfter_def RetryAfter_def)

lemma errors_Is_simps [simp]:
  "\<not> errors_Is None t"
  "errors_Is (Some (WrapError p e)) t \<longleftrightarrow> WrapError p e = t \<or> errors_Is (Some e) t"
  "errors_Is (Some ErrNoRows) t \<longleftrightarrow> t = ErrNoRows"
  "errors_Is (Some (ErrorString s)) t \<longleftrightarrow> t = ErrorString s"
  "errors_Is (Some ContextCanceled) t \<longleftrightarrow> t = ContextCanceled"
  by (auto simp: errors_Is_def)

section \<open>Error texts\<close>

text \<open>\<open>time.Duration.String\<close>: the two helpers print from the right, as the library's do.\<close>

fun fmtFrac :: "nat \<Rightarrow> nat \<Rightarrow> bool \<Rightarrow> string \<times> nat" where
  "fmtFrac v 0 pr = ((if pr then ''.'' else ''''), v)"
| "fmtFrac v (Suc prec) pr =
     (let digit = v mod 10; pr' = (pr \<or> digit \<noteq> 0);
          (s, v') = fmtFrac (v div 10) prec pr'
      in (s @ (if pr' then [digit_char digit] else ''''), v'))"

definition fmtScaled :: "nat \<Rightarrow> nat \<Rightarrow> string \<Rightarrow> string" where
  "fmtScaled u prec unit = (let (frac, v) = fmtFrac u prec False in show_nat v @ frac @ unit)"

definition Duration_String :: "duration \<Rightarrow> string" where
  "Duration_String d =
     (let u = nat \<bar>d\<bar>; sign = (if d < 0 then ''-'' else '''') in
      if u = 0 then ''0s''
      else if u < 1000 then sign @ fmtScaled u 0 ''ns''
      else if u < 1000000 then sign @ fmtScaled u 3 [char_of (0xC2::nat), char_of (0xB5::nat), CHR ''s'']
      else if u < 1000000000 then sign @ fmtScaled u 6 ''ms''
      else
        (let (frac, secs) = fmtFrac u 9 False;
             s = show_nat (secs mod 60) @ frac @ ''s''; mins = secs div 60;
             s = (if mins > 0 then show_nat (mins mod 60) @ ''m'' @ s else s); hours = mins div 60;
             s = (if hours > 0 then show_nat hours @ ''h'' @ s else s)
         in sign @ s))"

text \<open>
  \<open>Error()\<close>. The argument \<open>q\<close> is \<open>strconv.Quote\<close> (the verb \<open>%q\<close>), on whose
  output no property of the library depends.
\<close>

fun Error_text :: "(string \<Rightarrow> string) \<Rightarrow> goerr \<Rightarrow> string" where
  "Error_text q (ErrorString s) = s"
| "Error_text q (WrapError p e) = p @ Error_text q e"
| "Error_text q (ErrDuplicate i t k) =
     ''tickr: duplicate idempotency key '' @ q k @ '' for event type '' @ q t
       @ '' (existing id '' @ i @ '')''"
| "Error_text q (RetryAfterErr d None) = ''tickr: retry after '' @ Duration_String d"
| "Error_text q (RetryAfterErr d (Some e)) =
     ''tickr: retry after '' @ Duration_String d @ '': '' @ Error_text q e"
| "Error_text q (DeadLetterErr None) = ''tickr: dead-letter requested''"
| "Error_text q (DeadLetterErr (Some e)) = ''tickr: dead-letter: '' @ Error_text q e"
| "Error_text q (SkipErr r) = (if r = '''' then ''tickr: skipped'' else ''tickr: skipped: '' @ r)"
| "Error_text q ContextCanceled = ''context canceled''"
| "Error_text q ContextDeadlineExceeded = ''context deadline exceeded''"
| "Error_text q ErrNoRows = ''no rows in result set''"
| "Error_text q (MySQLError n m) = ''Error '' @ show_int n @ '': '' @ m"

end
