(* ===== verification/Message.thy ===== *)
theory Message
  imports Errors
begin

text \<open>
  The data exchanged between producer, storage and worker (src/message.go, src/storage.go).
  A \<open>Status\<close> field that may be the empty string (the zero value of the Go type) is a
  \<open>Status option\<close>.
\<close>

datatype Status =
    StatusCreated | StatusHandling | StatusSuccess | StatusFailed | StatusRetrying | StatusDead

definition Terminal :: "Status \<Rightarrow> bool" where
  "Terminal s = (s = StatusSuccess \<or> s = StatusDead)"

lemma Terminal_simps [simp]:
  "Terminal StatusSuccess" "Terminal StatusDead" "\<not> Terminal StatusCreated"
  "\<not> Terminal StatusHandling" "\<not> Terminal StatusFailed" "\<not> Terminal StatusRetrying"
  by (simp_all add: Terminal_def)

record Message =
  msg_Type :: string
  msg_Payload :: bytes
  msg_Headers :: headers
  msg_IdempotencyKey :: string
  msg_ScheduledAt :: time
  msg_MaxAttempts :: int

record InboundMessage =
  im_ID :: message_id
  im_Type :: string
  im_Payload :: bytes
  im_Headers :: headers
  im_IdempotencyKey :: string
  im_Attempt :: int
  im_MaxAttempts :: int
  im_EnqueuedAt :: time
  im_ScheduledAt :: time
  im_LastError :: string
  im_Status :: "Status option"

record Transition =
  tr_MessageID :: message_id
  tr_Seq :: int
  tr_From :: "Status option"
  tr_To :: Status
  tr_Attempt :: int
  tr_Error :: string
  tr_WorkerID :: string
  tr_At :: time

datatype Outcome = OutcomeSuccess | OutcomeRetry | OutcomeDead | OutcomeCanceled

section \<open>Parameters of the storage interface\<close>

record EnqueueParams =
  ep_EventType :: string
  ep_Payload :: bytes
  ep_Headers :: headers
  ep_IdempotencyKey :: string
  ep_MaxAttempts :: int
  ep_ProcessAt :: time

record ClaimParams =
  cp_WorkerID :: string
  cp_Batch :: int
  cp_Lease :: duration
  cp_EventTypes :: "string list"

record FailParams =
  fp_MessageID :: message_id
  fp_Attempt :: int
  fp_WorkerID :: string
  fp_Err :: string
  fp_NextRetryAt :: time
  fp_Dead :: bool

record BatchSucceedParam =
  bs_MessageID :: message_id
  bs_Attempt :: int
  bs_WorkerID :: string

record Stats =
  ByStatus :: "(Status \<times> int) list"
  ByEventType :: "(string \<times> (Status \<times> int) list) list"
  SampledAt :: time

text \<open>
  The caller's transaction handle: the zero value, a handle of the adapter's own driver, or a
  handle of another adapter, which the adapters' type assertions reject.
\<close>

datatype Tx = TxZero | TxNative | TxForeign

definition Tx_IsZero :: "Tx \<Rightarrow> bool" where
  "Tx_IsZero tx = (tx = TxZero)"

end
