(* ===== verification/Observe.thy ===== *)
theory Observe
  imports Message
begin

text \<open>
  The optional hooks (src/observe.go): metrics, spans and alerts. A hook that is not
  configured is replaced by the no-op implementation. What the configured hooks see is a list
  of observations, in the order the code makes the calls; log lines are not modelled.
\<close>

datatype ErrorKind =
    ErrorKindHandler | ErrorKindDeadLetter | ErrorKindNoHandler | ErrorKindClaim | ErrorKindStorage
  | ErrorKindLease | ErrorKindJanitor | ErrorKindReclaimer

record ErrorEvent =
  ev_Kind :: ErrorKind
  ev_EventType :: string
  ev_MessageID :: message_id
  ev_Attempt :: int
  ev_Err :: "goerr option"

text \<open>One constructor per method of \<open>Metrics\<close>, the end of each kind of span, and \<open>Alerter.OnError\<close>.\<close>

datatype obs =
    MessageEnqueued string
  | HandlerStarted string int
  | HandlerCompleted string int duration Outcome
  | MessageDead string
  | QueueDepth string Status int
  | ClaimBatch int int duration
  | LeaseReclaimed string int
  | EnqueueSpan string "goerr option"
  | ClaimSpan "goerr option"
  | HandlerSpan message_id "goerr option"
  | OnError ErrorEvent

datatype hook = NopHook | ConfiguredHook

definition defaulted :: "hook option \<Rightarrow> hook" where
  "defaulted h = (case h of None \<Rightarrow> NopHook | Some x \<Rightarrow> x)"

record hooks =
  hk_metrics :: hook
  hk_tracer :: hook
  hk_alerter :: hook
  hk_inject :: "nat \<Rightarrow> headers \<Rightarrow> headers"

definition metric :: "hooks \<Rightarrow> obs \<Rightarrow> obs list" where
  "metric hk x = (case hk_metrics hk of NopHook \<Rightarrow> [] | ConfiguredHook \<Rightarrow> [x])"

definition trace_span :: "hooks \<Rightarrow> obs \<Rightarrow> obs list" where
  "trace_span hk x = (case hk_tracer hk of NopHook \<Rightarrow> [] | ConfiguredHook \<Rightarrow> [x])"

definition fireAlert :: "hooks \<Rightarrow> ErrorEvent \<Rightarrow> obs list" where
  "fireAlert hk evt = (case hk_alerter hk of NopHook \<Rightarrow> [] | ConfiguredHook \<Rightarrow> [OnError evt])"

text \<open>The headers a tracer injects depend on the span the context carries, here its number in the call.\<close>

definition InjectHeaders :: "hooks \<Rightarrow> nat \<Rightarrow> headers \<Rightarrow> headers" where
  "InjectHeaders hk i h = (case hk_tracer hk of NopHook \<Rightarrow> h | ConfiguredHook \<Rightarrow> hk_inject hk i h)"

definition core_event :: "ErrorKind \<Rightarrow> goerr \<Rightarrow> ErrorEvent" where
  "core_event k er = \<lparr>ev_Kind = k, ev_EventType = '''', ev_MessageID = '''', ev_Attempt = 0, ev_Err = Some er\<rparr>"

definition message_event :: "ErrorKind \<Rightarrow> InboundMessage \<Rightarrow> goerr option \<Rightarrow> ErrorEvent" where
  "message_event k m er =
     \<lparr>ev_Kind = k, ev_EventType = im_Type m, ev_MessageID = im_ID m, ev_Attempt = im_Attempt m, ev_Err = er\<rparr>"

lemmas hook_defs = metric_def trace_span_def fireAlert_def

end
