(* ===== verification/Storage_Iface.thy ===== *)
theory Storage_Iface
  imports Observe
begin

text \<open>
  The \<open>Storage\<close> interface (src/storage.go) as a record of functions over a world \<open>'w\<close>
  (the database as the adapter sees it, with the environment of the calls still to come), the
  optional extensions as option fields, and the contracts that the producer and the consumer
  side rely on as locales.
\<close>

section \<open>The interface\<close>

record 'w Storage =
  st_Enqueue :: "Tx \<Rightarrow> EnqueueParams \<Rightarrow> 'w \<Rightarrow> 'w \<times> InboundMessage option \<times> goerr option"
  st_EnqueueBatch :: "Tx \<Rightarrow> EnqueueParams list \<Rightarrow> 'w \<Rightarrow> 'w \<times> InboundMessage option list \<times> goerr option"
  st_Claim :: "ClaimParams \<Rightarrow> 'w \<Rightarrow> 'w \<times> InboundMessage list \<times> goerr option"
  st_Succeed :: "message_id \<Rightarrow> int \<Rightarrow> string \<Rightarrow> 'w \<Rightarrow> 'w \<times> goerr option"
  st_Fail :: "FailParams \<Rightarrow> 'w \<Rightarrow> 'w \<times> goerr option"
  st_ReleaseShutdown :: "message_id \<Rightarrow> int \<Rightarrow> string \<Rightarrow> string \<Rightarrow> 'w \<Rightarrow> 'w \<times> goerr option"
  st_Extend :: "message_id \<Rightarrow> string \<Rightarrow> time \<Rightarrow> 'w \<Rightarrow> 'w \<times> bool \<times> goerr option"
  st_History :: "message_id \<Rightarrow> 'w \<Rightarrow> 'w \<times> Transition list \<times> goerr option"
  st_ListDead :: "string \<Rightarrow> time \<Rightarrow> int \<Rightarrow> 'w \<Rightarrow> 'w \<times> InboundMessage list \<times> goerr option"
  st_Requeue :: "message_id \<Rightarrow> time \<Rightarrow> 'w \<Rightarrow> 'w \<times> goerr option"
  st_ReclaimExpired :: "int \<Rightarrow> 'w \<Rightarrow> 'w \<times> int \<times> goerr option"
  st_PurgeTerminal :: "time \<Rightarrow> int \<Rightarrow> 'w \<Rightarrow> 'w \<times> int \<times> goerr option"
  st_Stats :: "'w \<Rightarrow> 'w \<times> Stats \<times> goerr option"
  st_TryLeaderLock :: "string \<Rightarrow> 'w \<Rightarrow> 'w \<times> bool \<times> goerr option"
  st_unlock :: "string \<Rightarrow> 'w \<Rightarrow> 'w"
  st_BatchSucceed :: "(BatchSucceedParam list \<Rightarrow> 'w \<Rightarrow> 'w \<times> goerr option) option"
  st_Notify :: "(Tx \<Rightarrow> string \<Rightarrow> 'w \<Rightarrow> 'w \<times> goerr option) option"
  st_PurgeHistory :: "(time \<Rightarrow> int \<Rightarrow> 'w \<Rightarrow> 'w \<times> int \<times> goerr option) option"

section \<open>The contract of the consumer side\<close>

text \<open>What a worker can say about a message: its status, attempt counter, leaseholder and due time.\<close>

record lease =
  ls_status :: Status
  ls_attempt :: int
  ls_worker :: "string option"
  ls_due :: time

definition held :: "('w \<Rightarrow> message_id \<Rightarrow> lease option) \<Rightarrow> 'w \<Rightarrow> message_id \<Rightarrow> int \<Rightarrow> string \<Rightarrow> bool" where
  "held look w ident att wk \<longleftrightarrow> (case look w ident of None \<Rightarrow> False
     | Some l \<Rightarrow> ls_status l = StatusHandling \<and> ls_attempt l = att \<and> ls_worker l = Some wk)"

definition status_of :: "('w \<Rightarrow> message_id \<Rightarrow> lease option) \<Rightarrow> 'w \<Rightarrow> message_id \<Rightarrow> Status option" where
  "status_of look w ident = map_option ls_status (look w ident)"

text \<open>A call that concerns one message leaves the others alone.\<close>

definition only :: "('w \<Rightarrow> message_id \<Rightarrow> lease option) \<Rightarrow> message_id \<Rightarrow> 'w \<Rightarrow> 'w \<Rightarrow> bool" where
  "only look ident w w' \<longleftrightarrow> (\<forall>j. j \<noteq> ident \<longrightarrow> look w' j = look w j)"

locale consumer_storage =
  fixes st :: "'w Storage" and look :: "'w \<Rightarrow> message_id \<Rightarrow> lease option" and inv :: "'w \<Rightarrow> bool"
  assumes claim_inv: "inv w \<Longrightarrow> inv (fst (st_Claim st p w))"
    and claim_distinct: "inv w \<Longrightarrow> st_Claim st p w = (w', out, None) \<Longrightarrow> distinct (map im_ID out)"
    and claim_held: "inv w \<Longrightarrow> st_Claim st p w = (w', out, None) \<Longrightarrow> m \<in> set out \<Longrightarrow>
      held look w' (im_ID m) (im_Attempt m) (cp_WorkerID p)"
    and claim_frame: "inv w \<Longrightarrow> st_Claim st p w = (w', out, None) \<Longrightarrow> j \<notin> im_ID ` set out \<Longrightarrow> look w' j = look w j"
    and succeed_inv: "inv w \<Longrightarrow> inv (fst (st_Succeed st ident att wk w))"
    and succeed_held: "inv w \<Longrightarrow> held look w ident att wk \<Longrightarrow> st_Succeed st ident att wk w = (w', None) \<Longrightarrow>
      status_of look w' ident = Some StatusSuccess \<and> only look ident w w'"
    and batch_inv: "st_BatchSucceed st = Some batch \<Longrightarrow> inv w \<Longrightarrow> inv (fst (batch ps w))"
    and batch_held: "st_BatchSucceed st = Some batch \<Longrightarrow> inv w \<Longrightarrow> batch ps w = (w', None) \<Longrightarrow> b \<in> set ps \<Longrightarrow>
      held look w (bs_MessageID b) (bs_Attempt b) (bs_WorkerID b) \<Longrightarrow>
      status_of look w' (bs_MessageID b) = Some StatusSuccess"
    and batch_frame: "st_BatchSucceed st = Some batch \<Longrightarrow> inv w \<Longrightarrow> batch ps w = (w', None) \<Longrightarrow>
      (\<And>b. b \<in> set ps \<Longrightarrow> look w (bs_MessageID b) \<noteq> None) \<Longrightarrow> j \<notin> bs_MessageID ` set ps \<Longrightarrow> look w' j = look w j"
    and fail_inv: "inv w \<Longrightarrow> inv (fst (st_Fail st fp w))"
    and fail_held: "inv w \<Longrightarrow> held look w (fp_MessageID fp) (fp_Attempt fp) (fp_WorkerID fp) \<Longrightarrow>
      st_Fail st fp w = (w', None) \<Longrightarrow>
      (\<exists>l. look w' (fp_MessageID fp) = Some l \<and> ls_attempt l = fp_Attempt fp \<and>
         ls_status l = (if fp_Dead fp then StatusDead else StatusRetrying) \<and>
         (\<not> fp_Dead fp \<longrightarrow> ls_due l = fp_NextRetryAt fp)) \<and> only look (fp_MessageID fp) w w'"
    and release_inv: "inv w \<Longrightarrow> inv (fst (st_ReleaseShutdown st ident att wk reason w))"
    and release_held: "inv w \<Longrightarrow> held look w ident att wk \<Longrightarrow> st_ReleaseShutdown st ident att wk reason w = (w', None) \<Longrightarrow>
      (\<exists>l. look w' ident = Some l \<and> ls_status l \<in> {StatusCreated, StatusRetrying} \<and> ls_attempt l = att - 1) \<and>
      only look ident w w'"
    and extend_inv: "inv w \<Longrightarrow> inv (fst (st_Extend st ident wk until w))"
    and extend_frame: "inv w \<Longrightarrow> look (fst (st_Extend st ident wk until w)) j = look w j"
    and reclaim_inv: "inv w \<Longrightarrow> inv (fst (st_ReclaimExpired st n w))"
    and purge_inv: "inv w \<Longrightarrow> inv (fst (st_PurgeTerminal st t n w))"
begin

lemma held_other: "only look ident w w' \<Longrightarrow> j \<noteq> ident \<Longrightarrow> held look w' j att wk = held look w j att wk"
  by (simp add: held_def only_def)

lemma status_other: "only look ident w w' \<Longrightarrow> j \<noteq> ident \<Longrightarrow> status_of look w' j = status_of look w j"
  by (simp add: status_of_def only_def)

lemma extend_keeps_held: "inv w \<Longrightarrow> held look (fst (st_Extend st ident wk until w)) j att wk' = held look w j att wk'"
  by (simp add: held_def extend_frame)

end

section \<open>The contract of the leader locks\<close>

text \<open>
  The background loops of the workers run under a lock that at most one caller (here a
  session number) holds per key.
\<close>

locale leader_lock =
  fixes acquire :: "nat \<Rightarrow> string \<Rightarrow> 'l \<Rightarrow> 'l \<times> bool" and release :: "nat \<Rightarrow> string \<Rightarrow> 'l \<Rightarrow> 'l"
    and owns :: "'l \<Rightarrow> string \<Rightarrow> nat \<Rightarrow> bool" and locks_inv :: "'l \<Rightarrow> bool"
  assumes acquire_inv: "locks_inv l \<Longrightarrow> locks_inv (fst (acquire c k l))"
    and release_inv: "locks_inv l \<Longrightarrow> locks_inv (release c k l)"
    and owns_unique: "locks_inv l \<Longrightarrow> owns l k c \<Longrightarrow> owns l k c' \<Longrightarrow> c = c'"
    and acquire_owns: "locks_inv l \<Longrightarrow> acquire c k l = (l', True) \<Longrightarrow> owns l' k c"
    and acquire_keeps: "locks_inv l \<Longrightarrow> owns l k c' \<Longrightarrow> c' \<noteq> c \<Longrightarrow> owns (fst (acquire c k' l)) k c'"
    and release_keeps: "locks_inv l \<Longrightarrow> owns l k c' \<Longrightarrow> c' \<noteq> c \<Longrightarrow> owns (release c k' l) k c'"
begin

lemma exclusive:
  assumes "locks_inv l" "owns l k c'" "c' \<noteq> c"
  shows "\<not> snd (acquire c k l)"
proof
  assume "snd (acquire c k l)"
  then have eq: "acquire c k l = (fst (acquire c k l), True)" by (simp add: prod_eq_iff)
  from acquire_owns [OF assms(1) eq] acquire_keeps [OF assms(1,2,3), of k] owns_unique [OF acquire_inv [OF assms(1)]]
  show False using assms(3) by blast
qed

end

end
