(* ===== verification/Retry.thy ===== *)
theory Retry
  imports Errors
begin

text \<open>
  Retry policies (src/retry.go). A \<open>float64\<close> is a finite real, an infinity or NaN;
  \<open>rnd\<close> is the rounding of the hardware and \<open>ovf\<close> the value an out-of-range conversion
  to \<open>int64\<close> yields, which the language leaves to the platform. Both are arguments of the
  definitions; the bounds hold for all of them.
\<close>

section \<open>Floating point\<close>

datatype float64 = Fin real | PosInf | NegInf | NaN

record float_unit =
  rnd :: "real \<Rightarrow> real"
  ovf :: "float64 \<Rightarrow> int"

definition flt :: "float_unit \<Rightarrow> real \<Rightarrow> float64" where
  "flt fu x = (if rnd fu x \<ge> 2 ^ 1024 then PosInf else if rnd fu x \<le> - (2 ^ 1024) then NegInf else Fin (rnd fu x))"

fun fmul :: "float_unit \<Rightarrow> float64 \<Rightarrow> float64 \<Rightarrow> float64" where
  "fmul fu (Fin x) (Fin y) = flt fu (x * y)"
| "fmul fu (Fin x) PosInf = (if x > 0 then PosInf else if x < 0 then NegInf else NaN)"
| "fmul fu (Fin x) NegInf = (if x > 0 then NegInf else if x < 0 then PosInf else NaN)"
| "fmul fu PosInf (Fin y) = (if y > 0 then PosInf else if y < 0 then NegInf else NaN)"
| "fmul fu NegInf (Fin y) = (if y > 0 then NegInf else if y < 0 then PosInf else NaN)"
| "fmul fu PosInf PosInf = PosInf"
| "fmul fu PosInf NegInf = NegInf"
| "fmul fu NegInf PosInf = NegInf"
| "fmul fu NegInf NegInf = PosInf"
| "fmul fu _ _ = NaN"

fun fadd :: "float_unit \<Rightarrow> float64 \<Rightarrow> float64 \<Rightarrow> float64" where
  "fadd fu (Fin x) (Fin y) = flt fu (x + y)"
| "fadd fu NaN _ = NaN"
| "fadd fu _ NaN = NaN"
| "fadd fu PosInf NegInf = NaN"
| "fadd fu NegInf PosInf = NaN"
| "fadd fu PosInf _ = PosInf"
| "fadd fu NegInf _ = NegInf"
| "fadd fu (Fin x) PosInf = PosInf"
| "fadd fu (Fin x) NegInf = NegInf"

definition float_of_int :: "float_unit \<Rightarrow> int \<Rightarrow> float64" where
  "float_of_int fu n = flt fu (real_of_int n)"

text \<open>\<open>math.Pow(2, n)\<close> for a non-negative integral exponent: exact, and infinite from \<open>2^1024\<close> on.\<close>

definition pow2 :: "nat \<Rightarrow> float64" where
  "pow2 n = (if n < 1024 then Fin (2 ^ n) else PosInf)"

definition trunc :: "real \<Rightarrow> int" where
  "trunc x = (if x < 0 then - \<lfloor>- x\<rfloor> else \<lfloor>x\<rfloor>)"

definition int64_of_float :: "float_unit \<Rightarrow> float64 \<Rightarrow> int" where
  "int64_of_float fu f = (case f of
     Fin x \<Rightarrow> if - (2 ^ 63) \<le> trunc x \<and> trunc x < 2 ^ 63 then trunc x else ovf fu f
   | _ \<Rightarrow> ovf fu f)"

section \<open>ExponentialBackoff\<close>

text \<open>
  \<open>Rand\<close> is either a source of the caller or the package's; a call draws one number from
  it. \<open>JitterFraction\<close> compares like a Go float: every comparison with NaN is false.
\<close>

record ExponentialBackoff =
  eb_Base :: duration
  eb_Max :: duration
  eb_JitterFraction :: float64
  eb_Rand :: "(float64 \<Rightarrow> float64) option"

fun flt_less :: "float64 \<Rightarrow> float64 \<Rightarrow> bool" where
  "flt_less (Fin x) (Fin y) = (x < y)"
| "flt_less NegInf (Fin y) = True"
| "flt_less NegInf PosInf = True"
| "flt_less (Fin x) PosInf = True"
| "flt_less _ _ = False"

definition clampJitter :: "float64 \<Rightarrow> float64" where
  "clampJitter j =
     (let j1 = (if flt_less j (Fin 0) then Fin 0 else j)
      in if flt_less (Fin 1) j1 then Fin 1 else j1)"

definition backoffBase :: "ExponentialBackoff \<Rightarrow> duration" where
  "backoffBase e = (if eb_Base e \<le> 0 then Second else eb_Base e)"

definition backoffMax :: "ExponentialBackoff \<Rightarrow> duration" where
  "backoffMax e = (if eb_Max e \<le> 0 then Hour else eb_Max e)"

definition backoffDelay :: "float_unit \<Rightarrow> ExponentialBackoff \<Rightarrow> int \<Rightarrow> duration" where
  "backoffDelay fu e attempt =
     (let att = (if attempt < 1 then 1 else attempt);
          expo = pow2 (nat (att - 1));
          d = int64_of_float fu (fmul fu (float_of_int fu (backoffBase e)) expo)
      in if d \<le> 0 \<or> d > backoffMax e then backoffMax e else d)"

definition NextDelay :: "float_unit \<Rightarrow> ExponentialBackoff \<Rightarrow> float64 \<Rightarrow> int \<Rightarrow> goerr option \<Rightarrow> duration" where
  "NextDelay fu e draw attempt err =
     (let maxDelay = backoffMax e; jitter = clampJitter (eb_JitterFraction e);
          d = backoffDelay fu e attempt
      in if flt_less (Fin 0) jitter then
           (let r = (case eb_Rand e of Some f \<Rightarrow> f draw | None \<Rightarrow> draw);
                spread = fmul fu (fadd fu (fmul fu (Fin 2) r) (Fin (-1))) jitter;
                d' = int64_of_float fu (fmul fu (float_of_int fu d) (fadd fu (Fin 1) spread))
            in min (max d' 0) maxDelay)
         else d)"

definition DefaultRetryPolicy :: "float_unit \<Rightarrow> ExponentialBackoff" where
  "DefaultRetryPolicy fu = \<lparr>eb_Base = Second, eb_Max = Hour, eb_JitterFraction = flt fu (2 / 10), eb_Rand = None\<rparr>"

section \<open>The interface\<close>

text \<open>
  \<open>RetryPolicy\<close>: a delay from the attempts made and the last error, given the random number
  the call draws. What the engine relies on is that the delay is not negative and bounded.
\<close>

type_synonym RetryPolicy = "float64 \<Rightarrow> int \<Rightarrow> goerr option \<Rightarrow> duration"

locale retry_policy =
  fixes next_delay :: RetryPolicy and max_delay :: duration
  assumes delay_nonneg: "0 \<le> next_delay draw attempt err"
    and delay_max: "next_delay draw attempt err \<le> max_delay"
begin

lemma schedule_window: "t \<le> t + next_delay draw attempt err \<and> t + next_delay draw attempt err \<le> t + max_delay"
  using delay_nonneg delay_max by simp

end

lemma backoffMax_pos: "0 < backoffMax e"
  by (simp add: backoffMax_def Hour_def)

lemma backoffDelay_bounds: "0 < backoffDelay fu e attempt \<and> backoffDelay fu e attempt \<le> backoffMax e"
  using backoffMax_pos [of e] by (auto simp: backoffDelay_def Let_def)

interpretation backoff: retry_policy "NextDelay fu e" "backoffMax e" for fu e
proof unfold_locales
  show "0 \<le> NextDelay fu e draw attempt err" for draw attempt err
    using backoffDelay_bounds [of fu e attempt] backoffMax_pos [of e] by (simp add: NextDelay_def Let_def)
  show "NextDelay fu e draw attempt err \<le> backoffMax e" for draw attempt err
    using backoffDelay_bounds [of fu e attempt] by (simp add: NextDelay_def Let_def)
qed

section \<open>Exactness without jitter\<close>

text \<open>
  Rounding leaves alone what the format represents: integers below \<open>2^53\<close> times a power of
  two. Platforms give an out-of-range conversion a non-positive value or the largest one.
\<close>

definition ieee_like :: "float_unit \<Rightarrow> bool" where
  "ieee_like fu \<longleftrightarrow> (\<forall>m k. \<bar>m\<bar> < 2 ^ 53 \<longrightarrow> rnd fu (real_of_int m * 2 ^ k) = real_of_int m * 2 ^ k) \<and>
     (\<forall>f. ovf fu f \<le> 0 \<or> ovf fu f = 2 ^ 63 - 1)"

lemma trunc_of_int: "trunc (real_of_int n) = n"
  by (simp add: trunc_def)

lemma ieee_flt:
  assumes "ieee_like fu" "0 \<le> m" "m < 2 ^ 53" "real_of_int m * 2 ^ k < 2 ^ 1024"
  shows "flt fu (real_of_int m * 2 ^ k) = Fin (real_of_int m * 2 ^ k)"
proof -
  have r: "rnd fu (real_of_int m * 2 ^ k) = real_of_int m * 2 ^ k"
    using assms(1-3) by (simp add: ieee_like_def)
  have "0 \<le> real_of_int m * 2 ^ k" using assms(2) by simp
  moreover have "(0::real) < 2 ^ 1024" by simp
  ultimately have "\<not> real_of_int m * 2 ^ k \<le> - (2 ^ 1024)" by linarith
  with r assms(4) show ?thesis by (simp add: flt_def)
qed

lemma ieee_product:
  assumes "ieee_like fu" "0 < b" "b < 2 ^ 53"
  shows "int64_of_float fu (fmul fu (float_of_int fu b) (pow2 n)) = b * 2 ^ n \<and> b * 2 ^ n < 2 ^ 63 \<or>
    b * 2 ^ n \<ge> 2 ^ 63 \<and> (\<exists>f. int64_of_float fu (fmul fu (float_of_int fu b) (pow2 n)) = ovf fu f)"
proof -
  have "real_of_int b < 2 ^ 53" using assms(3) by (metis of_int_less_iff of_int_numeral of_int_power)
  also have "(2::real) ^ 53 < 2 ^ 1024" by (rule power_strict_increasing) simp_all
  finally have fb: "float_of_int fu b = Fin (real_of_int b)"
    using ieee_flt [OF assms(1), of b 0] assms(2,3) by (simp add: float_of_int_def)
  show ?thesis
  proof (cases "b * 2 ^ n < 2 ^ 63")
    case True
    have "real_of_int b * 2 ^ n = real_of_int (b * 2 ^ n)" by simp
    also have "\<dots> < 2 ^ 63" using True by (metis of_int_less_iff of_int_numeral of_int_power)
    also have "(2::real) ^ 63 < 2 ^ 1024" by (rule power_strict_increasing) simp_all
    finally have lt: "real_of_int b * 2 ^ n < 2 ^ 1024" .
    have "(2::int) ^ n \<le> b * 2 ^ n" using assms(2) by simp
    with True have "(2::int) ^ n < 2 ^ 63" by linarith
    then have "n < 63" by (rule power_less_imp_less_exp [rotated]) simp
    then have "fmul fu (float_of_int fu b) (pow2 n) = Fin (real_of_int (b * 2 ^ n))"
      using ieee_flt [OF assms(1), of b n] assms(2,3) lt by (simp add: fb pow2_def)
    moreover have "0 < b * 2 ^ n" using assms(2) by simp
    then have "- (2 ^ 63) \<le> b * 2 ^ n" by (intro order_trans [of "- (2 ^ 63)" 0 "b * 2 ^ n"]) simp_all
    ultimately show ?thesis using True by (simp only: int64_of_float_def float64.case trunc_of_int) simp
  next
    case False
    have "\<exists>f. int64_of_float fu (fmul fu (float_of_int fu b) (pow2 n)) = ovf fu f"
    proof (cases "n < 1024 \<and> real_of_int b * 2 ^ n < 2 ^ 1024")
      case True
      then have "fmul fu (float_of_int fu b) (pow2 n) = Fin (real_of_int (b * 2 ^ n))"
        using ieee_flt [OF assms(1), of b n] assms(2,3) by (simp add: fb pow2_def)
      with False show ?thesis by (simp only: int64_of_float_def float64.case trunc_of_int simp_thms if_False) blast
    next
      case big: False
      have "rnd fu (real_of_int b * 2 ^ n) = real_of_int b * 2 ^ n"
        using assms by (simp add: ieee_like_def)
      with big have "fmul fu (float_of_int fu b) (pow2 n) = PosInf"
        using assms(2) by (auto simp: fb pow2_def flt_def)
      then show ?thesis by (auto simp: int64_of_float_def)
    qed
    with False show ?thesis by simp
  qed
qed

section \<open>Properties\<close>

text \<open>
  \<open>ExponentialBackoff\<close> never returns a negative delay or one above its cap (one hour
  when unset), for every configuration, attempt number, random draw, rounding mode and
  behaviour of overflowing conversions.
\<close>

theorem NextDelay_bounds:
  "0 \<le> NextDelay fu e draw attempt err \<and>
   NextDelay fu e draw attempt err \<le> (if eb_Max e \<le> 0 then Hour else eb_Max e)"
  using backoff.delay_nonneg [of fu e draw attempt err] backoff.delay_max [of fu e draw attempt err]
  by (simp add: backoffMax_def)

text \<open>
  C34. Without jitter the floating-point code computes the documented formula exactly:
  \<open>min(Max, Base * 2^(attempt-1))\<close> over unbounded integers, also where the product
  overflows 64 bits, for any base below \<open>2^53\<close> nanoseconds (104 days).
\<close>

theorem NextDelay_exact:
  assumes "ieee_like fu" "eb_Base e < 2 ^ 53" "eb_Max e < 2 ^ 63" "\<not> flt_less (Fin 0) (clampJitter (eb_JitterFraction e))"
  shows "NextDelay fu e draw attempt err = min (backoffMax e) (backoffBase e * 2 ^ nat (max attempt 1 - 1))"
proof -
  let ?n = "nat (max attempt 1 - 1)"
  have att: "nat ((if attempt < 1 then 1 else attempt) - 1) = ?n" by simp
  have b: "0 < backoffBase e" "backoffBase e < 2 ^ 53"
    using assms(2) by (auto simp: backoffBase_def Second_def)
  have m: "0 < backoffMax e" "backoffMax e \<le> 2 ^ 63 - 1"
    using assms(3) by (auto simp: backoffMax_def Hour_def)
  have pos: "0 < backoffBase e * 2 ^ ?n" using b(1) by simp
  let ?d = "int64_of_float fu (fmul fu (float_of_int fu (backoffBase e)) (pow2 ?n))"
  have "(if ?d \<le> 0 \<or> ?d > backoffMax e then backoffMax e else ?d) = min (backoffMax e) (backoffBase e * 2 ^ ?n)"
    using ieee_product [OF assms(1) b, of ?n]
  proof (elim disjE conjE exE)
    assume "?d = backoffBase e * 2 ^ ?n"
    then show ?thesis using pos by (simp add: min_def)
  next
    fix f assume big: "2 ^ 63 \<le> backoffBase e * 2 ^ ?n" and d: "?d = ovf fu f"
    have "ovf fu f \<le> 0 \<or> ovf fu f = 2 ^ 63 - 1" using assms(1) by (simp add: ieee_like_def)
    then have "(if ?d \<le> 0 \<or> ?d > backoffMax e then backoffMax e else ?d) = backoffMax e"
      unfolding d using m(2) by (elim disjE) auto
    moreover have "min (backoffMax e) (backoffBase e * 2 ^ ?n) = backoffMax e" using m(2) big by (intro min_absorb1) linarith
    ultimately show ?thesis by (simp only:)
  qed
  then show ?thesis using assms(4) by (simp only: NextDelay_def backoffDelay_def Let_def att if_False)
qed

definition exact_unit :: float_unit where
  "exact_unit = \<lparr>rnd = (\<lambda>x. x), ovf = (\<lambda>f. - (2 ^ 63))\<rparr>"

theorem NextDelay_exact_witness:
  "NextDelay exact_unit \<lparr>eb_Base = Second, eb_Max = Hour, eb_JitterFraction = Fin 0, eb_Rand = None\<rparr> (Fin 0) 4 None = 8 * Second"
  using NextDelay_exact [of exact_unit "\<lparr>eb_Base = Second, eb_Max = Hour, eb_JitterFraction = Fin 0, eb_Rand = None\<rparr>" "Fin 0" 4 None]
  by (simp add: ieee_like_def exact_unit_def clampJitter_def backoffMax_def backoffBase_def duration_units)

end
