(* ===== verification/Registry.thy ===== *)
theory Registry
  imports Retry Message
begin

text \<open>
  Handlers, their options and the registry (src/registry.go), and the typed handlers over a
  JSON codec (src/handler_typed.go). A handler is user code: a function of the context's error
  at the time it looks and of the message, which returns an error or panics. \<open>q\<close> is
  \<open>strconv.Quote\<close>; the codec is an argument of the definitions that use it.
\<close>

section \<open>Handlers and options\<close>

datatype panic_value = PanicError goerr | PanicValue string

datatype invocation = Returned "goerr option" | Panicked panic_value

type_synonym Handler = "goerr option \<Rightarrow> InboundMessage \<Rightarrow> invocation"
type_synonym BatchHandler = "goerr option \<Rightarrow> InboundMessage list \<Rightarrow> invocation"

record handlerConfig =
  hc_maxAttempts :: int
  hc_retry :: "RetryPolicy option"
  hc_maxInflight :: int
  hc_maxBatchSize :: int
  hc_attemptTimeout :: duration
  hc_deadLetterIf :: "(goerr option \<Rightarrow> bool) option"

record registration =
  reg_handler :: "Handler option"
  reg_batchHandler :: "BatchHandler option"
  reg_cfg :: handlerConfig

datatype HandlerOption =
    WithMaxAttempts int
  | WithRetryPolicy "RetryPolicy option"
  | WithMaxInflight int
  | WithAttemptTimeout duration
  | WithDeadLetterIf "(goerr option \<Rightarrow> bool) option"
  | WithMaxBatchSize int

fun apply_HandlerOption :: "HandlerOption \<Rightarrow> handlerConfig \<Rightarrow> handlerConfig" where
  "apply_HandlerOption (WithMaxAttempts n) c = c\<lparr>hc_maxAttempts := n\<rparr>"
| "apply_HandlerOption (WithRetryPolicy p) c = c\<lparr>hc_retry := p\<rparr>"
| "apply_HandlerOption (WithMaxInflight n) c = c\<lparr>hc_maxInflight := n\<rparr>"
| "apply_HandlerOption (WithAttemptTimeout d) c = c\<lparr>hc_attemptTimeout := d\<rparr>"
| "apply_HandlerOption (WithDeadLetterIf pred) c = c\<lparr>hc_deadLetterIf := pred\<rparr>"
| "apply_HandlerOption (WithMaxBatchSize n) c = c\<lparr>hc_maxBatchSize := n\<rparr>"

definition default_handlerConfig :: "float_unit \<Rightarrow> handlerConfig" where
  "default_handlerConfig fu =
     \<lparr>hc_maxAttempts = 10, hc_retry = Some (NextDelay fu (DefaultRetryPolicy fu)), hc_maxInflight = 0,
      hc_maxBatchSize = 0, hc_attemptTimeout = 30 * Second, hc_deadLetterIf = None\<rparr>"

section \<open>Registry\<close>

type_synonym HandlerRegistry = "(string \<times> registration) list"

definition NewRegistry :: HandlerRegistry where
  "NewRegistry = []"

definition lookup :: "HandlerRegistry \<Rightarrow> string \<Rightarrow> registration option" where
  "lookup r eventType = map_of r eventType"

text \<open>\<open>register\<close>; the registration comes with its handler set and its configuration still empty.\<close>

definition register ::
  "float_unit \<Rightarrow> (string \<Rightarrow> string) \<Rightarrow> HandlerRegistry \<Rightarrow> string \<Rightarrow> registration \<Rightarrow> HandlerOption list
   \<Rightarrow> HandlerRegistry \<times> goerr option" where
  "register fu q r eventType reg opts =
     (if eventType = '''' then (r, Some (ErrorString ''tickr: event type must be non-empty''))
      else
        let cfg = fold apply_HandlerOption opts (default_handlerConfig fu) in
        if lookup r eventType \<noteq> None then
          (r, Some (ErrorString (''tickr: handler already registered for event type '' @ q eventType)))
        else (map_set eventType (reg\<lparr>reg_cfg := cfg\<rparr>) r, None))"

definition registry_On ::
  "float_unit \<Rightarrow> (string \<Rightarrow> string) \<Rightarrow> HandlerRegistry \<Rightarrow> string \<Rightarrow> Handler option \<Rightarrow> HandlerOption list
   \<Rightarrow> HandlerRegistry \<times> goerr option" where
  "registry_On fu q r eventType h opts =
     (if h = None then (r, Some (ErrorString ''tickr: handler must be non-nil''))
      else register fu q r eventType
        \<lparr>reg_handler = h, reg_batchHandler = None, reg_cfg = default_handlerConfig fu\<rparr> opts)"

definition registry_OnBatch ::
  "float_unit \<Rightarrow> (string \<Rightarrow> string) \<Rightarrow> HandlerRegistry \<Rightarrow> string \<Rightarrow> BatchHandler option \<Rightarrow> HandlerOption list
   \<Rightarrow> HandlerRegistry \<times> goerr option" where
  "registry_OnBatch fu q r eventType h opts =
     (if h = None then (r, Some (ErrorString ''tickr: batch handler must be non-nil''))
      else register fu q r eventType
        \<lparr>reg_handler = None, reg_batchHandler = h, reg_cfg = default_handlerConfig fu\<rparr> opts)"

text \<open>Iteration over a Go map is in an unspecified order, the argument \<open>ord\<close>.\<close>

definition EventTypes :: "(string list \<Rightarrow> string list) \<Rightarrow> HandlerRegistry \<Rightarrow> string list" where
  "EventTypes ord r = ord (map fst r)"

text \<open>Exactly one of the two handlers of an entry is set, and event types are non-empty and distinct.\<close>

definition registry_ok :: "HandlerRegistry \<Rightarrow> bool" where
  "registry_ok r \<longleftrightarrow> distinct (map fst r) \<and> '''' \<notin> fst ` set r \<and>
     (\<forall>(et, reg)\<in>set r. (reg_handler reg = None) \<noteq> (reg_batchHandler reg = None))"

section \<open>Typed handlers\<close>

text \<open>
  \<open>json\<close> decodes a payload into the body type, or fails; \<open>zero\<close> is the body type's zero
  value, which an empty payload leaves in place.
\<close>

type_synonym 't codec = "bytes \<Rightarrow> goerr + 't"

definition decode_body :: "'t codec \<Rightarrow> 't \<Rightarrow> InboundMessage \<Rightarrow> goerr + 't" where
  "decode_body json zero m = (if im_Payload m = [] then Inr zero else json (im_Payload m))"

definition wrapJSON ::
  "'t codec \<Rightarrow> 't \<Rightarrow> (goerr option \<Rightarrow> InboundMessage \<Rightarrow> 't \<Rightarrow> invocation) \<Rightarrow> Handler" where
  "wrapJSON json zero h ctx m =
     (case decode_body json zero m of
        Inl er \<Rightarrow> Returned (DeadLetter (Some (WrapError ''tickr: decode payload: '' er)))
      | Inr body \<Rightarrow> h ctx m body)"

fun decode_batch :: "'t codec \<Rightarrow> 't \<Rightarrow> InboundMessage list \<Rightarrow> (InboundMessage \<times> goerr) + (InboundMessage \<times> 't) list" where
  "decode_batch json zero [] = Inr []"
| "decode_batch json zero (m # ms) =
     (case decode_body json zero m of Inl er \<Rightarrow> Inl (m, er)
      | Inr body \<Rightarrow> (case decode_batch json zero ms of Inl x \<Rightarrow> Inl x | Inr bs \<Rightarrow> Inr ((m, body) # bs)))"

definition wrapBatchJSON ::
  "'t codec \<Rightarrow> 't \<Rightarrow> (goerr option \<Rightarrow> (InboundMessage \<times> 't) list \<Rightarrow> invocation) \<Rightarrow> BatchHandler" where
  "wrapBatchJSON json zero h ctx ms =
     (case decode_batch json zero ms of
        Inl (m, er) \<Rightarrow>
          Returned (DeadLetter (Some (WrapError (''tickr: decode payload (msg '' @ im_ID m @ ''): '') er)))
      | Inr batch \<Rightarrow> h ctx batch)"

definition typed_On ::
  "float_unit \<Rightarrow> (string \<Rightarrow> string) \<Rightarrow> 't codec \<Rightarrow> 't \<Rightarrow> HandlerRegistry \<Rightarrow> string
   \<Rightarrow> (goerr option \<Rightarrow> InboundMessage \<Rightarrow> 't \<Rightarrow> invocation) option \<Rightarrow> HandlerOption list
   \<Rightarrow> HandlerRegistry \<times> goerr option" where
  "typed_On fu q json zero r eventType h opts =
     (case h of None \<Rightarrow> (r, Some (ErrorString ''tickr: handler must be non-nil''))
      | Some f \<Rightarrow> registry_On fu q r eventType (Some (wrapJSON json zero f)) opts)"

definition typed_OnBatch ::
  "float_unit \<Rightarrow> (string \<Rightarrow> string) \<Rightarrow> 't codec \<Rightarrow> 't \<Rightarrow> HandlerRegistry \<Rightarrow> string
   \<Rightarrow> (goerr option \<Rightarrow> (InboundMessage \<times> 't) list \<Rightarrow> invocation) option \<Rightarrow> HandlerOption list
   \<Rightarrow> HandlerRegistry \<times> goerr option" where
  "typed_OnBatch fu q json zero r eventType h opts =
     (case h of None \<Rightarrow> (r, Some (ErrorString ''tickr: batch handler must be non-nil''))
      | Some f \<Rightarrow> registry_OnBatch fu q r eventType (Some (wrapBatchJSON json zero f)) opts)"

text \<open>\<open>MustOn\<close> and \<open>MustOnBatch\<close> panic with the error of the registration.\<close>

definition must :: "HandlerRegistry \<times> goerr option \<Rightarrow> panic_value + HandlerRegistry" where
  "must res = (case snd res of None \<Rightarrow> Inr (fst res) | Some er \<Rightarrow> Inl (PanicError er))"

definition Encode :: "('t \<Rightarrow> goerr + bytes) \<Rightarrow> 't \<Rightarrow> bytes \<times> goerr option" where
  "Encode marshal body =
     (case marshal body of Inl er \<Rightarrow> ([], Some (WrapError ''tickr: encode payload: '' er)) | Inr b \<Rightarrow> (b, None))"

section \<open>The contract of the registry\<close>

lemma lookup_map_set [simp]: "lookup (map_set k v r) et = (if et = k then Some v else lookup r et)"
  by (simp add: lookup_def)

lemma registry_ok_New: "registry_ok NewRegistry"
  by (simp add: registry_ok_def NewRegistry_def)

lemma set_map_set_subset: "set (map_set k v m) \<subseteq> insert (k, v) (set m)"
  by (induction k v m rule: map_set.induct) auto

lemma registry_ok_map_set:
  assumes "registry_ok r" "k \<noteq> ''''" "(reg_handler reg = None) \<noteq> (reg_batchHandler reg = None)"
  shows "registry_ok (map_set k reg r)"
  using assms set_map_set_subset [of k reg r] unfolding registry_ok_def by (auto dest!: subsetD)

lemma registry_ok_On: "registry_ok r \<Longrightarrow> registry_ok (fst (registry_On fu q r et h opts))"
  by (auto simp: registry_On_def register_def Let_def intro!: registry_ok_map_set)

lemma registry_ok_OnBatch: "registry_ok r \<Longrightarrow> registry_ok (fst (registry_OnBatch fu q r et h opts))"
  by (auto simp: registry_OnBatch_def register_def Let_def intro!: registry_ok_map_set)

text \<open>The entry a successful registration leaves: the handler, and the options over the defaults.\<close>

definition entry ::
  "float_unit \<Rightarrow> Handler option \<Rightarrow> BatchHandler option \<Rightarrow> HandlerOption list \<Rightarrow> registration" where
  "entry fu h bh opts = \<lparr>reg_handler = h, reg_batchHandler = bh, reg_cfg = fold apply_HandlerOption opts (default_handlerConfig fu)\<rparr>"

text \<open>What registering \<open>reg\<close> under an event type does, as seen by look-ups.\<close>

definition registers ::
  "HandlerRegistry \<Rightarrow> string \<Rightarrow> bool \<Rightarrow> registration \<Rightarrow> HandlerRegistry \<times> goerr option \<Rightarrow> bool" where
  "registers r et given reg res \<longleftrightarrow>
     (snd res = None \<longleftrightarrow> et \<noteq> '''' \<and> given \<and> lookup r et = None) \<and>
     (if snd res = None then \<forall>t. lookup (fst res) t = (if t = et then Some reg else lookup r t) else fst res = r)"

lemma registers_On: "registers r et (h \<noteq> None) (entry fu h None opts) (registry_On fu q r et h opts)"
  by (simp add: registers_def entry_def registry_On_def register_def Let_def)

lemma registers_OnBatch: "registers r et (bh \<noteq> None) (entry fu None bh opts) (registry_OnBatch fu q r et bh opts)"
  by (simp add: registers_def entry_def registry_OnBatch_def register_def Let_def)

text \<open>
  C33. The registry stays well typed and the first registration wins: \<open>On\<close> and \<open>OnBatch\<close> keep
  every entry with exactly one of its two handlers and every event type non-empty and unique;
  they succeed exactly for a new non-empty event type and a non-nil handler, and then change the
  look-up of that event type alone, to the handler with the options applied in order over the
  defaults; a registration that fails changes nothing.
\<close>

theorem registry_typed:
  assumes "registry_ok r"
  shows "registry_ok (fst (registry_On fu q r et h opts)) \<and> registry_ok (fst (registry_OnBatch fu q r et bh opts)) \<and>
    registers r et (h \<noteq> None) (entry fu h None opts) (registry_On fu q r et h opts) \<and>
    registers r et (bh \<noteq> None) (entry fu None bh opts) (registry_OnBatch fu q r et bh opts)"
  using assms by (simp only: registry_ok_On registry_ok_OnBatch registers_On registers_OnBatch simp_thms)

theorem registry_typed_witness:
  "case registry_On exact_unit (\<lambda>s. s) NewRegistry ''order'' (Some (\<lambda>_ _. Returned None)) [WithMaxAttempts 3, WithMaxAttempts 5] of
     (r, err) \<Rightarrow> err = None \<and> map_option (\<lambda>reg. hc_maxAttempts (reg_cfg reg)) (lookup r ''order'') = Some 5 \<and>
       snd (registry_On exact_unit (\<lambda>s. s) r ''order'' (Some (\<lambda>_ _. Returned None)) []) \<noteq> None"
proof -
  let ?h = "Some (\<lambda>_ _. Returned None) :: Handler option"
  let ?res = "registry_On exact_unit (\<lambda>s. s) NewRegistry ''order'' ?h [WithMaxAttempts 3, WithMaxAttempts 5]"
  have 1: "registry_ok (fst ?res)"
    "registers NewRegistry ''order'' (?h \<noteq> None) (entry exact_unit ?h None [WithMaxAttempts 3, WithMaxAttempts 5]) ?res"
    using registry_typed [OF registry_ok_New, of exact_unit "\<lambda>s. s" "''order''" ?h "[WithMaxAttempts 3, WithMaxAttempts 5]"] by blast+
  then have "snd ?res = None" "lookup (fst ?res) ''order'' = Some (entry exact_unit ?h None [WithMaxAttempts 3, WithMaxAttempts 5])"
    by (auto simp: registers_def lookup_def NewRegistry_def)
  moreover have "registers (fst ?res) ''order'' (?h \<noteq> None) (entry exact_unit ?h None []) (registry_On exact_unit (\<lambda>s. s) (fst ?res) ''order'' ?h [])"
    using registry_typed [OF 1(1), of exact_unit "\<lambda>s. s" "''order''" ?h "[]"] by blast
  ultimately show ?thesis by (simp add: split_beta registers_def entry_def)
qed

end
