(* ===== verification/Engine.thy ===== *)
theory Engine
  imports Storage_Iface Registry
begin

text \<open>
  The worker engine (src/engine.go), operation by operation: claiming and partitioning a batch,
  running a handler with its lease extender, deciding and committing the outcome, and the
  flusher that acknowledges successes in batches. The goroutines are put together in
  \<open>Engine_Machine\<close>.

  A call of a storage method threads the world. What an attempt meets outside the engine is an
  \<open>attempt_env\<close>: the clock, the random number for the backoff, the state of the contexts and
  the ticks of the lease extender before and after the outcome is committed.
\<close>

section \<open>Configuration and state\<close>

record 'w engineConfig =
  ec_storage :: "'w Storage"
  ec_registry :: HandlerRegistry
  ec_workerID :: string
  ec_pollInterval :: duration
  ec_pollMaxBackoff :: duration
  ec_batchSize :: int
  ec_poolSize :: int
  ec_lease :: duration
  ec_shutdownGrace :: duration
  ec_hooks :: hooks

text \<open>A buffered channel used as a semaphore: its capacity and the tokens in it.\<close>

record semaphore =
  sem_cap :: int
  sem_used :: int

record 'w engine =
  en_cfg :: "'w engineConfig"
  en_perType :: "(string \<times> semaphore) list"
  en_pool :: semaphore
  en_stopping :: bool
  en_succeedCh :: "int option"

definition batchSizeOrDefault :: "int \<Rightarrow> int" where
  "batchSizeOrDefault n = (if n \<le> 0 then 100 else n)"

definition leaseOrDefault :: "duration \<Rightarrow> duration" where
  "leaseOrDefault d = (if d \<le> 0 then 30 * Second else d)"

definition newEngine :: "'w engineConfig \<Rightarrow> 'w engine" where
  "newEngine cfg =
     (let cfg' = cfg\<lparr>ec_poolSize := if ec_poolSize cfg \<le> 0 then 32 else ec_poolSize cfg\<rparr> in
      \<lparr>en_cfg = cfg', en_perType = [], en_pool = \<lparr>sem_cap = ec_poolSize cfg', sem_used = 0\<rparr>,
       en_stopping = False,
       en_succeedCh = map_option (\<lambda>_. batchSizeOrDefault (ec_batchSize cfg) * 4) (st_BatchSucceed (ec_storage cfg))\<rparr>)"

abbreviation en_storage :: "'w engine \<Rightarrow> 'w Storage" where
  "en_storage e \<equiv> ec_storage (en_cfg e)"

abbreviation en_workerID :: "'w engine \<Rightarrow> string" where
  "en_workerID e \<equiv> ec_workerID (en_cfg e)"

abbreviation en_hooks :: "'w engine \<Rightarrow> hooks" where
  "en_hooks e \<equiv> ec_hooks (en_cfg e)"

record attempt_env =
  ae_float :: float_unit
  ae_quote :: "string \<Rightarrow> string"
  ae_draw :: float64
  ae_now :: time
  ae_duration :: duration
  ae_ctxErr :: "goerr option"
  ae_parentErr :: "goerr option"
  ae_stopping :: bool
  ae_before :: "time list"
  ae_after :: "time list"

section \<open>Invocation\<close>

text \<open>Calling a nil function value panics with the runtime's own error.\<close>

definition nil_dereference :: goerr where
  "nil_dereference = ErrorString ''runtime error: invalid memory address or nil pointer dereference''"

definition recovered :: "string \<Rightarrow> invocation \<Rightarrow> goerr option" where
  "recovered what res =
     (case res of
        Returned err \<Rightarrow> err
      | Panicked (PanicError er) \<Rightarrow> Some (WrapError what er)
      | Panicked (PanicValue v) \<Rightarrow> Some (ErrorString (what @ v)))"

definition safeInvoke :: "Handler option \<Rightarrow> goerr option \<Rightarrow> InboundMessage \<Rightarrow> goerr option" where
  "safeInvoke h ctx m =
     recovered ''tickr: handler panic: ''
       (case h of None \<Rightarrow> Panicked (PanicError nil_dereference) | Some f \<Rightarrow> f ctx m)"

definition safeInvokeBatch :: "BatchHandler option \<Rightarrow> goerr option \<Rightarrow> InboundMessage list \<Rightarrow> goerr option" where
  "safeInvokeBatch h ctx ms =
     recovered ''tickr: batch handler panic: ''
       (case h of None \<Rightarrow> Panicked (PanicError nil_dereference) | Some f \<Rightarrow> f ctx ms)"

section \<open>Outcomes\<close>

definition resolveOutcome :: "goerr option \<Rightarrow> bool \<Rightarrow> goerr option \<Rightarrow> Outcome" where
  "resolveOutcome parentErr stopping err =
     (if err = None then OutcomeSuccess
      else if IsSkip err then OutcomeSuccess
      else if errors_Is err ContextCanceled \<and> parentErr \<noteq> None \<and> stopping then OutcomeCanceled
      else OutcomeRetry)"

definition err_text :: "(string \<Rightarrow> string) \<Rightarrow> goerr option \<Rightarrow> string" where
  "err_text q err = (case err of None \<Rightarrow> '''' | Some er \<Rightarrow> Error_text q er)"

text \<open>The three reasons to give up in the failure branch of \<open>commitOutcome\<close>.\<close>

definition attempt_dead :: "handlerConfig \<Rightarrow> InboundMessage \<Rightarrow> goerr option \<Rightarrow> Outcome \<Rightarrow> bool" where
  "attempt_dead cfg m err outcome =
     (let dead = (outcome = OutcomeDead);
          dead = (if IsDeadLetter err then True else dead);
          dead = (case hc_deadLetterIf cfg of None \<Rightarrow> dead | Some pred \<Rightarrow> if pred err then True else dead);
          maxAttempts = (if im_MaxAttempts m \<le> 0 then hc_maxAttempts cfg else im_MaxAttempts m)
      in if \<not> dead \<and> im_Attempt m \<ge> maxAttempts then True else dead)"

definition retry_delay :: "attempt_env \<Rightarrow> handlerConfig \<Rightarrow> InboundMessage \<Rightarrow> goerr option \<Rightarrow> duration" where
  "retry_delay ae cfg m err =
     (case ExtractRetryAfter err of
        (delay, True) \<Rightarrow> delay
      | (_, False) \<Rightarrow>
          (let policy = (case hc_retry cfg of None \<Rightarrow> NextDelay (ae_float ae) (DefaultRetryPolicy (ae_float ae)) | Some p \<Rightarrow> p)
           in policy (ae_draw ae) (im_Attempt m) err))"

definition fail_params :: "'w engine \<Rightarrow> attempt_env \<Rightarrow> handlerConfig \<Rightarrow> InboundMessage \<Rightarrow> goerr option \<Rightarrow> Outcome \<Rightarrow> FailParams" where
  "fail_params e ae cfg m err outcome =
     (let dead = attempt_dead cfg m err outcome in
      \<lparr>fp_MessageID = im_ID m, fp_Attempt = im_Attempt m, fp_WorkerID = en_workerID e,
       fp_Err = err_text (ae_quote ae) err,
       fp_NextRetryAt = (if dead then 0 else ae_now ae + retry_delay ae cfg m err), fp_Dead = dead\<rparr>)"

text \<open>\<open>commitOutcome\<close>: the new world, what is posted to the flusher, and the observations.\<close>

definition commitOutcome ::
  "'w engine \<Rightarrow> attempt_env \<Rightarrow> InboundMessage \<Rightarrow> handlerConfig \<Rightarrow> goerr option \<Rightarrow> Outcome \<Rightarrow> 'w
   \<Rightarrow> 'w \<times> BatchSucceedParam list \<times> obs list" where
  "commitOutcome e ae m cfg err outcome w =
     (case outcome of
        OutcomeSuccess \<Rightarrow>
          if en_succeedCh e \<noteq> None then
            (w, [\<lparr>bs_MessageID = im_ID m, bs_Attempt = im_Attempt m, bs_WorkerID = en_workerID e\<rparr>], [])
          else
            (case st_Succeed (en_storage e) (im_ID m) (im_Attempt m) (en_workerID e) w of
               (w', None) \<Rightarrow> (w', [], [])
             | (w', Some serr) \<Rightarrow> (w', [], fireAlert (en_hooks e) (message_event ErrorKindStorage m (Some serr))))
      | OutcomeCanceled \<Rightarrow>
          (case st_ReleaseShutdown (en_storage e) (im_ID m) (im_Attempt m) (en_workerID e) ''worker shutdown'' w of
             (w', None) \<Rightarrow> (w', [], [])
           | (w', Some rerr) \<Rightarrow> (w', [], fireAlert (en_hooks e) (message_event ErrorKindStorage m (Some rerr))))
      | _ \<Rightarrow>
          (let dead = attempt_dead cfg m err outcome;
               dead_obs = (if dead then metric (en_hooks e) (MessageDead (im_Type m)) else []);
               kind = (if dead then ErrorKindDeadLetter else ErrorKindHandler) in
           case st_Fail (en_storage e) (fail_params e ae cfg m err outcome) w of
             (w', ferr) \<Rightarrow>
               (w', [],
                dead_obs
                @ (case ferr of None \<Rightarrow> [] | Some er \<Rightarrow> fireAlert (en_hooks e) (message_event ErrorKindStorage m (Some er)))
                @ fireAlert (en_hooks e) (message_event kind m err))))"

section \<open>Messages that are not run\<close>

definition no_handler_error :: "(string \<Rightarrow> string) \<Rightarrow> InboundMessage \<Rightarrow> goerr" where
  "no_handler_error q m = ErrorString (''no handler registered for event type '' @ q (im_Type m))"

definition failNoHandler :: "'w engine \<Rightarrow> (string \<Rightarrow> string) \<Rightarrow> InboundMessage \<Rightarrow> 'w \<Rightarrow> 'w \<times> obs list" where
  "failNoHandler e q m w =
     (let er = no_handler_error q m;
          w' = fst (st_Fail (en_storage e)
            \<lparr>fp_MessageID = im_ID m, fp_Attempt = im_Attempt m, fp_WorkerID = en_workerID e,
             fp_Err = Error_text q er, fp_NextRetryAt = 0, fp_Dead = True\<rparr> w)
      in (w', metric (en_hooks e) (MessageDead (im_Type m))
              @ fireAlert (en_hooks e) (message_event ErrorKindNoHandler m (Some er))))"

definition releaseForShutdown :: "'w engine \<Rightarrow> InboundMessage \<Rightarrow> string \<Rightarrow> 'w \<Rightarrow> 'w" where
  "releaseForShutdown e m reason w =
     fst (st_ReleaseShutdown (en_storage e) (im_ID m) (im_Attempt m) (en_workerID e) reason w)"

definition release_all :: "'w engine \<Rightarrow> InboundMessage list \<Rightarrow> 'w \<Rightarrow> 'w" where
  "release_all e ms w = fold (\<lambda>m. releaseForShutdown e m ''shutdown before dispatch'') ms w"

section \<open>Lease extender\<close>

definition extendInterval :: "'w engine \<Rightarrow> duration" where
  "extendInterval e = max (go_div (leaseOrDefault (ec_lease (en_cfg e))) 3) (100 * Millisecond)"

text \<open>
  One list element per tick that the loop handles before the attempt ends, the value of
  \<open>time.Now\<close> at it. The flag tells that the lease was lost and the attempt cancelled.
\<close>

definition lease_lost :: goerr where
  "lease_lost = ErrorString ''lease lost''"

fun extendLoop :: "'w engine \<Rightarrow> InboundMessage \<Rightarrow> time list \<Rightarrow> 'w \<Rightarrow> 'w \<times> bool \<times> obs list" where
  "extendLoop e m [] w = (w, False, [])"
| "extendLoop e m (t # ts) w =
     (case st_Extend (en_storage e) (im_ID m) (en_workerID e) (t + leaseOrDefault (ec_lease (en_cfg e))) w of
        (w1, ok, err) \<Rightarrow>
          (case err of
             Some er \<Rightarrow>
               (case extendLoop e m ts w1 of
                  (w2, lost, os) \<Rightarrow> (w2, lost, fireAlert (en_hooks e) (message_event ErrorKindLease m (Some er)) @ os))
           | None \<Rightarrow>
               if ok then extendLoop e m ts w1
               else (w1, True, fireAlert (en_hooks e) (message_event ErrorKindLease m (Some lease_lost)))))"

fun extend_round :: "'w engine \<Rightarrow> time \<Rightarrow> InboundMessage list \<Rightarrow> 'w \<Rightarrow> 'w \<times> bool \<times> obs list" where
  "extend_round e until [] w = (w, False, [])"
| "extend_round e until (m # ms) w =
     (case st_Extend (en_storage e) (im_ID m) (en_workerID e) until w of
        (w1, ok, err) \<Rightarrow>
          (case err of
             Some er \<Rightarrow>
               (case extend_round e until ms w1 of
                  (w2, lost, os) \<Rightarrow> (w2, lost, fireAlert (en_hooks e) (message_event ErrorKindLease m (Some er)) @ os))
           | None \<Rightarrow>
               if ok then extend_round e until ms w1
               else (w1, True, fireAlert (en_hooks e) (message_event ErrorKindLease m (Some lease_lost)))))"

fun extendBatchLoop :: "'w engine \<Rightarrow> InboundMessage list \<Rightarrow> time list \<Rightarrow> 'w \<Rightarrow> 'w \<times> bool \<times> obs list" where
  "extendBatchLoop e ms [] w = (w, False, [])"
| "extendBatchLoop e ms (t # ts) w =
     (case extend_round e (t + leaseOrDefault (ec_lease (en_cfg e))) ms w of
        (w1, True, os) \<Rightarrow> (w1, True, os)
      | (w1, False, os) \<Rightarrow> (case extendBatchLoop e ms ts w1 of (w2, lost, os') \<Rightarrow> (w2, lost, os @ os')))"

section \<open>Attempts\<close>

text \<open>
  The extender runs beside the handler: its ticks fall before the invocation returns or, until
  the deferred \<open>close(extenderDone)\<close>, after the outcome was committed. A lost lease cancels the
  context of the attempt, which is all the handler sees of it.
\<close>

definition attempt_ctx :: "attempt_env \<Rightarrow> bool \<Rightarrow> goerr option" where
  "attempt_ctx ae lost = (if lost then Some ContextCanceled else ae_ctxErr ae)"

definition runHandler ::
  "'w engine \<Rightarrow> attempt_env \<Rightarrow> InboundMessage \<Rightarrow> registration \<Rightarrow> 'w \<Rightarrow> 'w \<times> BatchSucceedParam list \<times> obs list" where
  "runHandler e ae m reg w =
     (case extendLoop e m (ae_before ae) w of (w1, lost, os1) \<Rightarrow>
      let err = safeInvoke (reg_handler reg) (attempt_ctx ae lost) m;
          outcome = resolveOutcome (ae_parentErr ae) (ae_stopping ae) err
      in case commitOutcome e ae m (reg_cfg reg) err outcome w1 of (w2, acks, os2) \<Rightarrow>
         case extendLoop e m (if lost then [] else ae_after ae) w2 of (w3, _, os3) \<Rightarrow>
           (w3, acks,
            metric (en_hooks e) (HandlerStarted (im_Type m) (im_Attempt m)) @ os1
            @ trace_span (en_hooks e) (HandlerSpan (im_ID m) err)
            @ metric (en_hooks e) (HandlerCompleted (im_Type m) (im_Attempt m) (ae_duration ae) outcome)
            @ os2 @ os3))"

text \<open>The commits of a batch: each message on its own, with its own clock and random number.\<close>

fun commit_all ::
  "'w engine \<Rightarrow> (nat \<Rightarrow> attempt_env) \<Rightarrow> nat \<Rightarrow> InboundMessage list \<Rightarrow> handlerConfig \<Rightarrow> goerr option \<Rightarrow> Outcome \<Rightarrow> 'w
   \<Rightarrow> 'w \<times> BatchSucceedParam list \<times> obs list" where
  "commit_all e aes i [] cfg err outcome w = (w, [], [])"
| "commit_all e aes i (m # ms) cfg err outcome w =
     (case commitOutcome e (aes i) m cfg err outcome w of (w1, acks, os) \<Rightarrow>
      case commit_all e aes (Suc i) ms cfg err outcome w1 of (w2, acks', os') \<Rightarrow> (w2, acks @ acks', os @ os'))"

definition runBatchHandler ::
  "'w engine \<Rightarrow> (nat \<Rightarrow> attempt_env) \<Rightarrow> InboundMessage list \<Rightarrow> registration \<Rightarrow> 'w
   \<Rightarrow> 'w \<times> BatchSucceedParam list \<times> obs list" where
  "runBatchHandler e aes ms reg w =
     (let ae = aes 0 in
      case extendBatchLoop e ms (ae_before ae) w of (w1, lost, os1) \<Rightarrow>
      let err = safeInvokeBatch (reg_batchHandler reg) (attempt_ctx ae lost) ms;
          outcome = resolveOutcome (ae_parentErr ae) (ae_stopping ae) err
      in case commit_all e aes 0 ms (reg_cfg reg) err outcome w1 of (w2, acks, os2) \<Rightarrow>
         case extendBatchLoop e ms (if lost then [] else ae_after ae) w2 of (w3, _, os3) \<Rightarrow>
           (w3, acks,
            concat (map (\<lambda>m. metric (en_hooks e) (HandlerStarted (im_Type m) (im_Attempt m))) ms) @ os1
            @ trace_span (en_hooks e) (HandlerSpan (im_ID (hd ms)) err)
            @ concat (map (\<lambda>m. metric (en_hooks e)
                (HandlerCompleted (im_Type m) (im_Attempt m) (ae_duration ae) outcome)) ms)
            @ os2 @ os3))"

section \<open>Polling\<close>

text \<open>
  What \<open>pollOnce\<close> does with the messages of a claim: the units are dispatched in the order of
  this list, a message without a handler is failed at its turn.
\<close>

datatype dispatch =
    NoHandler InboundMessage
  | RunSingle InboundMessage registration
  | RunBatch "InboundMessage list" registration

fun dispatch_msgs :: "dispatch \<Rightarrow> InboundMessage list" where
  "dispatch_msgs (NoHandler m) = [m]"
| "dispatch_msgs (RunSingle m reg) = [m]"
| "dispatch_msgs (RunBatch ms reg) = ms"

fun partition_msgs ::
  "HandlerRegistry \<Rightarrow> InboundMessage list \<Rightarrow> (string \<times> InboundMessage list) list
   \<Rightarrow> dispatch list \<times> (string \<times> InboundMessage list) list" where
  "partition_msgs r [] groups = ([], groups)"
| "partition_msgs r (m # ms) groups =
     (case lookup r (im_Type m) of
        None \<Rightarrow> (case partition_msgs r ms groups of (ds, gs) \<Rightarrow> (NoHandler m # ds, gs))
      | Some reg \<Rightarrow>
          if reg_batchHandler reg \<noteq> None then
            partition_msgs r ms (map_set (im_Type m) (map_get (im_Type m) [] groups @ [m]) groups)
          else (case partition_msgs r ms groups of (ds, gs) \<Rightarrow> (RunSingle m reg # ds, gs)))"

definition chunk_size :: "registration \<Rightarrow> InboundMessage list \<Rightarrow> nat" where
  "chunk_size reg ms =
     (let n = hc_maxBatchSize (reg_cfg reg) in if n \<le> 0 \<or> n > int (length ms) then length ms else nat n)"

function chunks :: "nat \<Rightarrow> 'a list \<Rightarrow> 'a list list" where
  "chunks n xs = (if xs = [] \<or> n = 0 then [] else take n xs # chunks n (drop n xs))"
  by pat_completeness auto
termination by (relation "measure (\<lambda>(n, xs). length xs)") auto

declare chunks.simps [simp del]

definition dispatchBatches :: "InboundMessage list \<Rightarrow> registration \<Rightarrow> dispatch list" where
  "dispatchBatches ms reg = map (\<lambda>c. RunBatch c reg) (chunks (chunk_size reg ms) ms)"

definition dispatch_group :: "HandlerRegistry \<Rightarrow> string \<times> InboundMessage list \<Rightarrow> dispatch list" where
  "dispatch_group r x = (case lookup r (fst x) of None \<Rightarrow> [] | Some reg \<Rightarrow> dispatchBatches (snd x) reg)"

text \<open>The order in which Go iterates over the map of groups is the argument \<open>ord\<close>.\<close>

definition plan ::
  "((string \<times> InboundMessage list) list \<Rightarrow> (string \<times> InboundMessage list) list) \<Rightarrow> HandlerRegistry
   \<Rightarrow> InboundMessage list \<Rightarrow> dispatch list" where
  "plan ord r ms =
     (case partition_msgs r ms [] of (ds, groups) \<Rightarrow>
        ds @ concat (map (dispatch_group r) (ord groups)))"

definition claim_params :: "'w engine \<Rightarrow> string list \<Rightarrow> ClaimParams" where
  "claim_params e eventTypes =
     \<lparr>cp_WorkerID = en_workerID e, cp_Batch = batchSizeOrDefault (ec_batchSize (en_cfg e)),
      cp_Lease = leaseOrDefault (ec_lease (en_cfg e)), cp_EventTypes = eventTypes\<rparr>"

definition pollOnce ::
  "'w engine \<Rightarrow> (string list \<Rightarrow> string list)
   \<Rightarrow> ((string \<times> InboundMessage list) list \<Rightarrow> (string \<times> InboundMessage list) list) \<Rightarrow> duration \<Rightarrow> 'w
   \<Rightarrow> 'w \<times> InboundMessage list \<times> dispatch list \<times> obs list" where
  "pollOnce e ordT ordG took w =
     (let eventTypes = EventTypes ordT (ec_registry (en_cfg e)) in
      if en_stopping e \<or> eventTypes = [] then (w, [], [], [])
      else case st_Claim (en_storage e) (claim_params e eventTypes) w of
        (w', msgs, Some er) \<Rightarrow>
          (w', [], [], trace_span (en_hooks e) (ClaimSpan (Some er))
             @ fireAlert (en_hooks e) (core_event ErrorKindClaim er))
      | (w', msgs, None) \<Rightarrow>
          (w', msgs, plan ordG (ec_registry (en_cfg e)) msgs,
           trace_span (en_hooks e) (ClaimSpan None)
             @ metric (en_hooks e) (ClaimBatch (int (length msgs)) (batchSizeOrDefault (ec_batchSize (en_cfg e))) took)))"

section \<open>The poll loop\<close>

definition poll_interval :: "'w engine \<Rightarrow> duration" where
  "poll_interval e = (if ec_pollInterval (en_cfg e) \<le> 0 then 100 * Millisecond else ec_pollInterval (en_cfg e))"

definition max_backoff :: "'w engine \<Rightarrow> duration" where
  "max_backoff e = (if ec_pollMaxBackoff (en_cfg e) \<le> 0 then 2 * Second else ec_pollMaxBackoff (en_cfg e))"

text \<open>The delay after a poll, from the delay before it and the number of claimed messages.\<close>

definition poll_delay :: "'w engine \<Rightarrow> duration \<Rightarrow> nat \<Rightarrow> duration" where
  "poll_delay e cur claimed =
     (if claimed > 0 then poll_interval e
      else let d = wrap64 (cur * 2) in if d > max_backoff e then max_backoff e else d)"

text \<open>How the wait after a poll ends: the timer fires, or a notification resets the backoff.\<close>

datatype wakeup = TimerFired | Notified

fun run_delays :: "'w engine \<Rightarrow> duration \<Rightarrow> (nat \<times> wakeup) list \<Rightarrow> duration list" where
  "run_delays e cur [] = []"
| "run_delays e cur ((claimed, wake) # es) =
     (let d = poll_delay e cur claimed
      in d # run_delays e (case wake of TimerFired \<Rightarrow> d | Notified \<Rightarrow> poll_interval e) es)"

definition shutdown_grace :: "'w engine \<Rightarrow> duration" where
  "shutdown_grace e = (if ec_shutdownGrace (en_cfg e) \<le> 0 then 30 * Second else ec_shutdownGrace (en_cfg e))"

text \<open>
  The result of \<open>drain\<close>, given how long the handlers and the last flush take after the engine
  was told to stop, if they end at all.
\<close>

definition drain :: "'w engine \<Rightarrow> duration option \<Rightarrow> goerr option" where
  "drain e finished =
     (case finished of
        Some d \<Rightarrow> if d < shutdown_grace e then None
                  else Some (ErrorString ''tickr: shutdown grace exceeded with in-flight handlers'')
      | None \<Rightarrow> Some (ErrorString ''tickr: shutdown grace exceeded with in-flight handlers''))"

section \<open>Flusher\<close>

datatype flush_event = Recv BatchSucceedParam | Tick | Closed

definition flush :: "'w engine \<Rightarrow> BatchSucceedParam list \<Rightarrow> 'w \<Rightarrow> 'w \<times> obs list" where
  "flush e buf w =
     (if buf = [] then (w, [])
      else case st_BatchSucceed (en_storage e) of
        None \<Rightarrow> (w, [])
      | Some batch \<Rightarrow>
          (case batch buf w of
             (w', None) \<Rightarrow> (w', [])
           | (w', Some er) \<Rightarrow> (w', fireAlert (en_hooks e) (core_event ErrorKindStorage er))))"

text \<open>
  One iteration of \<open>ackFlusher\<close>: the buffer after it, the batch it passed to the storage (empty
  if none), the world and the observations.
\<close>

fun flusher_step ::
  "'w engine \<Rightarrow> flush_event \<Rightarrow> BatchSucceedParam list \<Rightarrow> 'w
   \<Rightarrow> BatchSucceedParam list \<times> BatchSucceedParam list \<times> 'w \<times> obs list" where
  "flusher_step e (Recv p) buf w =
     (let buf' = buf @ [p] in
      if int (length buf') \<ge> batchSizeOrDefault (ec_batchSize (en_cfg e))
      then (let (w', os) = flush e buf' w in ([], buf', w', os)) else (buf', [], w, []))"
| "flusher_step e Tick buf w = (let (w', os) = flush e buf w in ([], buf, w', os))"
| "flusher_step e Closed buf w = (let (w', os) = flush e buf w in ([], buf, w', os))"

text \<open>
  \<open>ackFlusher\<close> on what its channels deliver: it stops at the closing of \<open>succeedCh\<close>. The
  result has the batches passed to the storage, in order, and what is left in the buffer.
\<close>

fun ackFlusher ::
  "'w engine \<Rightarrow> flush_event list \<Rightarrow> BatchSucceedParam list \<Rightarrow> 'w
   \<Rightarrow> BatchSucceedParam list list \<times> BatchSucceedParam list \<times> 'w \<times> obs list" where
  "ackFlusher e [] buf w = ([], buf, w, [])"
| "ackFlusher e (ev # evs) buf w =
     (case flusher_step e ev buf w of (buf1, batch, w1, os) \<Rightarrow>
      if ev = Closed then ([batch], buf1, w1, os)
      else case ackFlusher e evs buf1 w1 of (batches, buf2, w2, os') \<Rightarrow> (batch # batches, buf2, w2, os @ os'))"

end
