(* ===== verification/Worker.thy ===== *)
theory Worker
  imports Engine
begin

text \<open>
  The worker (src/worker.go): its configuration, \<open>NewWorker\<close>, \<open>Start\<close> and \<open>Stop\<close>, and the
  background loops that run under a leader lock: the reclaimer, the janitor and the sampler of
  queue depths. Every operation is over any \<open>Storage\<close>. A purge loop ends only when the
  storage runs out of old rows, so it is a partial function; \<open>None\<close> is a loop that never ends.
\<close>

section \<open>Configuration\<close>

record RetentionPolicy =
  rp_Success :: duration
  rp_Dead :: duration
  rp_History :: duration
  rp_PurgeBatch :: int
  rp_PurgeEvery :: duration

record 'w WorkerConfig =
  wc_Storage :: "'w Storage option"
  wc_Registry :: "HandlerRegistry option"
  wc_WorkerID :: string
  wc_PollInterval :: duration
  wc_PollMaxBackoff :: duration
  wc_BatchSize :: int
  wc_PoolSize :: int
  wc_Lease :: duration
  wc_ShutdownGrace :: duration
  wc_Retention :: RetentionPolicy
  wc_StatsInterval :: duration
  wc_Metrics :: "hook option"
  wc_Tracer :: "hook option"
  wc_Alerter :: "hook option"
  wc_ReclaimInterval :: duration
  wc_DisableReclaimer :: bool
  wc_DisableJanitor :: bool
  wc_DisableNotifier :: bool

text \<open>
  \<open>wk_cancel\<close> is the cancel function of the context that \<open>Start\<close> derives: absent before
  \<open>Start\<close>, and then whether it has been called. \<open>wk_stopOnce\<close> tells that the \<open>sync.Once\<close>
  of \<open>Stop\<close> has fired.
\<close>

record 'w Worker =
  wk_cfg :: "'w WorkerConfig"
  wk_eng :: "'w engine"
  wk_stopOnce :: bool
  wk_cancel :: "bool option"
  wk_started :: bool

abbreviation wk_storage :: "'w Worker \<Rightarrow> 'w Storage" where
  "wk_storage wk \<equiv> en_storage (wk_eng wk)"

abbreviation wk_hooks :: "'w Worker \<Rightarrow> hooks" where
  "wk_hooks wk \<equiv> en_hooks (wk_eng wk)"

text \<open>The host name, or the error of asking for it, and the process number.\<close>

definition defaultWorkerID :: "goerr + string \<Rightarrow> int \<Rightarrow> string" where
  "defaultWorkerID hostname pid = (case hostname of Inl _ \<Rightarrow> ''unknown'' | Inr host \<Rightarrow> host) @ ''-'' @ show_int pid"

definition NewWorker ::
  "(nat \<Rightarrow> headers \<Rightarrow> headers) \<Rightarrow> goerr + string \<Rightarrow> int \<Rightarrow> 'w WorkerConfig \<Rightarrow> goerr + 'w Worker" where
  "NewWorker inject hostname pid cfg =
     (case wc_Storage cfg of
        None \<Rightarrow> Inl (ErrorString ''tickr: WorkerConfig.Storage is required'')
      | Some st \<Rightarrow>
        (case wc_Registry cfg of
           None \<Rightarrow> Inl (ErrorString ''tickr: WorkerConfig.Registry is required'')
         | Some reg \<Rightarrow>
           (let ident = (if wc_WorkerID cfg = '''' then defaultWorkerID hostname pid else wc_WorkerID cfg);
                cfg' = cfg\<lparr>wc_WorkerID := ident, wc_Metrics := Some (defaulted (wc_Metrics cfg)),
                           wc_Tracer := Some (defaulted (wc_Tracer cfg)), wc_Alerter := Some (defaulted (wc_Alerter cfg))\<rparr>;
                eng = newEngine
                  \<lparr>ec_storage = st, ec_registry = reg, ec_workerID = ident,
                   ec_pollInterval = wc_PollInterval cfg, ec_pollMaxBackoff = wc_PollMaxBackoff cfg,
                   ec_batchSize = wc_BatchSize cfg, ec_poolSize = wc_PoolSize cfg, ec_lease = wc_Lease cfg,
                   ec_shutdownGrace = wc_ShutdownGrace cfg,
                   ec_hooks = \<lparr>hk_metrics = defaulted (wc_Metrics cfg), hk_tracer = defaulted (wc_Tracer cfg),
                               hk_alerter = defaulted (wc_Alerter cfg), hk_inject = inject\<rparr>\<rparr>
            in Inr \<lparr>wk_cfg = cfg', wk_eng = eng, wk_stopOnce = False, wk_cancel = None, wk_started = False\<rparr>)))"

section \<open>Start and stop\<close>

datatype loop = ReclaimerLoop | JanitorLoop | StatsLoop

definition background_loops :: "'w WorkerConfig \<Rightarrow> loop list" where
  "background_loops cfg =
     (if wc_DisableReclaimer cfg then [] else [ReclaimerLoop]) @
     (if wc_DisableJanitor cfg then [] else [JanitorLoop]) @
     (if wc_StatsInterval cfg > 0 then [StatsLoop] else [])"

text \<open>
  The first part of \<open>Start\<close>, up to the running engine: it fails if the worker was started, and
  otherwise returns the background loops it launches and whether the engine is subscribed to
  notifications. \<open>listen\<close> is the error of \<open>Listen\<close>.
\<close>

definition begin_Start :: "goerr option \<Rightarrow> 'w Worker \<Rightarrow> goerr + ('w Worker \<times> loop list \<times> bool)" where
  "begin_Start listen wk =
     (if wk_started wk then Inl (ErrorString ''tickr: worker already started'')
      else Inr (wk\<lparr>wk_started := True, wk_cancel := Some False\<rparr>, background_loops (wk_cfg wk),
                st_Notify (wk_storage wk) \<noteq> None \<and> \<not> wc_DisableNotifier (wk_cfg wk) \<and> listen = None))"

text \<open>
  All of \<open>Start\<close>: the result is that of the engine's \<open>drain\<close>, which takes \<open>finished\<close>; the
  deferred cancel runs at the end.
\<close>

definition worker_Start :: "goerr option \<Rightarrow> duration option \<Rightarrow> 'w Worker \<Rightarrow> 'w Worker \<times> goerr option" where
  "worker_Start listen finished wk =
     (case begin_Start listen wk of
        Inl er \<Rightarrow> (wk, Some er)
      | Inr (wk', loops, notify) \<Rightarrow>
          (wk'\<lparr>wk_cancel := Some True, wk_eng := (wk_eng wk')\<lparr>en_stopping := True\<rparr>\<rparr>, drain (wk_eng wk') finished))"

definition worker_Stop :: "'w Worker \<Rightarrow> 'w Worker" where
  "worker_Stop wk =
     (if wk_stopOnce wk then wk
      else wk\<lparr>wk_stopOnce := True, wk_cancel := map_option (\<lambda>_. True) (wk_cancel wk)\<rparr>)"

section \<open>Leadership\<close>

text \<open>
  What the three loops share: try the lock; on an error report it, if another process leads do
  nothing, and otherwise run the body and release the lock on every path out of it.
\<close>

definition as_leader ::
  "'w Worker \<Rightarrow> string \<Rightarrow> (goerr \<Rightarrow> obs list) \<Rightarrow> ('w \<Rightarrow> ('w \<times> obs list) option) \<Rightarrow> 'w \<Rightarrow> ('w \<times> obs list) option" where
  "as_leader wk key report body w =
     (case st_TryLeaderLock (wk_storage wk) key w of (w1, acquired, err) \<Rightarrow>
        (case err of
           Some er \<Rightarrow> Some (w1, report er)
         | None \<Rightarrow> if \<not> acquired then Some (w1, [])
                   else map_option (\<lambda>(w2, os). (st_unlock (wk_storage wk) key w2, os)) (body w1)))"

section \<open>Reclaimer\<close>

definition reclaim_interval :: "'w Worker \<Rightarrow> duration" where
  "reclaim_interval wk = (if wc_ReclaimInterval (wk_cfg wk) \<le> 0 then 5 * Second else wc_ReclaimInterval (wk_cfg wk))"

definition reclaim_body :: "'w Worker \<Rightarrow> 'w \<Rightarrow> 'w \<times> obs list" where
  "reclaim_body wk w =
     (case st_ReclaimExpired (wk_storage wk) 500 w of (w', n, err) \<Rightarrow>
        (case err of
           Some er \<Rightarrow> (w', fireAlert (wk_hooks wk) (core_event ErrorKindReclaimer er))
         | None \<Rightarrow> (w', if n > 0 then metric (wk_hooks wk) (LeaseReclaimed '''' n) else [])))"

definition tryReclaim :: "'w Worker \<Rightarrow> 'w \<Rightarrow> ('w \<times> obs list) option" where
  "tryReclaim wk = as_leader wk ''tickr.reclaimer''
     (\<lambda>er. fireAlert (wk_hooks wk) (core_event ErrorKindReclaimer er)) (\<lambda>w. Some (reclaim_body wk w))"

section \<open>Janitor\<close>

definition purge_interval :: "'w Worker \<Rightarrow> duration" where
  "purge_interval wk = (if rp_PurgeEvery (wc_Retention (wk_cfg wk)) \<le> 0 then Minute else rp_PurgeEvery (wc_Retention (wk_cfg wk)))"

text \<open>
  One purge loop: call the purge until it fails or deletes less than a batch. Between two calls
  it waits; \<open>quit k\<close> tells that the wait after the \<open>k\<close>-th call ends because the context is done.
  The result is the world, the error that ended the loop, and whether the context ended it.
\<close>

partial_function (option) purge_loop ::
  "('w \<Rightarrow> 'w \<times> int \<times> goerr option) \<Rightarrow> int \<Rightarrow> (nat \<Rightarrow> bool) \<Rightarrow> nat \<Rightarrow> 'w \<Rightarrow> ('w \<times> goerr option \<times> bool) option" where
  "purge_loop purge batch quit k w =
     (case purge w of (w', n, err) \<Rightarrow>
        if err \<noteq> None then Some (w', err, False)
        else if n < batch then Some (w', None, False)
        else if quit k then Some (w', None, True)
        else purge_loop purge batch quit (Suc k) w')"

definition success_age :: "RetentionPolicy \<Rightarrow> duration" where
  "success_age rp = (if rp_Success rp \<le> 0 then 24 * Hour else rp_Success rp)"

definition purge_batch :: "RetentionPolicy \<Rightarrow> int" where
  "purge_batch rp = (if rp_PurgeBatch rp \<le> 0 then 5000 else rp_PurgeBatch rp)"

text \<open>The age of DEAD messages, or none when they are to be kept for ever.\<close>

definition dead_age :: "RetentionPolicy \<Rightarrow> duration option" where
  "dead_age rp = (if rp_Dead rp < 0 then None else Some (if rp_Dead rp = 0 then 30 * 24 * Hour else rp_Dead rp))"

definition history_age :: "RetentionPolicy \<Rightarrow> duration option" where
  "history_age rp =
     (if rp_History rp < 0 then None
      else if rp_History rp = 0 then
        Some (max (max (success_age rp) (case dead_age rp of None \<Rightarrow> 0 | Some d \<Rightarrow> d)) (30 * 24 * Hour))
      else Some (rp_History rp))"

definition janitor_alert :: "'w Worker \<Rightarrow> goerr option \<Rightarrow> obs list" where
  "janitor_alert wk err =
     (case err of None \<Rightarrow> [] | Some er \<Rightarrow> fireAlert (wk_hooks wk) (core_event ErrorKindJanitor er))"

definition purgeHistory :: "'w Worker \<Rightarrow> time \<Rightarrow> (nat \<Rightarrow> bool) \<Rightarrow> 'w \<Rightarrow> ('w \<times> obs list) option" where
  "purgeHistory wk now quit w =
     (case history_age (wc_Retention (wk_cfg wk)) of
        None \<Rightarrow> Some (w, [])
      | Some age \<Rightarrow>
        (case st_PurgeHistory (wk_storage wk) of
           None \<Rightarrow> Some (w, [])
         | Some purge \<Rightarrow>
           map_option (\<lambda>(w', err, ended). (w', janitor_alert wk err))
             (purge_loop (purge (now - age) (purge_batch (wc_Retention (wk_cfg wk))))
                (purge_batch (wc_Retention (wk_cfg wk))) quit 0 w)))"

text \<open>
  One pass of the two loops over terminal messages; \<open>nows\<close> are the clock readings of the
  phases, \<open>quit\<close> the interruptions of each. The second component tells that the context ended
  the pass.
\<close>

definition purge_phase ::
  "'w Worker \<Rightarrow> time \<Rightarrow> (nat \<Rightarrow> bool) \<Rightarrow> 'w \<Rightarrow> ('w \<times> bool \<times> obs list) option" where
  "purge_phase wk cutoff quit w =
     map_option (\<lambda>(w', err, ended). (w', ended, janitor_alert wk err))
       (purge_loop (st_PurgeTerminal (wk_storage wk) cutoff (purge_batch (wc_Retention (wk_cfg wk))))
          (purge_batch (wc_Retention (wk_cfg wk))) quit 0 w)"

definition purge_dead ::
  "'w Worker \<Rightarrow> time \<Rightarrow> (nat \<Rightarrow> bool) \<Rightarrow> 'w \<Rightarrow> ('w \<times> bool \<times> obs list) option" where
  "purge_dead wk now quit w =
     (case dead_age (wc_Retention (wk_cfg wk)) of
        None \<Rightarrow> Some (w, False, [])
      | Some age \<Rightarrow> purge_phase wk (now - age) quit w)"

definition purge_body :: "'w Worker \<Rightarrow> (nat \<Rightarrow> time) \<Rightarrow> (nat \<Rightarrow> nat \<Rightarrow> bool) \<Rightarrow> 'w \<Rightarrow> ('w \<times> obs list) option" where
  "purge_body wk nows quit w =
     Option.bind (purge_phase wk (nows 0 - success_age (wc_Retention (wk_cfg wk))) (quit 0) w) (\<lambda>(w1, ended1, os1).
       if ended1 then Some (w1, os1)
       else Option.bind (purge_dead wk (nows 1) (quit 1) w1) (\<lambda>(w2, ended2, os2).
         if ended2 then Some (w2, os1 @ os2)
         else map_option (\<lambda>(w3, os3). (w3, os1 @ os2 @ os3)) (purgeHistory wk (nows 2) (quit 2) w2)))"

definition tryPurge :: "'w Worker \<Rightarrow> (nat \<Rightarrow> time) \<Rightarrow> (nat \<Rightarrow> nat \<Rightarrow> bool) \<Rightarrow> 'w \<Rightarrow> ('w \<times> obs list) option" where
  "tryPurge wk nows quit = as_leader wk ''tickr.janitor''
     (\<lambda>er. fireAlert (wk_hooks wk) (core_event ErrorKindJanitor er)) (purge_body wk nows quit)"

section \<open>Sampler\<close>

text \<open>\<open>ord\<close> is the order in which Go iterates over the two maps.\<close>

definition stats_body :: "'w Worker \<Rightarrow> ((string \<times> Status \<times> int) list \<Rightarrow> (string \<times> Status \<times> int) list) \<Rightarrow> 'w \<Rightarrow> 'w \<times> obs list" where
  "stats_body wk ord w =
     (case st_Stats (wk_storage wk) w of (w', stats, err) \<Rightarrow>
        (case err of
           Some er \<Rightarrow> (w', [])
         | None \<Rightarrow>
           (w', concat (map (\<lambda>(et, st, depth). metric (wk_hooks wk) (QueueDepth et st depth))
              (ord (concat (map (\<lambda>(et, byStatus). map (\<lambda>(st, depth). (et, st, depth)) byStatus) (ByEventType stats))))))))"

definition sampleStats ::
  "'w Worker \<Rightarrow> ((string \<times> Status \<times> int) list \<Rightarrow> (string \<times> Status \<times> int) list) \<Rightarrow> 'w \<Rightarrow> ('w \<times> obs list) option" where
  "sampleStats wk ord = as_leader wk ''tickr.stats'' (\<lambda>_. []) (\<lambda>w. Some (stats_body wk ord w))"

section \<open>The tickers\<close>

text \<open>A background loop runs its body once per tick until the context is done; \<open>ticks\<close> holds one body per tick.\<close>

fun run_ticks :: "('w \<Rightarrow> ('w \<times> obs list) option) list \<Rightarrow> 'w \<Rightarrow> ('w \<times> obs list) option" where
  "run_ticks [] w = Some (w, [])"
| "run_ticks (tick # ticks) w =
     Option.bind (tick w) (\<lambda>(w1, os). map_option (\<lambda>(w2, os'). (w2, os @ os')) (run_ticks ticks w1))"

definition runReclaimerLoop :: "'w Worker \<Rightarrow> nat \<Rightarrow> 'w \<Rightarrow> ('w \<times> obs list) option" where
  "runReclaimerLoop wk n = run_ticks (replicate n (tryReclaim wk))"

definition runJanitorLoop ::
  "'w Worker \<Rightarrow> ((nat \<Rightarrow> time) \<times> (nat \<Rightarrow> nat \<Rightarrow> bool)) list \<Rightarrow> 'w \<Rightarrow> ('w \<times> obs list) option" where
  "runJanitorLoop wk ticks = run_ticks (map (\<lambda>(nows, quit). tryPurge wk nows quit) ticks)"

definition runStatsLoop ::
  "'w Worker \<Rightarrow> ((string \<times> Status \<times> int) list \<Rightarrow> (string \<times> Status \<times> int) list) list \<Rightarrow> 'w \<Rightarrow> ('w \<times> obs list) option" where
  "runStatsLoop wk ords = run_ticks (map (sampleStats wk) ords)"

end
