(* ===== verification/Client.thy ===== *)
theory Client
  imports Storage_Iface Registry
begin

text \<open>
  The producer side (src/client.go): \<open>NewClient\<close>, \<open>Enqueue\<close> and \<open>EnqueueBatch\<close> over
  any \<open>Storage\<close>. A call returns the new world, its results and what the hooks observed.
  \<open>now\<close> is what \<open>time.Now\<close> returns; a failed notification is only logged.
\<close>

section \<open>The client\<close>

record 'w ClientConfig =
  cc_Storage :: "'w Storage option"
  cc_DefaultMaxAttempts :: int
  cc_Metrics :: "hook option"
  cc_Tracer :: "hook option"

record 'w Client =
  cl_Storage :: "'w Storage"
  cl_DefaultMaxAttempts :: int
  cl_hooks :: hooks

definition NewClient :: "(nat \<Rightarrow> headers \<Rightarrow> headers) \<Rightarrow> 'w ClientConfig \<Rightarrow> goerr + 'w Client" where
  "NewClient inject cfg =
     (case cc_Storage cfg of
        None \<Rightarrow> Inl (ErrorString ''tickr: ClientConfig.Storage is required'')
      | Some st \<Rightarrow>
        Inr \<lparr>cl_Storage = st,
             cl_DefaultMaxAttempts = (if cc_DefaultMaxAttempts cfg \<le> 0 then 10 else cc_DefaultMaxAttempts cfg),
             cl_hooks = \<lparr>hk_metrics = defaulted (cc_Metrics cfg), hk_tracer = defaulted (cc_Tracer cfg),
                         hk_alerter = NopHook, hk_inject = inject\<rparr>\<rparr>)"

definition client_params :: "'w Client \<Rightarrow> time \<Rightarrow> nat \<Rightarrow> Message \<Rightarrow> EnqueueParams" where
  "client_params c now i msg =
     \<lparr>ep_EventType = msg_Type msg, ep_Payload = msg_Payload msg,
      ep_Headers = InjectHeaders (cl_hooks c) i (msg_Headers msg),
      ep_IdempotencyKey = msg_IdempotencyKey msg,
      ep_MaxAttempts = (if msg_MaxAttempts msg \<le> 0 then cl_DefaultMaxAttempts c else msg_MaxAttempts msg),
      ep_ProcessAt = (if IsZero (msg_ScheduledAt msg) then now else msg_ScheduledAt msg)\<rparr>"

text \<open>Best-effort notification: the error is dropped.\<close>

definition try_notify :: "'w Storage \<Rightarrow> Tx \<Rightarrow> string \<Rightarrow> 'w \<Rightarrow> 'w" where
  "try_notify st tx et w = (case st_Notify st of None \<Rightarrow> w | Some notify \<Rightarrow> fst (notify tx et w))"

definition client_Enqueue ::
  "'w Client \<Rightarrow> time \<Rightarrow> Tx \<Rightarrow> Message \<Rightarrow> 'w \<Rightarrow> 'w \<times> (message_id \<times> goerr option) \<times> obs list" where
  "client_Enqueue c now tx msg w =
     (if msg_Type msg = '''' then (w, ('''', Some (ErrorString ''tickr: Message.Type required'')), [])
      else
        case st_Enqueue (cl_Storage c) tx (client_params c now 0 msg) w of (w1, out, err) \<Rightarrow>
          if err \<noteq> None \<and> \<not> IsDuplicate err then
            (w1, ('''', err), trace_span (cl_hooks c) (EnqueueSpan (msg_Type msg) err))
          else
            let span = trace_span (cl_hooks c) (EnqueueSpan (msg_Type msg) None) in
            case out of
              None \<Rightarrow> (w1, ('''', err), span)
            | Some m \<Rightarrow>
                (if IsDuplicate err then w1 else try_notify (cl_Storage c) tx (msg_Type msg) w1, (im_ID m, err),
                 span @ metric (cl_hooks c) (MessageEnqueued (msg_Type msg))))"

section \<open>Batches\<close>

text \<open>The parameters of a batch, up to the first message without a type.\<close>

fun client_batch_params ::
  "'w Client \<Rightarrow> (nat \<Rightarrow> time) \<Rightarrow> nat \<Rightarrow> Message list \<Rightarrow> (goerr + EnqueueParams list) \<times> obs list" where
  "client_batch_params c nows i [] = (Inr [], [])"
| "client_batch_params c nows i (msg # msgs) =
     (if msg_Type msg = '''' then
        (Inl (ErrorString (''tickr: batch item '' @ show_nat i @ '': Message.Type required'')), [])
      else
        let span = trace_span (cl_hooks c) (EnqueueSpan (msg_Type msg) None) in
        case client_batch_params c nows (Suc i) msgs of
          (Inl er, os) \<Rightarrow> (Inl er, span @ os)
        | (Inr ps, os) \<Rightarrow> (Inr (client_params c (nows i) i msg # ps), span @ os))"

text \<open>The loop over the stored messages: identifiers, metrics, one notification per event type.\<close>

fun batch_report ::
  "'w Client \<Rightarrow> Tx \<Rightarrow> string list \<Rightarrow> InboundMessage option list \<Rightarrow> 'w \<Rightarrow> 'w \<times> message_id list \<times> obs list" where
  "batch_report c tx seen [] w = (w, [], [])"
| "batch_report c tx seen (None # out) w =
     (case batch_report c tx seen out w of (w', ids, os) \<Rightarrow> (w', '''' # ids, os))"
| "batch_report c tx seen (Some m # out) w =
     (let w1 = (if im_Type m \<in> set seen then w else try_notify (cl_Storage c) tx (im_Type m) w) in
      case batch_report c tx (im_Type m # seen) out w1 of
        (w', ids, os) \<Rightarrow> (w', im_ID m # ids, metric (cl_hooks c) (MessageEnqueued (im_Type m)) @ os))"

definition client_EnqueueBatch ::
  "'w Client \<Rightarrow> (nat \<Rightarrow> time) \<Rightarrow> Tx \<Rightarrow> Message list \<Rightarrow> 'w \<Rightarrow> 'w \<times> (message_id list \<times> goerr option) \<times> obs list" where
  "client_EnqueueBatch c nows tx msgs w =
     (if msgs = [] then (w, ([], None), [])
      else
        case client_batch_params c nows 0 msgs of
          (Inl er, os) \<Rightarrow> (w, ([], Some er), os)
        | (Inr ps, os) \<Rightarrow>
            case st_EnqueueBatch (cl_Storage c) tx ps w of (w1, out, err) \<Rightarrow>
            case batch_report c tx [] out w1 of (w2, ids, os') \<Rightarrow> (w2, (ids, err), os @ os'))"

end
