(* ===== verification/Tables.thy ===== *)
theory Tables
  imports Message
begin

text \<open>
  The two tables that every SQL adapter writes (storage/postgres/schema.sql, the migrations of
  storage/postgres and storage/mysql), the environment an adapter call runs in, and the row
  invariant. The type of the primary key is a parameter: PostgreSQL and CockroachDB store a
  \<open>UUID\<close>, MySQL its 36-character text.
\<close>

section \<open>Rows\<close>

record 'i msg_row =
  m_id :: 'i
  m_event_type :: string
  m_payload :: bytes
  m_headers :: headers
  m_idempotency_key :: "string option"
  m_status :: Status
  m_attempt :: int
  m_max_attempts :: int
  m_process_at :: time
  m_shard :: int
  m_claimed_until :: "time option"
  m_claimed_by :: "string option"
  m_last_error :: "string option"
  m_created_at :: time
  m_updated_at :: time
  m_completed_at :: "time option"

record 'i hist_row =
  h_message_id :: 'i
  h_seq :: int
  h_from_status :: "Status option"
  h_to_status :: Status
  h_attempt :: int
  h_error :: "string option"
  h_worker_id :: "string option"
  h_at :: time

text \<open>
  The committed database, the notifications already delivered to listeners, and what the
  caller's open transaction has staged: rows it inserted and notifications it issued, which
  nobody else sees before the commit.
\<close>

record 'i db =
  messages :: "'i msg_row list"
  history :: "'i hist_row list"
  notified :: "string list"
  staged :: "'i msg_row list"
  staged_notified :: "string list"

definition empty_db :: "'i db" where
  "empty_db = \<lparr>messages = [], history = [], notified = [], staged = [], staged_notified = []\<rparr>"

definition tx_commit :: "'i db \<Rightarrow> 'i db" where
  "tx_commit db = db\<lparr>messages := messages db @ staged db, notified := notified db @ staged_notified db,
     staged := [], staged_notified := []\<rparr>"

definition tx_rollback :: "'i db \<Rightarrow> 'i db" where
  "tx_rollback db = db\<lparr>staged := [], staged_notified := []\<rparr>"

section \<open>The environment of one adapter call\<close>

text \<open>
  What the driver reports for one statement: it was executed; it failed and had no effect; or
  the reply was lost after the statement had taken effect (a connection that drops while the
  commit is acknowledged). An empty result is not a failure of the statement; the definitions
  that read a single row make the sentinel \<open>ErrNoRows\<close> of it themselves.
\<close>

datatype exec_reply = ExecOk | ExecFail goerr | ExecLost goerr

fun reply_err :: "exec_reply \<Rightarrow> goerr option" where
  "reply_err ExecOk = None"
| "reply_err (ExecFail e) = Some e"
| "reply_err (ExecLost e) = Some e"

fun applied :: "exec_reply \<Rightarrow> bool" where
  "applied (ExecFail e) = False"
| "applied _ = True"

definition run_stmt :: "exec_reply \<Rightarrow> ('s \<Rightarrow> 's) \<Rightarrow> 's \<Rightarrow> 's" where
  "run_stmt r f db = (if applied r then f db else db)"

lemma run_stmt_simps [simp]:
  "run_stmt ExecOk f db = f db" "run_stmt (ExecFail e) f db = db" "run_stmt (ExecLost e) f db = f db"
  by (simp_all add: run_stmt_def)

lemma applied_if_ok: "reply_err r = None \<Longrightarrow> applied r"
  by (cases r) auto

text \<open>
  \<open>env_now\<close> is the server's \<open>now()\<close>, \<open>env_clock\<close> the client's \<open>time.Now()\<close>;
  \<open>env_id k\<close> and \<open>env_rand k\<close> are the \<open>k\<close>-th new identifier and random number drawn
  by the call; \<open>env_locked\<close> tells the rows that other transactions hold locked
  (\<open>SKIP LOCKED\<close>); \<open>env_choice\<close> is the server's choice for a \<open>LIMIT\<close> without
  \<open>ORDER BY\<close>; \<open>env_reply k\<close> is the driver's reply to the \<open>k\<close>-th statement, in the
  order the method's text issues them; \<open>env_str\<close> and \<open>env_parse\<close> are
  \<open>uuid.UUID.String\<close> and \<open>uuid.Parse\<close>.
\<close>

record 'i env =
  env_now :: time
  env_clock :: time
  env_id :: "nat \<Rightarrow> 'i"
  env_rand :: "nat \<Rightarrow> nat"
  env_locked :: "'i \<Rightarrow> bool"
  env_choice :: "nat \<Rightarrow> 'i list \<Rightarrow> 'i list"
  env_reply :: "nat \<Rightarrow> exec_reply"
  env_str :: "'i \<Rightarrow> string"
  env_parse :: "string \<Rightarrow> goerr + 'i"

text \<open>
  What the adapters rely on: \<open>LIMIT\<close> picks the right number of rows, and parsing is the
  inverse of printing an identifier.
\<close>

definition env_ok :: "'i env \<Rightarrow> bool" where
  "env_ok e \<longleftrightarrow> limit_choice (env_choice e) \<and> (\<forall>i. env_parse e (env_str e i) = Inr i)"

definition all_ok :: "'i env \<Rightarrow> bool" where
  "all_ok e \<longleftrightarrow> (\<forall>k. env_reply e k = ExecOk)"

definition parsed :: "'i env \<Rightarrow> string \<Rightarrow> 'i option" where
  "parsed e s = (case env_parse e s of Inl _ \<Rightarrow> None | Inr i \<Rightarrow> Some i)"

lemma env_okD [simp]: "env_ok e \<Longrightarrow> env_parse e (env_str e i) = Inr i"
  by (simp add: env_ok_def)

lemma parsed_str [simp]: "env_ok e \<Longrightarrow> parsed e (env_str e i) = Some i"
  by (simp add: parsed_def)

section \<open>SQL helpers\<close>

definition NULLIF_empty :: "string \<Rightarrow> string option" where
  "NULLIF_empty s = (if s = '''' then None else Some s)"

fun sql_max :: "int list \<Rightarrow> int option" where
  "sql_max [] = None"
| "sql_max (x # xs) = Some (case sql_max xs of None \<Rightarrow> x | Some m \<Rightarrow> max x m)"

definition COALESCE :: "'a option \<Rightarrow> 'a \<Rightarrow> 'a" where
  "COALESCE x d = (case x of None \<Rightarrow> d | Some v \<Rightarrow> v)"

definition next_seq :: "'i \<Rightarrow> 'i hist_row list \<Rightarrow> int" where
  "next_seq mid hist =
     COALESCE (sql_max (map h_seq (filter (\<lambda>h. h_message_id h = mid) hist))) 0 + 1"

definition mk_hist ::
  "'i \<Rightarrow> int \<Rightarrow> Status option \<Rightarrow> Status \<Rightarrow> int \<Rightarrow> string option \<Rightarrow> string option \<Rightarrow> time \<Rightarrow> 'i hist_row" where
  "mk_hist mid sq from to att err worker tm =
     \<lparr>h_message_id = mid, h_seq = sq, h_from_status = from, h_to_status = to, h_attempt = att,
      h_error = err, h_worker_id = worker, h_at = tm\<rparr>"

lemma mk_hist_sel [simp]:
  "h_message_id (mk_hist mid sq from to att err worker tm) = mid"
  "h_seq (mk_hist mid sq from to att err worker tm) = sq"
  "h_from_status (mk_hist mid sq from to att err worker tm) = from"
  "h_to_status (mk_hist mid sq from to att err worker tm) = to"
  "h_attempt (mk_hist mid sq from to att err worker tm) = att"
  "h_at (mk_hist mid sq from to att err worker tm) = tm"
  by (simp_all add: mk_hist_def)

lemma sql_max_upper: "x \<in> set xs \<Longrightarrow> \<exists>m. sql_max xs = Some m \<and> x \<le> m"
  by (induction xs) (auto split: option.splits)

lemma next_seq_upper:
  assumes "h \<in> set hist" "h_message_id h = mid"
  shows "h_seq h < next_seq mid hist"
proof -
  let ?xs = "map h_seq (filter (\<lambda>h. h_message_id h = mid) hist)"
  from assms have "h_seq h \<in> set ?xs" by auto
  then obtain m where "sql_max ?xs = Some m" "h_seq h \<le> m" using sql_max_upper by blast
  then show ?thesis by (simp add: next_seq_def COALESCE_def)
qed

lemma sql_max_in: "sql_max xs = Some m \<Longrightarrow> m \<in> set xs"
  by (induction xs arbitrary: m) (auto split: option.splits simp: max_def)

lemma next_seq_positive:
  assumes "\<forall>h\<in>set hist. 1 \<le> h_seq h"
  shows "1 \<le> next_seq mid hist"
proof (cases "sql_max (map h_seq (filter (\<lambda>h. h_message_id h = mid) hist))")
  case None
  then show ?thesis by (simp add: next_seq_def COALESCE_def)
next
  case (Some m)
  with sql_max_in [OF Some] assms show ?thesis by (auto simp: next_seq_def COALESCE_def)
qed

section \<open>Row invariant\<close>

text \<open>
  \<open>FAILED\<close> is never stored; a lease (\<open>claimed_by\<close>, \<open>claimed_until\<close>) is present exactly
  while the row is \<open>HANDLING\<close>; \<open>completed_at\<close> is set exactly on terminal rows; a
  \<open>CREATED\<close> row has used no attempt, a handled or finished one at least one.
\<close>

definition row_ok :: "'i msg_row \<Rightarrow> bool" where
  "row_ok r \<longleftrightarrow>
     m_status r \<noteq> StatusFailed \<and>
     (m_claimed_by r \<noteq> None \<longleftrightarrow> m_status r = StatusHandling) \<and>
     (m_claimed_until r \<noteq> None \<longleftrightarrow> m_status r = StatusHandling) \<and>
     (m_completed_at r \<noteq> None \<longleftrightarrow> Terminal (m_status r)) \<and>
     0 \<le> m_attempt r \<and>
     (m_status r = StatusCreated \<longrightarrow> m_attempt r = 0) \<and>
     (m_status r = StatusHandling \<or> Terminal (m_status r) \<longrightarrow> 1 \<le> m_attempt r) \<and>
     1 \<le> m_max_attempts r \<and>
     0 \<le> m_shard r \<and> m_shard r < 16 \<and>
     m_idempotency_key r \<noteq> Some ''''"

definition idem_unique :: "'i msg_row list \<Rightarrow> bool" where
  "idem_unique rows \<longleftrightarrow>
     distinct (map (\<lambda>r. (m_event_type r, m_idempotency_key r))
       (filter (\<lambda>r. m_idempotency_key r \<noteq> None) rows))"

definition hist_ok :: "'i hist_row list \<Rightarrow> bool" where
  "hist_ok hist \<longleftrightarrow> distinct (map (\<lambda>h. (h_message_id h, h_seq h)) hist) \<and> (\<forall>h\<in>set hist. 1 \<le> h_seq h)"

lemma hist_ok_append_next:
  assumes "hist_ok hist" and "h_seq h = next_seq (h_message_id h) hist"
  shows "hist_ok (hist @ [h])"
proof -
  have "\<forall>h'\<in>set hist. h_message_id h' = h_message_id h \<longrightarrow> h_seq h' < h_seq h"
    using assms(2) next_seq_upper by metis
  moreover have "1 \<le> h_seq h"
    using assms next_seq_positive [of hist "h_message_id h"] by (simp add: hist_ok_def)
  ultimately show ?thesis using assms(1) by (fastforce simp: hist_ok_def)
qed

lemma next_seq_snoc:
  assumes "h_message_id h = mid" and "h_seq h = next_seq mid hist"
  shows "next_seq mid (hist @ [h]) = h_seq h + 1"
proof -
  have snoc: "sql_max (xs @ [x]) = Some (case sql_max xs of None \<Rightarrow> x | Some m \<Rightarrow> max m x)" for xs x
    by (induction xs) (auto split: option.splits)
  show ?thesis
    using assms by (simp add: next_seq_def snoc COALESCE_def split: option.splits)
qed

lemma idem_unique_update [simp]:
  assumes "\<And>r. m_event_type (f r) = m_event_type r" "\<And>r. m_idempotency_key (f r) = m_idempotency_key r"
  shows "idem_unique (sql_update p f rows) = idem_unique rows"
proof -
  let ?k = "\<lambda>r. (m_event_type r, m_idempotency_key r)" and ?q = "\<lambda>r. m_idempotency_key r \<noteq> None"
  have "map ?k (filter ?q (sql_update p f rows)) = map ?k (filter ?q rows)"
    by (induction rows) (auto simp: assms)
  then show ?thesis by (simp only: idem_unique_def)
qed

lemma idem_unique_delete: "idem_unique rows \<Longrightarrow> idem_unique (sql_delete p rows)"
proof -
  have "filter q (sql_delete p rows) = sql_delete p (filter q rows)" for q
    by (simp add: sql_delete_def conj_commute)
  then show "idem_unique rows \<Longrightarrow> idem_unique (sql_delete p rows)"
    by (simp add: idem_unique_def)
qed

lemma idem_unique_snoc:
  "idem_unique (rows @ [r]) \<longleftrightarrow> idem_unique rows \<and>
     (m_idempotency_key r \<noteq> None \<longrightarrow> (\<forall>r'\<in>set rows. m_idempotency_key r' = m_idempotency_key r \<longrightarrow>
        m_event_type r' \<noteq> m_event_type r))"
proof (cases "m_idempotency_key r")
  case None
  then show ?thesis by (simp add: idem_unique_def)
next
  case (Some y)
  have "(m_event_type r, Some y) \<notin> (\<lambda>x. (m_event_type x, m_idempotency_key x)) `
      {x \<in> set rows. m_idempotency_key x \<noteq> None} \<longleftrightarrow>
    (\<forall>r'\<in>set rows. m_idempotency_key r' = Some y \<longrightarrow> m_event_type r' \<noteq> m_event_type r)"
    by (simp add: image_iff) (metis option.distinct(1))
  with Some show ?thesis by (simp add: idem_unique_def)
qed

end
