(* ===== verification/Pg_Enqueue.thy ===== *)
theory Pg_Enqueue
  imports Tables
begin

text \<open>
  Write side of the PostgreSQL adapter (src/storage/postgres/postgres.go): the store's
  options, the querier that an operation runs on, \<open>scanMessage\<close>, \<open>Enqueue\<close> and
  \<open>EnqueueBatch\<close> with both schema variants, and \<open>Notify\<close>.
\<close>

section \<open>Store and options\<close>

datatype HistoryPolicy = HistoryFull | HistoryOff

record Store =
  partitioned :: bool
  notifierDisabled :: bool
  historyPolicy :: HistoryPolicy

datatype Option =
  WithHistoryPolicy HistoryPolicy | WithoutNotifier | WithPartitioning

fun apply_Option :: "Option \<Rightarrow> Store \<Rightarrow> Store" where
  "apply_Option (WithHistoryPolicy p) s = s\<lparr>historyPolicy := p\<rparr>"
| "apply_Option WithoutNotifier s = s\<lparr>notifierDisabled := True\<rparr>"
| "apply_Option WithPartitioning s = s\<lparr>partitioned := True\<rparr>"

definition New :: "Option list \<Rightarrow> Store" where
  "New opts = fold apply_Option opts
     \<lparr>partitioned = False, notifierDisabled = False, historyPolicy = HistoryFull\<rparr>"

definition numClaimShards :: nat where
  "numClaimShards = 16"

definition pickShard :: "'i env \<Rightarrow> nat \<Rightarrow> int" where
  "pickShard e k = int (env_rand e k mod numClaimShards)"

lemma pickShard_range: "0 \<le> pickShard e k \<and> pickShard e k < 16"
  by (simp add: pickShard_def numClaimShards_def zmod_int)

section \<open>Querier\<close>

datatype querier = PoolQuerier | TxQuerier

definition pg_querier :: "Tx \<Rightarrow> querier" where
  "pg_querier tx =
     (if Tx_IsZero tx then PoolQuerier
      else case tx of TxNative \<Rightarrow> TxQuerier | _ \<Rightarrow> PoolQuerier)"

lemma pg_querier_simps [simp]:
  "pg_querier TxZero = PoolQuerier" "pg_querier TxForeign = PoolQuerier" "pg_querier TxNative = TxQuerier"
  by (simp_all add: pg_querier_def Tx_IsZero_def)

text \<open>The rows a statement of the querier sees, and where it puts a row or a notification.\<close>

definition q_rows :: "querier \<Rightarrow> 'i db \<Rightarrow> 'i msg_row list" where
  "q_rows q db = (case q of PoolQuerier \<Rightarrow> messages db | TxQuerier \<Rightarrow> messages db @ staged db)"

definition q_insert :: "querier \<Rightarrow> 'i msg_row \<Rightarrow> 'i db \<Rightarrow> 'i db" where
  "q_insert q r db = (case q of
     PoolQuerier \<Rightarrow> db\<lparr>messages := messages db @ [r]\<rparr>
   | TxQuerier \<Rightarrow> db\<lparr>staged := staged db @ [r]\<rparr>)"

definition q_notify :: "querier \<Rightarrow> string \<Rightarrow> 'i db \<Rightarrow> 'i db" where
  "q_notify q et db = (case q of
     PoolQuerier \<Rightarrow> db\<lparr>notified := notified db @ [et]\<rparr>
   | TxQuerier \<Rightarrow> db\<lparr>staged_notified := staged_notified db @ [et]\<rparr>)"

section \<open>Headers and row scanning\<close>

text \<open>
  The \<open>headers\<close> column holds a JSON object with string members; the document is represented
  by its members, so that encoding and decoding only normalise the empty map.
\<close>

definition encodeHeaders :: "headers \<Rightarrow> headers" where
  "encodeHeaders h = (if length h = 0 then [] else h)"

definition decodeHeaders :: "headers \<Rightarrow> headers" where
  "decodeHeaders b = (if length b = 0 then [] else b)"

definition opt_str :: "string option \<Rightarrow> string" where
  "opt_str s = (case s of None \<Rightarrow> '''' | Some v \<Rightarrow> v)"

definition scanMessage :: "'i env \<Rightarrow> 'i msg_row \<Rightarrow> InboundMessage" where
  "scanMessage e r =
     \<lparr>im_ID = env_str e (m_id r), im_Type = m_event_type r, im_Payload = m_payload r,
      im_Headers = decodeHeaders (m_headers r), im_IdempotencyKey = opt_str (m_idempotency_key r),
      im_Attempt = m_attempt r, im_MaxAttempts = m_max_attempts r, im_EnqueuedAt = m_created_at r,
      im_ScheduledAt = m_process_at r, im_LastError = opt_str (m_last_error r),
      im_Status = Some (m_status r)\<rparr>"

section \<open>Notify\<close>

definition pg_Notify :: "'i env \<Rightarrow> nat \<Rightarrow> Tx \<Rightarrow> string \<Rightarrow> 'i db \<Rightarrow> 'i db \<times> goerr option" where
  "pg_Notify e k tx et db =
     (run_stmt (env_reply e k) (q_notify (pg_querier tx) et) db,
      map_option (WrapError ''tickr/postgres: pg_notify: '') (reply_err (env_reply e k)))"

definition notifyEnqueue ::
  "Store \<Rightarrow> 'i env \<Rightarrow> nat \<Rightarrow> Tx \<Rightarrow> string \<Rightarrow> 'i db \<Rightarrow> 'i db \<times> goerr option" where
  "notifyEnqueue s e k tx et db =
     (if notifierDisabled s then (db, None) else pg_Notify e k tx et db)"

section \<open>Enqueue\<close>

text \<open>
  The row of \<open>enqueueSQL\<close>, and the three ways the \<open>INSERT ... ON CONFLICT DO NOTHING\<close> can
  go: inserted and returned, skipped by the idempotency index, or refused by the primary key.
  In the partitioned schema both indexes include the partition key \<open>created_at\<close>.
\<close>

definition enqueue_row :: "'i env \<Rightarrow> nat \<Rightarrow> int \<Rightarrow> time \<Rightarrow> EnqueueParams \<Rightarrow> 'i msg_row" where
  "enqueue_row e k maxAttempts processAt p =
     \<lparr>m_id = env_id e k, m_event_type = ep_EventType p, m_payload = ep_Payload p,
      m_headers = encodeHeaders (ep_Headers p), m_idempotency_key = NULLIF_empty (ep_IdempotencyKey p),
      m_status = StatusCreated, m_attempt = 0, m_max_attempts = maxAttempts,
      m_process_at = processAt, m_shard = pickShard e k, m_claimed_until = None,
      m_claimed_by = None, m_last_error = None, m_created_at = env_now e,
      m_updated_at = env_now e, m_completed_at = None\<rparr>"

definition conflicts :: "Store \<Rightarrow> 'i msg_row \<Rightarrow> 'i msg_row \<Rightarrow> bool" where
  "conflicts s r r' \<longleftrightarrow>
     m_idempotency_key r \<noteq> None \<and> m_event_type r' = m_event_type r \<and>
     m_idempotency_key r' = m_idempotency_key r \<and>
     (partitioned s \<longrightarrow> m_created_at r' = m_created_at r)"

definition pk_clash :: "Store \<Rightarrow> 'i msg_row \<Rightarrow> 'i msg_row \<Rightarrow> bool" where
  "pk_clash s r r' \<longleftrightarrow> m_id r' = m_id r \<and> (partitioned s \<longrightarrow> m_created_at r' = m_created_at r)"

datatype insert_result = Inserted | Skipped | Refused

definition insertSQL :: "Store \<Rightarrow> querier \<Rightarrow> 'i msg_row \<Rightarrow> 'i db \<Rightarrow> insert_result" where
  "insertSQL s q r db =
     (if list_ex (conflicts s r) (q_rows q db) then Skipped
      else if list_ex (pk_clash s r) (q_rows q db) then Refused
      else Inserted)"

definition pk_error :: goerr where
  "pk_error = ErrorString ''duplicate key value violates unique constraint''"

definition idem_row :: "string \<Rightarrow> string \<Rightarrow> 'i msg_row list \<Rightarrow> 'i msg_row option" where
  "idem_row et key rows = find (\<lambda>r. m_event_type r = et \<and> m_idempotency_key r = Some key) rows"

definition findByIdempotency ::
  "'i env \<Rightarrow> nat \<Rightarrow> querier \<Rightarrow> string \<Rightarrow> string \<Rightarrow> 'i db \<Rightarrow> InboundMessage option \<times> goerr option" where
  "findByIdempotency e k q et key db =
     (let wrap = WrapError ''tickr/postgres: fetch by idempotency key: '' in
      case reply_err (env_reply e k) of Some er \<Rightarrow> (None, Some (wrap er))
      | None \<Rightarrow>
        (case idem_row et key (q_rows q db) of
           None \<Rightarrow> (None, Some (wrap ErrNoRows))
         | Some r \<Rightarrow> (Some (scanMessage e r), None)))"

definition default_max_attempts :: "int \<Rightarrow> int" where
  "default_max_attempts n = (if n \<le> 0 then 10 else n)"

definition default_process_at :: "time \<Rightarrow> time \<Rightarrow> time" where
  "default_process_at clock t = (if IsZero t then clock else t)"

text \<open>
  Statements of one call, by index: 0 the look-up before the insert in partitioned mode, 1 the
  insert, 2 the notification, 3 the look-up of the existing row after a conflict.
\<close>

definition duplicate_of :: "EnqueueParams \<Rightarrow> InboundMessage \<Rightarrow> goerr option" where
  "duplicate_of p m = Some (ErrDuplicate (im_ID m) (ep_EventType p) (ep_IdempotencyKey p))"

definition enqueue_insert ::
  "Store \<Rightarrow> 'i env \<Rightarrow> Tx \<Rightarrow> EnqueueParams \<Rightarrow> 'i msg_row \<Rightarrow> 'i db
   \<Rightarrow> 'i db \<times> InboundMessage option \<times> goerr option" where
  "enqueue_insert s e tx p r db =
     (let q = pg_querier tx; wrap = WrapError ''tickr/postgres: enqueue: '' in
      case env_reply e 1 of ExecFail er \<Rightarrow> (db, None, Some (wrap er))
      | rep \<Rightarrow>
        (case insertSQL s q r db of
           Refused \<Rightarrow> (db, None, Some (wrap pk_error))
         | Inserted \<Rightarrow>
             (case reply_err rep of
                Some er \<Rightarrow> (q_insert q r db, None, Some (wrap er))
              | None \<Rightarrow>
                 (let (db', nerr) = notifyEnqueue s e 2 tx (ep_EventType p) (q_insert q r db)
                  in (db', Some (scanMessage e r), nerr)))
         | Skipped \<Rightarrow>
             (case reply_err rep of
                Some er \<Rightarrow> (db, None, Some (wrap er))
              | None \<Rightarrow>
                 if ep_IdempotencyKey p = '''' then
                   (db, None, Some (ErrorString
                      ''tickr/postgres: enqueue returned no rows but no idempotency key was set''))
                 else (case findByIdempotency e 3 q (ep_EventType p) (ep_IdempotencyKey p) db of
                     (Some m, None) \<Rightarrow> (db, Some m, duplicate_of p m)
                   | (_, err) \<Rightarrow> (db, None, err)))))"

definition pg_Enqueue ::
  "Store \<Rightarrow> 'i env \<Rightarrow> Tx \<Rightarrow> EnqueueParams \<Rightarrow> 'i db \<Rightarrow> 'i db \<times> InboundMessage option \<times> goerr option" where
  "pg_Enqueue s e tx p db =
     (let processAt = default_process_at (env_clock e) (ep_ProcessAt p);
          maxAttempts = default_max_attempts (ep_MaxAttempts p);
          r = enqueue_row e 0 maxAttempts processAt p
      in if partitioned s \<and> ep_IdempotencyKey p \<noteq> '''' then
           (case findByIdempotency e 0 (pg_querier tx) (ep_EventType p) (ep_IdempotencyKey p) db of
              (Some m, None) \<Rightarrow> (db, Some m, duplicate_of p m)
            | (_, err) \<Rightarrow> if errors_Is err ErrNoRows then enqueue_insert s e tx p r db else (db, None, err))
         else enqueue_insert s e tx p r db)"

section \<open>EnqueueBatch\<close>

text \<open>
  One \<open>INSERT ... SELECT unnest(...)\<close> for the whole batch: rows are proposed in order, a row
  that an earlier one of the same statement already conflicts with is skipped too, and a
  primary-key violation fails the statement as a whole.
\<close>

fun batchInsertSQL ::
  "Store \<Rightarrow> querier \<Rightarrow> 'i msg_row list \<Rightarrow> 'i db \<Rightarrow> ('i db \<times> 'i msg_row list) option" where
  "batchInsertSQL s q [] db = Some (db, [])"
| "batchInsertSQL s q (r # rs) db =
     (case insertSQL s q r db of
        Refused \<Rightarrow> None
      | Skipped \<Rightarrow> batchInsertSQL s q rs db
      | Inserted \<Rightarrow> map_option (\<lambda>(db', ins). (db', r # ins)) (batchInsertSQL s q rs (q_insert q r db)))"

text \<open>
  The reconstruction loop: inserted rows are found by their identifier, a skipped row is looked
  up by its key and the first one is remembered as the duplicate error. The flag tells that the
  loop returned early; the entries it did not reach stay nil.
\<close>

fun batch_collect ::
  "'i env \<Rightarrow> querier \<Rightarrow> 'i db \<Rightarrow> ('i option \<times> InboundMessage) list \<Rightarrow> (nat \<times> EnqueueParams) list
   \<Rightarrow> goerr option \<Rightarrow> InboundMessage option list \<times> goerr option \<times> bool" where
  "batch_collect e q db inserted [] dup = ([], dup, False)"
| "batch_collect e q db inserted ((i, p) # ps) dup =
     (case map_of inserted (Some (env_id e i)) of
        Some m \<Rightarrow>
          (let (out, err, ret) = batch_collect e q db inserted ps dup in (Some m # out, err, ret))
      | None \<Rightarrow>
          if ep_IdempotencyKey p = '''' then
            (replicate (Suc (length ps)) None,
             Some (ErrorString (''tickr/postgres: enqueue batch item '' @ show_nat i
               @ '': no rows returned but no idempotency key set'')), True)
          else
            (case findByIdempotency e (3 + i) q (ep_EventType p) (ep_IdempotencyKey p) db of
               (Some m, None) \<Rightarrow>
                 (let dup' = (if dup = None
                              then Some (ErrDuplicate (im_ID m) (ep_EventType p) (ep_IdempotencyKey p))
                              else dup);
                      (out, err, ret) = batch_collect e q db inserted ps dup'
                  in (Some m # out, err, ret))
             | (_, err) \<Rightarrow> (replicate (Suc (length ps)) None, err, True)))"

definition batch_rows :: "'i env \<Rightarrow> (nat \<times> EnqueueParams) list \<Rightarrow> 'i msg_row list" where
  "batch_rows e ips =
     map (\<lambda>(i, p). enqueue_row e i (default_max_attempts (ep_MaxAttempts p))
       (default_process_at (env_clock e) (ep_ProcessAt p)) p) ips"

definition index_inserted :: "'i env \<Rightarrow> 'i msg_row list \<Rightarrow> ('i option \<times> InboundMessage) list" where
  "index_inserted e ins = map (\<lambda>r. (parsed e (im_ID (scanMessage e r)), scanMessage e r)) ins"

definition pg_EnqueueBatch ::
  "Store \<Rightarrow> 'i env \<Rightarrow> Tx \<Rightarrow> EnqueueParams list \<Rightarrow> 'i db
   \<Rightarrow> 'i db \<times> InboundMessage option list \<times> goerr option" where
  "pg_EnqueueBatch s e tx ps db =
     (if ps = [] then (db, [], None)
      else
        let q = pg_querier tx; ips = enumerate 0 ps in
        case env_reply e 1 of
          ExecFail er \<Rightarrow> (db, [], Some (WrapError ''tickr/postgres: enqueue batch: '' er))
        | rep \<Rightarrow>
          (case batchInsertSQL s q (batch_rows e ips) db of
             None \<Rightarrow> (db, [], Some (WrapError ''tickr/postgres: enqueue batch: '' pk_error))
           | Some (db1, ins) \<Rightarrow>
             (case reply_err rep of
                Some er \<Rightarrow> (db1, [], Some (WrapError ''tickr/postgres: enqueue batch rows: '' er))
              | None \<Rightarrow>
                (case batch_collect e q db1 (index_inserted e ins) ips None of
                   (out, err, True) \<Rightarrow> (db1, out, err)
                 | (out, dup, False) \<Rightarrow>
                   if ins \<noteq> [] \<and> \<not> notifierDisabled s then
                     (case notifyEnqueue s e 2 tx (ep_EventType (hd ps)) db1 of
                        (db2, Some nerr) \<Rightarrow> (db2, out, Some nerr)
                      | (db2, None) \<Rightarrow> (db2, out, dup))
                   else (db1, out, dup)))))"

end
