(* ===== verification/Pg_Claim.thy ===== *)
theory Pg_Claim
  imports Pg_Enqueue
begin

text \<open>
  The claim path of the PostgreSQL adapter (\<open>claimSQL\<close>, \<open>claimQuery\<close>, \<open>Claim\<close>) and
  the history writer it uses (\<open>appendHistorySQL\<close>, \<open>appendHistory\<close>,
  \<open>appendHistoryBatch\<close>) in src/storage/postgres/postgres.go.
\<close>

section \<open>History writes\<close>

definition appendHistorySQL ::
  "time \<Rightarrow> 'i \<Rightarrow> Status option \<Rightarrow> Status \<Rightarrow> int \<Rightarrow> string \<Rightarrow> string \<Rightarrow> 'i db \<Rightarrow> 'i db" where
  "appendHistorySQL now mid from to att errStr workerID db =
     db\<lparr>history := history db @
       [mk_hist mid (next_seq mid (history db)) from to att (NULLIF_empty errStr) (NULLIF_empty workerID) now]\<rparr>"

definition appendHistory ::
  "'i env \<Rightarrow> nat \<Rightarrow> message_id \<Rightarrow> Status option \<Rightarrow> Status \<Rightarrow> int \<Rightarrow> string \<Rightarrow> string \<Rightarrow> 'i db
   \<Rightarrow> 'i db \<times> goerr option" where
  "appendHistory e k ident from to att errStr workerID db =
     (case env_parse e ident of
        Inl er \<Rightarrow> (db, Some (WrapError ''tickr/postgres: history: bad id: '' er))
      | Inr mid \<Rightarrow>
          (run_stmt (env_reply e k) (appendHistorySQL (env_now e) mid from to att errStr workerID) db,
           map_option (WrapError ''tickr/postgres: history insert: '') (reply_err (env_reply e k))))"

text \<open>
  A pipelined batch inside one explicit transaction. \<open>stmts\<close> are the statements that were
  queued and \<open>reads\<close> the number of results the caller then reads: reading past the last
  queued statement is an error of the driver, and any error before the commit leaves the
  database as it was.
\<close>

definition batch_overrun :: goerr where
  "batch_overrun = ErrorString ''no more results in batch''"

definition run_batch ::
  "'i env \<Rightarrow> nat \<Rightarrow> (goerr \<Rightarrow> goerr) \<Rightarrow> (goerr \<Rightarrow> goerr) \<Rightarrow> ('i db \<Rightarrow> 'i db) list \<Rightarrow> nat \<Rightarrow> 'i db
   \<Rightarrow> 'i db \<times> goerr option" where
  "run_batch e k execErr commitErr stmts reads db =
     (case reply_err (env_reply e k) of Some er \<Rightarrow> (db, Some (execErr er))
      | None \<Rightarrow>
        if length stmts < reads then (db, Some (execErr batch_overrun))
        else (run_stmt (env_reply e (Suc k)) (fold (\<lambda>f. f) stmts) db,
              map_option commitErr (reply_err (env_reply e (Suc k)))))"

definition appendHistoryBatch ::
  "'i env \<Rightarrow> nat \<Rightarrow> InboundMessage list \<Rightarrow> Status \<Rightarrow> string \<Rightarrow> string \<Rightarrow> 'i db \<Rightarrow> 'i db \<times> goerr option" where
  "appendHistoryBatch e k msgs to errStr workerID db =
     (if msgs = [] then (db, None)
      else
        (case reply_err (env_reply e k) of
           Some er \<Rightarrow> (db, Some (WrapError ''tickr/postgres: history batch begin: '' er))
         | None \<Rightarrow>
           run_batch e (Suc k) id id
             (List.map_filter (\<lambda>m. map_option
                (\<lambda>mid. appendHistorySQL (env_now e) mid None to (im_Attempt m) errStr workerID)
                (parsed e (im_ID m))) msgs)
             (length msgs) db))"

section \<open>Claim\<close>

definition claim_eligible ::
  "'i env \<Rightarrow> string list option \<Rightarrow> int option \<Rightarrow> 'i msg_row \<Rightarrow> bool" where
  "claim_eligible e ets shard r \<longleftrightarrow>
     (m_status r = StatusCreated \<or> m_status r = StatusRetrying) \<and>
     (case shard of None \<Rightarrow> True | Some sh \<Rightarrow> m_shard r = sh) \<and>
     m_process_at r \<le> env_now e \<and>
     (case ets of None \<Rightarrow> True | Some ts \<Rightarrow> m_event_type r \<in> set ts)"

definition claim_key :: "'i msg_row \<Rightarrow> time \<times> 'i" where
  "claim_key r = (m_process_at r, m_id r)"

definition claim_ids ::
  "('i::linorder) env \<Rightarrow> string list option \<Rightarrow> int \<Rightarrow> int option \<Rightarrow> 'i db \<Rightarrow> 'i list" where
  "claim_ids e ets batch shard db =
     map m_id (order_limit claim_key batch
       (filter (\<lambda>r. claim_eligible e ets shard r \<and> \<not> env_locked e (m_id r)) (messages db)))"

definition claim_set :: "time \<Rightarrow> string \<Rightarrow> int \<Rightarrow> 'i msg_row \<Rightarrow> 'i msg_row" where
  "claim_set now workerID leaseSec r =
     r\<lparr>m_status := StatusHandling, m_attempt := m_attempt r + 1, m_claimed_by := Some workerID,
       m_claimed_until := Some (now + leaseSec * Second), m_updated_at := now\<rparr>"

definition claimSQL ::
  "('i::linorder) env \<Rightarrow> string list option \<Rightarrow> int \<Rightarrow> string \<Rightarrow> int \<Rightarrow> int option \<Rightarrow> 'i db
   \<Rightarrow> 'i db \<times> 'i msg_row list" where
  "claimSQL e ets batch workerID leaseSec shard db =
     (let ids = claim_ids e ets batch shard db;
          rows = sql_update (\<lambda>r. m_id r \<in> set ids) (claim_set (env_now e) workerID leaseSec) (messages db)
      in (db\<lparr>messages := rows\<rparr>, filter (\<lambda>r. m_id r \<in> set ids) rows))"

definition claimQuery ::
  "('i::linorder) env \<Rightarrow> nat \<Rightarrow> string list option \<Rightarrow> int \<Rightarrow> string \<Rightarrow> int \<Rightarrow> int option \<Rightarrow> 'i db
   \<Rightarrow> 'i db \<times> InboundMessage list \<times> goerr option" where
  "claimQuery e k ets batch workerID leaseSec shard db =
     (let (db', rows) = claimSQL e ets batch workerID leaseSec shard db in
      case env_reply e k of
        ExecFail er \<Rightarrow> (db, [], Some (WrapError ''tickr/postgres: claim: '' er))
      | ExecLost er \<Rightarrow> (db', [], Some (WrapError ''tickr/postgres: claim rows: '' er))
      | ExecOk \<Rightarrow> (db', map (scanMessage e) rows, None))"

definition claim_leaseSec :: "duration \<Rightarrow> int" where
  "claim_leaseSec lease = (if lease = 0 then 30 else go_div lease Second)"

definition claim_batch :: "int \<Rightarrow> int" where
  "claim_batch n = (if n \<le> 0 then 1 else n)"

text \<open>
  Statements by index: 0 the scan of the random shard, 1 the scan of all shards, 2 to 4 the
  history transaction.
\<close>

definition pg_Claim ::
  "Store \<Rightarrow> ('i::linorder) env \<Rightarrow> ClaimParams \<Rightarrow> 'i db \<Rightarrow> 'i db \<times> InboundMessage list \<times> goerr option" where
  "pg_Claim s e p db =
     (let batch = claim_batch (cp_Batch p);
          leaseSec = claim_leaseSec (cp_Lease p);
          ets = (if cp_EventTypes p = [] then None else Some (cp_EventTypes p));
          finish = (\<lambda>(db', out).
            if out \<noteq> [] \<and> historyPolicy s \<noteq> HistoryOff then
              (case appendHistoryBatch e 2 out StatusHandling '''' (cp_WorkerID p) db' of
                 (db'', Some er) \<Rightarrow> (db'', out, Some (WrapError ''tickr/postgres: claim history: '' er))
               | (db'', None) \<Rightarrow> (db'', out, None))
            else (db', out, None))
      in case claimQuery e 0 ets batch (cp_WorkerID p) leaseSec (Some (pickShard e 0)) db of
           (db1, _, Some er) \<Rightarrow> (db1, [], Some er)
         | (db1, out1, None) \<Rightarrow>
             if out1 = [] then
               (case claimQuery e 1 ets batch (cp_WorkerID p) leaseSec None db1 of
                  (db2, _, Some er) \<Rightarrow> (db2, [], Some er)
                | (db2, out2, None) \<Rightarrow> finish (db2, out2))
             else finish (db1, out1))"

end
