(* ===== verification/Pg_Ack.thy ===== *)
theory Pg_Ack
  imports Pg_Claim
begin

text \<open>
  Completion of an attempt in the PostgreSQL adapter (src/storage/postgres/postgres.go):
  \<open>Succeed\<close>, \<open>BatchSucceed\<close>, \<open>Fail\<close>, \<open>ReleaseShutdown\<close> and \<open>Extend\<close>, each with
  the statement it issues under either history policy.
\<close>

section \<open>Statements\<close>

text \<open>The guard shared by the completion statements: \<open>id = $1 AND status = 'HANDLING' AND attempt = $2\<close>.\<close>

definition holds_attempt :: "'i \<Rightarrow> int \<Rightarrow> 'i msg_row \<Rightarrow> bool" where
  "holds_attempt mid att r \<longleftrightarrow> m_id r = mid \<and> m_status r = StatusHandling \<and> m_attempt r = att"

definition succeed_set :: "time \<Rightarrow> 'i msg_row \<Rightarrow> 'i msg_row" where
  "succeed_set now r =
     r\<lparr>m_status := StatusSuccess, m_claimed_until := None, m_claimed_by := None, m_last_error := None,
       m_completed_at := Some now, m_updated_at := now\<rparr>"

definition succeedNoHistorySQL :: "time \<Rightarrow> 'i \<Rightarrow> int \<Rightarrow> 'i db \<Rightarrow> 'i db" where
  "succeedNoHistorySQL now mid att db =
     db\<lparr>messages := sql_update (holds_attempt mid att) (succeed_set now) (messages db)\<rparr>"

definition succeedSQL :: "time \<Rightarrow> 'i \<Rightarrow> int \<Rightarrow> string \<Rightarrow> 'i db \<Rightarrow> 'i db" where
  "succeedSQL now mid att workerID db =
     (let upd = filter (holds_attempt mid att) (messages db) in
      db\<lparr>messages := sql_update (holds_attempt mid att) (succeed_set now) (messages db),
         history := history db @ map (\<lambda>u. mk_hist (m_id u) (next_seq mid (history db))
           (Some StatusHandling) StatusSuccess (m_attempt u) None (NULLIF_empty workerID) now) upd\<rparr>)"

definition fail_retry_set :: "time \<Rightarrow> string \<Rightarrow> time \<Rightarrow> 'i msg_row \<Rightarrow> 'i msg_row" where
  "fail_retry_set now errStr nextRetryAt r =
     r\<lparr>m_status := StatusRetrying, m_claimed_until := None, m_claimed_by := None,
       m_last_error := Some errStr, m_process_at := nextRetryAt, m_updated_at := now\<rparr>"

definition fail_dead_set :: "time \<Rightarrow> string \<Rightarrow> 'i msg_row \<Rightarrow> 'i msg_row" where
  "fail_dead_set now errStr r =
     r\<lparr>m_status := StatusDead, m_claimed_until := None, m_claimed_by := None,
       m_last_error := Some errStr, m_completed_at := Some now, m_updated_at := now\<rparr>"

definition failRetryNoHistorySQL :: "time \<Rightarrow> 'i \<Rightarrow> int \<Rightarrow> string \<Rightarrow> time \<Rightarrow> 'i db \<Rightarrow> 'i db" where
  "failRetryNoHistorySQL now mid att errStr nextRetryAt db =
     db\<lparr>messages := sql_update (holds_attempt mid att) (fail_retry_set now errStr nextRetryAt) (messages db)\<rparr>"

definition failDeadNoHistorySQL :: "time \<Rightarrow> 'i \<Rightarrow> int \<Rightarrow> string \<Rightarrow> 'i db \<Rightarrow> 'i db" where
  "failDeadNoHistorySQL now mid att errStr db =
     db\<lparr>messages := sql_update (holds_attempt mid att) (fail_dead_set now errStr) (messages db)\<rparr>"

text \<open>The two history rows of a failed attempt: the first is written whether or not the lease is still held.\<close>

definition fail_history ::
  "time \<Rightarrow> 'i \<Rightarrow> int \<Rightarrow> string \<Rightarrow> string \<Rightarrow> Status \<Rightarrow> 'i db \<Rightarrow> 'i hist_row list" where
  "fail_history now mid att errStr workerID to db =
     (let sq = next_seq mid (history db) in
      mk_hist mid sq (Some StatusHandling) StatusFailed att (NULLIF_empty errStr) (NULLIF_empty workerID) now
      # map (\<lambda>u. mk_hist mid (sq + 1) (Some StatusFailed) to (m_attempt u)
               (NULLIF_empty errStr) (NULLIF_empty workerID) now)
          (filter (holds_attempt mid att) (messages db)))"

definition failRetrySQL ::
  "time \<Rightarrow> 'i \<Rightarrow> int \<Rightarrow> string \<Rightarrow> time \<Rightarrow> string \<Rightarrow> 'i db \<Rightarrow> 'i db" where
  "failRetrySQL now mid att errStr nextRetryAt workerID db =
     db\<lparr>messages := sql_update (holds_attempt mid att) (fail_retry_set now errStr nextRetryAt) (messages db),
        history := history db @ fail_history now mid att errStr workerID StatusRetrying db\<rparr>"

definition failDeadSQL :: "time \<Rightarrow> 'i \<Rightarrow> int \<Rightarrow> string \<Rightarrow> string \<Rightarrow> 'i db \<Rightarrow> 'i db" where
  "failDeadSQL now mid att errStr workerID db =
     db\<lparr>messages := sql_update (holds_attempt mid att) (fail_dead_set now errStr) (messages db),
        history := history db @ fail_history now mid att errStr workerID StatusDead db\<rparr>"

definition release_set :: "time \<Rightarrow> string \<Rightarrow> 'i msg_row \<Rightarrow> 'i msg_row" where
  "release_set now reason r =
     r\<lparr>m_status := StatusRetrying, m_claimed_until := None, m_claimed_by := None,
       m_attempt := max 0 (m_attempt r - 1), m_process_at := now, m_last_error := Some reason,
       m_updated_at := now\<rparr>"

definition releaseShutdownNoHistorySQL :: "time \<Rightarrow> 'i \<Rightarrow> int \<Rightarrow> string \<Rightarrow> 'i db \<Rightarrow> 'i db" where
  "releaseShutdownNoHistorySQL now mid att reason db =
     db\<lparr>messages := sql_update (holds_attempt mid att) (release_set now reason) (messages db)\<rparr>"

definition releaseShutdownSQL :: "time \<Rightarrow> 'i \<Rightarrow> int \<Rightarrow> string \<Rightarrow> string \<Rightarrow> 'i db \<Rightarrow> 'i db" where
  "releaseShutdownSQL now mid att reason workerID db =
     (let upd = map (release_set now reason) (filter (holds_attempt mid att) (messages db)) in
      db\<lparr>messages := sql_update (holds_attempt mid att) (release_set now reason) (messages db),
         history := history db @ map (\<lambda>u. mk_hist (m_id u) (next_seq mid (history db))
           (Some StatusHandling) StatusRetrying (m_attempt u) (NULLIF_empty reason) (NULLIF_empty workerID) now) upd\<rparr>)"

definition extend_match :: "'i \<Rightarrow> string \<Rightarrow> 'i msg_row \<Rightarrow> bool" where
  "extend_match mid workerID r \<longleftrightarrow>
     m_id r = mid \<and> m_status r = StatusHandling \<and> m_claimed_by r = Some workerID"

definition extendSQL :: "time \<Rightarrow> 'i \<Rightarrow> string \<Rightarrow> time \<Rightarrow> 'i db \<Rightarrow> 'i db" where
  "extendSQL now mid workerID until db =
     db\<lparr>messages := sql_update (extend_match mid workerID)
        (\<lambda>r. r\<lparr>m_claimed_until := Some until, m_updated_at := now\<rparr>) (messages db)\<rparr>"

section \<open>Methods\<close>

definition pg_Succeed ::
  "Store \<Rightarrow> 'i env \<Rightarrow> message_id \<Rightarrow> int \<Rightarrow> string \<Rightarrow> 'i db \<Rightarrow> 'i db \<times> goerr option" where
  "pg_Succeed s e ident att workerID db =
     (case env_parse e ident of
        Inl er \<Rightarrow> (db, Some (WrapError ''tickr/postgres: succeed: bad id: '' er))
      | Inr mid \<Rightarrow>
          (let f = (if historyPolicy s = HistoryOff then succeedNoHistorySQL (env_now e) mid att
                    else succeedSQL (env_now e) mid att workerID)
           in (run_stmt (env_reply e 0) f db,
               map_option (WrapError ''tickr/postgres: succeed: '') (reply_err (env_reply e 0)))))"

definition pg_BatchSucceed ::
  "Store \<Rightarrow> 'i env \<Rightarrow> BatchSucceedParam list \<Rightarrow> 'i db \<Rightarrow> 'i db \<times> goerr option" where
  "pg_BatchSucceed s e params db =
     (if params = [] then (db, None)
      else
        (case reply_err (env_reply e 0) of
           Some er \<Rightarrow> (db, Some (WrapError ''tickr/postgres: batch succeed begin: '' er))
         | None \<Rightarrow>
           (let stmts = List.map_filter (\<lambda>p. map_option
                  (\<lambda>mid. if historyPolicy s = HistoryOff
                         then succeedNoHistorySQL (env_now e) mid (bs_Attempt p)
                         else succeedSQL (env_now e) mid (bs_Attempt p) (bs_WorkerID p))
                  (parsed e (bs_MessageID p))) params
            in run_batch e 1 (WrapError ''tickr/postgres: batch succeed exec: '')
                 (WrapError ''tickr/postgres: batch succeed commit: '') stmts (length params) db)))"

definition pg_Fail :: "Store \<Rightarrow> 'i env \<Rightarrow> FailParams \<Rightarrow> 'i db \<Rightarrow> 'i db \<times> goerr option" where
  "pg_Fail s e p db =
     (case env_parse e (fp_MessageID p) of
        Inl er \<Rightarrow> (db, Some (WrapError ''tickr/postgres: fail: bad id: '' er))
      | Inr mid \<Rightarrow>
          (let f = (if historyPolicy s = HistoryOff then
                      (if fp_Dead p then failDeadNoHistorySQL (env_now e) mid (fp_Attempt p) (fp_Err p)
                       else failRetryNoHistorySQL (env_now e) mid (fp_Attempt p) (fp_Err p) (fp_NextRetryAt p))
                    else if fp_Dead p then
                      failDeadSQL (env_now e) mid (fp_Attempt p) (fp_Err p) (fp_WorkerID p)
                    else failRetrySQL (env_now e) mid (fp_Attempt p) (fp_Err p) (fp_NextRetryAt p) (fp_WorkerID p))
           in (run_stmt (env_reply e 0) f db,
               map_option (WrapError ''tickr/postgres: fail: '') (reply_err (env_reply e 0)))))"

definition pg_ReleaseShutdown ::
  "Store \<Rightarrow> 'i env \<Rightarrow> message_id \<Rightarrow> int \<Rightarrow> string \<Rightarrow> string \<Rightarrow> 'i db \<Rightarrow> 'i db \<times> goerr option" where
  "pg_ReleaseShutdown s e ident att workerID reason db =
     (case env_parse e ident of
        Inl er \<Rightarrow> (db, Some (WrapError ''tickr/postgres: release: bad id: '' er))
      | Inr mid \<Rightarrow>
          (let f = (if historyPolicy s = HistoryOff then releaseShutdownNoHistorySQL (env_now e) mid att reason
                    else releaseShutdownSQL (env_now e) mid att reason workerID)
           in (run_stmt (env_reply e 0) f db,
               map_option (WrapError ''tickr/postgres: release: '') (reply_err (env_reply e 0)))))"

definition pg_Extend ::
  "'i env \<Rightarrow> message_id \<Rightarrow> string \<Rightarrow> time \<Rightarrow> 'i db \<Rightarrow> 'i db \<times> bool \<times> goerr option" where
  "pg_Extend e ident workerID until db =
     (case env_parse e ident of
        Inl er \<Rightarrow> (db, False, Some (WrapError ''tickr/postgres: extend: bad id: '' er))
      | Inr mid \<Rightarrow>
          (let db' = run_stmt (env_reply e 0) (extendSQL (env_now e) mid workerID until) db in
           case reply_err (env_reply e 0) of
             Some er \<Rightarrow> (db', False, Some (WrapError ''tickr/postgres: extend: '' er))
           | None \<Rightarrow> (db', sql_count (extend_match mid workerID) (messages db) > 0, None)))"

end
