(* ===== verification/Pg_Admin.thy ===== *)
theory Pg_Admin
  imports Pg_Ack
begin

text \<open>
  Administration and maintenance in the PostgreSQL adapter (src/storage/postgres/postgres.go):
  \<open>History\<close>, \<open>ListDead\<close>, \<open>Requeue\<close>, \<open>ReclaimExpired\<close>, \<open>PurgeTerminal\<close>,
  \<open>PurgeHistory\<close> and \<open>Stats\<close>.
\<close>

section \<open>History\<close>

definition scanTransition :: "'i env \<Rightarrow> 'i hist_row \<Rightarrow> Transition" where
  "scanTransition e h =
     \<lparr>tr_MessageID = env_str e (h_message_id h), tr_Seq = h_seq h, tr_From = h_from_status h,
      tr_To = h_to_status h, tr_Attempt = h_attempt h, tr_Error = opt_str (h_error h),
      tr_WorkerID = opt_str (h_worker_id h), tr_At = h_at h\<rparr>"

definition pg_History :: "'i env \<Rightarrow> message_id \<Rightarrow> 'i db \<Rightarrow> Transition list \<times> goerr option" where
  "pg_History e ident db =
     (case env_parse e ident of
        Inl er \<Rightarrow> ([], Some (WrapError ''tickr/postgres: history: bad id: '' er))
      | Inr mid \<Rightarrow>
          (case reply_err (env_reply e 0) of
             Some er \<Rightarrow> ([], Some (WrapError ''tickr/postgres: history query: '' er))
           | None \<Rightarrow>
             (map (scanTransition e)
                (sort_key h_seq (filter (\<lambda>h. h_message_id h = mid) (history db))), None)))"

section \<open>Dead-letter queue\<close>

definition dead_match :: "string \<Rightarrow> time \<Rightarrow> 'i msg_row \<Rightarrow> bool" where
  "dead_match et after r \<longleftrightarrow>
     m_status r = StatusDead \<and> (et = '''' \<or> m_event_type r = et) \<and>
     (case m_completed_at r of None \<Rightarrow> False | Some t \<Rightarrow> t > after)"

definition pg_ListDead ::
  "'i env \<Rightarrow> string \<Rightarrow> time \<Rightarrow> int \<Rightarrow> 'i db \<Rightarrow> InboundMessage list \<times> goerr option" where
  "pg_ListDead e et after limit db =
     (let n = (if limit \<le> 0 then 100 else limit) in
      case reply_err (env_reply e 0) of
        Some er \<Rightarrow> ([], Some (WrapError ''tickr/postgres: list dead: '' er))
      | None \<Rightarrow>
        (map (scanMessage e)
           (order_limit (\<lambda>r. - COALESCE (m_completed_at r) 0) n
             (filter (dead_match et after) (messages db))), None))"

definition requeue_match :: "'i \<Rightarrow> 'i msg_row \<Rightarrow> bool" where
  "requeue_match mid r \<longleftrightarrow> m_id r = mid \<and> m_status r = StatusDead"

definition requeue_set :: "time \<Rightarrow> time \<Rightarrow> 'i msg_row \<Rightarrow> 'i msg_row" where
  "requeue_set now processAt r =
     r\<lparr>m_status := StatusCreated, m_attempt := 0, m_process_at := processAt, m_completed_at := None,
       m_last_error := None, m_updated_at := now\<rparr>"

definition requeueSQL :: "time \<Rightarrow> 'i \<Rightarrow> time \<Rightarrow> 'i db \<Rightarrow> 'i db" where
  "requeueSQL now mid processAt db =
     db\<lparr>messages := sql_update (requeue_match mid) (requeue_set now processAt) (messages db)\<rparr>"

definition pg_Requeue :: "'i env \<Rightarrow> message_id \<Rightarrow> time \<Rightarrow> 'i db \<Rightarrow> 'i db \<times> goerr option" where
  "pg_Requeue e ident processAt db =
     (case env_parse e ident of
        Inl er \<Rightarrow> (db, Some (WrapError ''tickr/postgres: requeue: bad id: '' er))
      | Inr mid \<Rightarrow>
          (let pa = default_process_at (env_clock e) processAt;
               db' = run_stmt (env_reply e 0) (requeueSQL (env_now e) mid pa) db
           in case reply_err (env_reply e 0) of
                Some er \<Rightarrow> (db', Some (WrapError ''tickr/postgres: requeue: '' er))
              | None \<Rightarrow>
                  if sql_count (requeue_match mid) (messages db) = 0 then
                    (db', Some (ErrorString ''tickr/postgres: requeue: message not found or not DEAD''))
                  else appendHistory e 1 ident (Some StatusDead) StatusCreated 0 ''manual requeue'' '''' db'))"

section \<open>Reclaim and purge\<close>

definition lease_expired :: "time \<Rightarrow> 'i msg_row \<Rightarrow> bool" where
  "lease_expired now r \<longleftrightarrow> m_status r = StatusHandling \<and>
     (case m_claimed_until r of None \<Rightarrow> False | Some t \<Rightarrow> t < now)"

definition reclaim_set :: "time \<Rightarrow> 'i msg_row \<Rightarrow> 'i msg_row" where
  "reclaim_set now r =
     r\<lparr>m_status := StatusRetrying, m_claimed_until := None, m_claimed_by := None,
       m_last_error := Some (COALESCE (m_last_error r) '''' @ '' [lease expired]''),
       m_process_at := now, m_updated_at := now\<rparr>"

definition reclaim_ids :: "'i env \<Rightarrow> int \<Rightarrow> 'i db \<Rightarrow> 'i list" where
  "reclaim_ids e limit db =
     env_choice e (nat limit)
       (map m_id (filter (\<lambda>r. lease_expired (env_now e) r \<and> \<not> env_locked e (m_id r)) (messages db)))"

definition reclaimSQL :: "'i env \<Rightarrow> int \<Rightarrow> 'i db \<Rightarrow> 'i db" where
  "reclaimSQL e limit db =
     db\<lparr>messages := sql_update (\<lambda>r. m_id r \<in> set (reclaim_ids e limit db)) (reclaim_set (env_now e)) (messages db)\<rparr>"

definition pg_ReclaimExpired :: "'i env \<Rightarrow> int \<Rightarrow> 'i db \<Rightarrow> 'i db \<times> int \<times> goerr option" where
  "pg_ReclaimExpired e limit db =
     (let n = (if limit \<le> 0 then 500 else limit);
          db' = run_stmt (env_reply e 0) (reclaimSQL e n) db
      in case reply_err (env_reply e 0) of
           Some er \<Rightarrow> (db', 0, Some (WrapError ''tickr/postgres: reclaim: '' er))
         | None \<Rightarrow> (db', sql_count (\<lambda>r. m_id r \<in> set (reclaim_ids e n db)) (messages db), None))"

definition purge_match :: "time \<Rightarrow> 'i msg_row \<Rightarrow> bool" where
  "purge_match before r \<longleftrightarrow> (m_status r = StatusSuccess \<or> m_status r = StatusDead) \<and>
     (case m_completed_at r of None \<Rightarrow> False | Some t \<Rightarrow> t < before)"

definition purge_ids :: "time \<Rightarrow> int \<Rightarrow> 'i db \<Rightarrow> 'i list" where
  "purge_ids before limit db =
     map m_id (order_limit (\<lambda>r. COALESCE (m_completed_at r) 0) limit (filter (purge_match before) (messages db)))"

definition purgeSQL :: "time \<Rightarrow> int \<Rightarrow> 'i db \<Rightarrow> 'i db" where
  "purgeSQL before limit db =
     db\<lparr>messages := sql_delete (\<lambda>r. m_id r \<in> set (purge_ids before limit db)) (messages db)\<rparr>"

definition pg_PurgeTerminal :: "'i env \<Rightarrow> time \<Rightarrow> int \<Rightarrow> 'i db \<Rightarrow> 'i db \<times> int \<times> goerr option" where
  "pg_PurgeTerminal e before limit db =
     (let n = (if limit \<le> 0 then 5000 else limit);
          db' = run_stmt (env_reply e 0) (purgeSQL before n) db
      in case reply_err (env_reply e 0) of
           Some er \<Rightarrow> (db', 0, Some (WrapError ''tickr/postgres: purge: '' er))
         | None \<Rightarrow> (db', sql_count (\<lambda>r. m_id r \<in> set (purge_ids before n db)) (messages db), None))"

definition hist_key :: "'i hist_row \<Rightarrow> 'i \<times> int" where
  "hist_key h = (h_message_id h, h_seq h)"

definition purge_history_keys :: "time \<Rightarrow> int \<Rightarrow> 'i db \<Rightarrow> ('i \<times> int) list" where
  "purge_history_keys before limit db =
     map hist_key (order_limit h_at limit (filter (\<lambda>h. h_at h < before) (history db)))"

definition purgeHistorySQL :: "time \<Rightarrow> int \<Rightarrow> 'i db \<Rightarrow> 'i db" where
  "purgeHistorySQL before limit db =
     db\<lparr>history := sql_delete (\<lambda>h. hist_key h \<in> set (purge_history_keys before limit db)) (history db)\<rparr>"

definition pg_PurgeHistory :: "'i env \<Rightarrow> time \<Rightarrow> int \<Rightarrow> 'i db \<Rightarrow> 'i db \<times> int \<times> goerr option" where
  "pg_PurgeHistory e before limit db =
     (let n = (if limit \<le> 0 then 5000 else limit);
          db' = run_stmt (env_reply e 0) (purgeHistorySQL before n) db
      in case reply_err (env_reply e 0) of
           Some er \<Rightarrow> (db', 0, Some (WrapError ''tickr/postgres: purge history: '' er))
         | None \<Rightarrow> (db', sql_count (\<lambda>h. hist_key h \<in> set (purge_history_keys before n db)) (history db), None))"

section \<open>Stats\<close>

definition statsSQL :: "'i msg_row list \<Rightarrow> (string \<times> Status \<times> int) list" where
  "statsSQL rows =
     map (\<lambda>(et, st). (et, st, sql_count (\<lambda>r. m_event_type r = et \<and> m_status r = st) rows))
       (remdups (map (\<lambda>r. (m_event_type r, m_status r)) rows))"

fun stats_row :: "string \<times> Status \<times> int \<Rightarrow> Stats \<Rightarrow> Stats" where
  "stats_row (et, st, count) out =
     out\<lparr>ByStatus := map_set st (map_get st 0 (ByStatus out) + count) (ByStatus out),
         ByEventType := map_set et (map_set st count (map_get et [] (ByEventType out))) (ByEventType out)\<rparr>"

definition pg_Stats :: "'i env \<Rightarrow> 'i db \<Rightarrow> Stats \<times> goerr option" where
  "pg_Stats e db =
     (case reply_err (env_reply e 0) of
        Some er \<Rightarrow> (\<lparr>ByStatus = [], ByEventType = [], SampledAt = 0\<rparr>,
                    Some (WrapError ''tickr/postgres: stats: '' er))
      | None \<Rightarrow>
        (fold stats_row (statsSQL (messages db))
           \<lparr>ByStatus = [], ByEventType = [], SampledAt = env_clock e\<rparr>, None))"

end
