(* ===== verification/Pg_Rows.thy ===== *)
theory Pg_Rows
  imports Pg_Admin
begin

text \<open>
  What one call of the PostgreSQL adapter may do to the rows of \<open>messages\<close>: the relation
  \<open>row_step\<close> between a row and the row it becomes, the edges of the status machine it
  follows, and one lemma per method that the call acts on the table row by row through it.
\<close>

section \<open>What a statement may do to a row\<close>

inductive row_step :: "'i msg_row \<Rightarrow> 'i msg_row \<Rightarrow> bool" where
  row_same: "row_step r r"
| row_claim: "m_status r = StatusCreated \<or> m_status r = StatusRetrying \<Longrightarrow>
    row_step r (claim_set now workerID leaseSec r)"
| row_succeed: "m_status r = StatusHandling \<Longrightarrow> row_step r (succeed_set now r)"
| row_retry: "m_status r = StatusHandling \<Longrightarrow> row_step r (fail_retry_set now errStr nextRetryAt r)"
| row_dead: "m_status r = StatusHandling \<Longrightarrow> row_step r (fail_dead_set now errStr r)"
| row_release: "m_status r = StatusHandling \<Longrightarrow> row_step r (release_set now reason r)"
| row_extend: "m_status r = StatusHandling \<Longrightarrow>
    row_step r (r\<lparr>m_claimed_until := Some until, m_updated_at := now\<rparr>)"
| row_reclaim: "m_status r = StatusHandling \<Longrightarrow> row_step r (reclaim_set now r)"
| row_requeue: "m_status r = StatusDead \<Longrightarrow> row_step r (requeue_set now processAt r)"

lemmas set_defs = claim_set_def succeed_set_def fail_retry_set_def fail_dead_set_def
  release_set_def reclaim_set_def requeue_set_def

text \<open>The arrows of the status machine of ARCHITECTURE.md, with FAILED folded into its successor.\<close>

inductive status_edge :: "Status \<Rightarrow> Status \<Rightarrow> bool" where
  "status_edge StatusCreated StatusHandling"
| "status_edge StatusRetrying StatusHandling"
| "status_edge StatusHandling StatusSuccess"
| "status_edge StatusHandling StatusRetrying"
| "status_edge StatusHandling StatusDead"
| "status_edge StatusDead StatusCreated"

lemma row_step_ok [row_ok_intros]: "row_step r r' \<Longrightarrow> row_ok r \<Longrightarrow> row_ok r'"
  by (induction rule: row_step.induct) (auto simp: row_ok_def set_defs)

lemma row_step_edge: "row_step r r' \<Longrightarrow> m_status r' = m_status r \<or> status_edge (m_status r) (m_status r')"
  by (induction rule: row_step.induct) (auto simp: set_defs intro: status_edge.intros)

definition same_message :: "'i msg_row \<Rightarrow> 'i msg_row \<Rightarrow> bool" where
  "same_message r r' \<longleftrightarrow> m_id r' = m_id r \<and> m_event_type r' = m_event_type r \<and>
     m_payload r' = m_payload r \<and> m_headers r' = m_headers r \<and>
     m_idempotency_key r' = m_idempotency_key r \<and> m_max_attempts r' = m_max_attempts r \<and>
     m_shard r' = m_shard r \<and> m_created_at r' = m_created_at r"

lemma same_message_refl [simp]: "same_message r r"
  by (simp add: same_message_def)

lemma row_step_same: "row_step r r' \<Longrightarrow> same_message r r'"
  by (induction rule: row_step.induct) (auto simp: set_defs same_message_def)

section \<open>Row-wise effect of a statement\<close>

definition rowwise :: "('i msg_row \<Rightarrow> 'i msg_row \<Rightarrow> bool) \<Rightarrow> 'i db \<Rightarrow> 'i db \<Rightarrow> bool" where
  "rowwise R db db' \<longleftrightarrow> list_all2 R (messages db) (messages db') \<and> staged db' = staged db \<and>
     staged_notified db' = staged_notified db \<and> notified db' = notified db"

lemma list_all2_sql_update:
  assumes "\<And>r. R r r" and "\<And>r. r \<in> set rows \<Longrightarrow> p r \<Longrightarrow> R r (f r)"
  shows "list_all2 R rows (sql_update p f rows)"
  using assms by (auto simp: sql_update_def list_all2_map2 intro!: list.rel_refl_strong)

lemma rowwise_update:
  assumes "\<And>r. R r r" and "\<And>r. r \<in> set (messages db) \<Longrightarrow> p r \<Longrightarrow> R r (f r)"
  shows "rowwise R db (db\<lparr>messages := sql_update p f (messages db)\<rparr>)"
    and "rowwise R db (db\<lparr>messages := sql_update p f (messages db), history := h\<rparr>)"
  using assms by (auto simp: rowwise_def intro: list_all2_sql_update)

lemma rowwise_refl: "(\<And>r. R r r) \<Longrightarrow> rowwise R db db"
  by (simp add: rowwise_def list.rel_refl)

lemma rowwise_trans: "transp R \<Longrightarrow> rowwise R a b \<Longrightarrow> rowwise R b c \<Longrightarrow> rowwise R a c"
  by (auto simp: rowwise_def intro: list_all2_trans [where ?P1.0 = R and ?P2.0 = R] dest: transpD)

lemma rowwise_mono: "rowwise R db db' \<Longrightarrow> (\<And>r r'. R r r' \<Longrightarrow> Q r r') \<Longrightarrow> rowwise Q db db'"
  by (auto simp: rowwise_def intro: list_all2_mono)

lemma rowwise_lookup:
  assumes "rowwise R db db'" and "\<And>r r'. R r r' \<Longrightarrow> m_id r' = m_id r"
  shows "rel_option R (row_by m_id i (messages db)) (row_by m_id i (messages db'))"
proof -
  from assms(1) have "list_all2 R (messages db) (messages db')" by (simp add: rowwise_def)
  then show ?thesis by (induction rule: list_all2_induct) (auto simp: assms(2))
qed

lemma rowwise_history [simp]: "rowwise R db (db'\<lparr>history := h\<rparr>) = rowwise R db db'"
  by (simp add: rowwise_def)

lemma run_stmt_rowwise: "(\<And>r. R r r) \<Longrightarrow> rowwise R db (f db) \<Longrightarrow> rowwise R db (run_stmt rep f db)"
  by (cases rep) (auto intro: rowwise_refl)

lemma fold_stmts_inv:
  assumes "\<And>f x. f \<in> set fs \<Longrightarrow> I x \<Longrightarrow> I (f x)" and "I x"
  shows "I (fold (\<lambda>f. f) fs x)"
  using assms by (induction fs arbitrary: x) auto

lemma run_batch_inv:
  assumes "\<And>f x. f \<in> set stmts \<Longrightarrow> I x \<Longrightarrow> I (f x)" and "I db"
  shows "I (fst (run_batch e k we wc stmts reads db))"
  using assms fold_stmts_inv [of stmts I db]
  by (auto simp: run_batch_def run_stmt_def split: option.splits)

lemma set_map_filterD: "f \<in> set (List.map_filter g xs) \<Longrightarrow> \<exists>x\<in>set xs. g x = Some f"
  by (induction xs) (auto simp: List.map_filter_simps split: option.splits)

subsection \<open>Each method\<close>

lemma appendHistorySQL_rowwise [simp]:
  "rowwise R db (appendHistorySQL now mid from to att errStr w db') = rowwise R db db'"
  by (simp add: appendHistorySQL_def)

lemma appendHistoryBatch_rowwise:
  assumes "rowwise R db db'"
  shows "rowwise R db (fst (appendHistoryBatch e k msgs to errStr w db'))"
proof -
  have "rowwise R db (fst (run_batch e k' we wc (List.map_filter (\<lambda>m. map_option
        (\<lambda>mid. appendHistorySQL now mid None to (im_Attempt m) errStr w) (parsed e (im_ID m))) msgs) n db'))"
    for k' we wc now n
    by (rule run_batch_inv [where I = "rowwise R db"]) (auto dest!: set_map_filterD simp: assms)
  with assms show ?thesis by (auto simp: appendHistoryBatch_def split: option.splits)
qed

lemma appendHistory_rowwise:
  "rowwise R db db' \<Longrightarrow> rowwise R db (fst (appendHistory e k ident from to att errStr w db'))"
  by (auto simp: appendHistory_def run_stmt_def split: sum.splits)

lemma claim_ids_eligible:
  assumes "i \<in> set (claim_ids e ets batch shard db)"
  shows "\<exists>r\<in>set (messages db). m_id r = i \<and> claim_eligible e ets shard r \<and> \<not> env_locked e i"
proof -
  let ?el = "filter (\<lambda>r. claim_eligible e ets shard r \<and> \<not> env_locked e (m_id r)) (messages db)"
  from assms obtain r where r: "r \<in> set (order_limit claim_key batch ?el)" "i = m_id r"
    by (auto simp: claim_ids_def)
  from r(1) have "r \<in> set ?el" by (rule subsetD [OF set_order_limit])
  with r(2) show ?thesis by auto
qed

lemma claimSQL_rowwise:
  assumes "distinct (map m_id (messages db))"
  shows "rowwise row_step db (fst (claimSQL e ets batch w leaseSec shard db))"
proof -
  have "row_step r (claim_set (env_now e) w leaseSec r)"
    if r: "r \<in> set (messages db)" "m_id r \<in> set (claim_ids e ets batch shard db)" for r
  proof -
    from claim_ids_eligible [OF r(2)] obtain r' where
      "r' \<in> set (messages db)" "m_id r' = m_id r" and el: "claim_eligible e ets shard r'" by blast
    with r(1) assms have "r' = r" by (metis distinct_map inj_onD)
    with el show ?thesis by (auto simp: claim_eligible_def intro: row_claim)
  qed
  then show ?thesis
    by (auto simp: claimSQL_def Let_def intro!: rowwise_update row_same)
qed

lemma claimSQL_none:
  assumes "snd (claimSQL e ets batch w leaseSec shard db) = []"
  shows "fst (claimSQL e ets batch w leaseSec shard db) = db"
proof -
  let ?ids = "claim_ids e ets batch shard db" and ?f = "claim_set (env_now e) w leaseSec"
  have "m_id r \<notin> set ?ids" if "r \<in> set (messages db)" for r
  proof
    assume i: "m_id r \<in> set ?ids"
    with that have "?f r \<in> set (sql_update (\<lambda>r. m_id r \<in> set ?ids) ?f (messages db))"
      by (force simp: set_sql_update)
    moreover have "m_id (?f r) = m_id r" by (simp add: claim_set_def)
    ultimately show False using assms i by (auto simp: claimSQL_def Let_def filter_empty_conv)
  qed
  then have "sql_update (\<lambda>r. m_id r \<in> set ?ids) ?f (messages db) = messages db"
    by (rule sql_update_none)
  then show ?thesis by (simp add: claimSQL_def Let_def)
qed

lemma claimQuery_rowwise:
  assumes "distinct (map m_id (messages db))"
  shows "rowwise row_step db (fst (claimQuery e k ets batch w leaseSec shard db))"
  using claimSQL_rowwise [OF assms, of e ets batch w leaseSec shard]
  by (auto simp: claimQuery_def split: prod.splits exec_reply.splits intro: rowwise_refl row_same)

lemma claimQuery_none:
  "claimQuery e k ets batch w leaseSec shard db = (db', [], None) \<Longrightarrow> db' = db"
  using claimSQL_none [of e ets batch w leaseSec shard db]
  by (auto simp: claimQuery_def split: prod.splits exec_reply.splits)

text \<open>The two passes of \<open>Claim\<close>: an empty first pass changed nothing, so only one pass writes.\<close>

definition claim_pass ::
  "('i::linorder) env \<Rightarrow> ClaimParams \<Rightarrow> 'i db \<Rightarrow> 'i db \<times> InboundMessage list \<times> goerr option" where
  "claim_pass e p db =
     (let q = (\<lambda>k. claimQuery e k (if cp_EventTypes p = [] then None else Some (cp_EventTypes p))
                (claim_batch (cp_Batch p)) (cp_WorkerID p) (claim_leaseSec (cp_Lease p)))
      in if fst (snd (q 0 (Some (pickShard e 0)) db)) = [] \<and> snd (snd (q 0 (Some (pickShard e 0)) db)) = None
         then q 1 None db else q 0 (Some (pickShard e 0)) db)"

definition claim_finish ::
  "Store \<Rightarrow> 'i env \<Rightarrow> ClaimParams \<Rightarrow> 'i db \<times> InboundMessage list \<times> goerr option
   \<Rightarrow> 'i db \<times> InboundMessage list \<times> goerr option" where
  "claim_finish s e p r = (case r of
     (db', _, Some er) \<Rightarrow> (db', [], Some er)
   | (db', out, None) \<Rightarrow>
       if out \<noteq> [] \<and> historyPolicy s \<noteq> HistoryOff then
         (case appendHistoryBatch e 2 out StatusHandling '''' (cp_WorkerID p) db' of
            (db'', Some er) \<Rightarrow> (db'', out, Some (WrapError ''tickr/postgres: claim history: '' er))
          | (db'', None) \<Rightarrow> (db'', out, None))
       else (db', out, None))"

lemma pg_Claim_pass: "pg_Claim s e p db = claim_finish s e p (claim_pass e p db)"
proof -
  let ?q = "\<lambda>k. claimQuery e k (if cp_EventTypes p = [] then None else Some (cp_EventTypes p))
                (claim_batch (cp_Batch p)) (cp_WorkerID p) (claim_leaseSec (cp_Lease p))"
  obtain db1 out1 err1 where q0: "?q 0 (Some (pickShard e 0)) db = (db1, out1, err1)"
    by (cases "?q 0 (Some (pickShard e 0)) db") auto
  show ?thesis
  proof (cases "out1 = [] \<and> err1 = None")
    case True
    with q0 claimQuery_none [of e 0 _ _ _ _ _ db db1] have "db1 = db" by blast
    with True q0 show ?thesis
      by (simp add: pg_Claim_def claim_pass_def claim_finish_def Let_def split: prod.split option.split)
  next
    case False
    with q0 show ?thesis
      by (cases err1) (auto simp: pg_Claim_def claim_pass_def claim_finish_def Let_def)
  qed
qed

lemma pg_Claim_rowwise:
  assumes "distinct (map m_id (messages db))"
  shows "rowwise row_step db (fst (pg_Claim s e p db))"
proof -
  obtain db' out err where c: "claim_pass e p db = (db', out, err)"
    by (cases "claim_pass e p db") auto
  have "rowwise row_step db (fst (claim_pass e p db))"
    unfolding claim_pass_def Let_def by (simp add: claimQuery_rowwise [OF assms])
  with c have "rowwise row_step db db'" by simp
  then have "rowwise row_step db (fst (claim_finish s e p (db', out, err)))"
    using appendHistoryBatch_rowwise [of row_step db db' e 2 out StatusHandling "''''" "cp_WorkerID p"]
    by (auto simp: claim_finish_def split: option.split prod.split)
  with c show ?thesis by (simp add: pg_Claim_pass)
qed

lemma holds_attempt_update:
  assumes "\<And>r. m_status r = StatusHandling \<Longrightarrow> R r (f r)" and "\<And>r. R r r"
  shows "rowwise R db (db\<lparr>messages := sql_update (holds_attempt mid att) f (messages db)\<rparr>)"
    and "rowwise R db (db\<lparr>messages := sql_update (holds_attempt mid att) f (messages db), history := h\<rparr>)"
  using assms by (auto simp: holds_attempt_def intro!: rowwise_update)

text \<open>
  The statements of a succeeding batch run at one \<open>now()\<close>, and a row that one of them
  completed is no longer \<open>HANDLING\<close> for the next: on every row the batch acts at most once.
\<close>

definition succeed_once :: "time \<Rightarrow> 'i msg_row \<Rightarrow> 'i msg_row \<Rightarrow> bool" where
  "succeed_once now r r' \<longleftrightarrow> r' = r \<or> m_status r = StatusHandling \<and> r' = succeed_set now r"

lemma succeed_once_transp: "transp (succeed_once now)"
  by (auto simp: transp_def succeed_once_def succeed_set_def)

lemma succeed_once_step: "succeed_once now r r' \<Longrightarrow> row_step r r'"
  by (auto simp: succeed_once_def intro: row_step.intros)

lemma succeedSQL_once:
  "rowwise (succeed_once now) db (succeedNoHistorySQL now mid att db)"
  "rowwise (succeed_once now) db (succeedSQL now mid att w db)"
proof -
  have "rowwise (succeed_once now) db
      (db\<lparr>messages := sql_update (holds_attempt mid att) (succeed_set now) (messages db)\<rparr>)"
    by (rule holds_attempt_update(1)) (auto simp: succeed_once_def)
  then show "rowwise (succeed_once now) db (succeedNoHistorySQL now mid att db)"
    and "rowwise (succeed_once now) db (succeedSQL now mid att w db)"
    by (simp_all add: succeedNoHistorySQL_def succeedSQL_def Let_def rowwise_def)
qed

lemma pg_Succeed_rowwise: "rowwise row_step db (fst (pg_Succeed s e ident att w db))"
proof -
  have "rowwise row_step db (succeedNoHistorySQL now mid att db)"
    "rowwise row_step db (succeedSQL now mid att w db)" for now mid
    by (rule rowwise_mono [OF succeedSQL_once(1) succeed_once_step], assumption)
       (rule rowwise_mono [OF succeedSQL_once(2) succeed_once_step], assumption)
  then show ?thesis
    by (auto simp: pg_Succeed_def Let_def intro!: run_stmt_rowwise rowwise_refl row_same split: sum.splits)
qed

lemma pg_BatchSucceed_once: "rowwise (succeed_once (env_now e)) db (fst (pg_BatchSucceed s e params db))"
proof -
  let ?R = "succeed_once (env_now e)"
  have refl: "rowwise ?R db db" by (rule rowwise_refl) (simp add: succeed_once_def)
  have step: "rowwise ?R db (if b then succeedNoHistorySQL (env_now e) mid att x
      else succeedSQL (env_now e) mid att w x)" if "rowwise ?R db x" for b mid att w x
    by (cases b) (auto intro: rowwise_trans [OF succeed_once_transp that] succeedSQL_once)
  have "rowwise ?R db (fst (run_batch e k we wc (List.map_filter (\<lambda>p. map_option
      (\<lambda>mid. if historyPolicy s = HistoryOff then succeedNoHistorySQL (env_now e) mid (bs_Attempt p)
             else succeedSQL (env_now e) mid (bs_Attempt p) (bs_WorkerID p))
      (parsed e (bs_MessageID p))) params) n db))" for k we wc n
    by (rule run_batch_inv [where I = "rowwise ?R db"])
       (use step [of _ "historyPolicy s = HistoryOff"] refl in \<open>auto dest!: set_map_filterD split: if_splits\<close>)
  with refl show ?thesis by (auto simp: pg_BatchSucceed_def Let_def split: option.splits)
qed

lemma pg_BatchSucceed_rowwise: "rowwise row_step db (fst (pg_BatchSucceed s e params db))"
  using pg_BatchSucceed_once succeed_once_step by (rule rowwise_mono)

lemma pg_Fail_rowwise: "rowwise row_step db (fst (pg_Fail s e p db))"
  by (auto simp: pg_Fail_def Let_def failRetrySQL_def failDeadSQL_def failRetryNoHistorySQL_def
      failDeadNoHistorySQL_def split: sum.splits
      intro!: run_stmt_rowwise rowwise_refl holds_attempt_update row_step.intros)

lemma pg_ReleaseShutdown_rowwise: "rowwise row_step db (fst (pg_ReleaseShutdown s e ident att w reason db))"
  by (auto simp: pg_ReleaseShutdown_def Let_def releaseShutdownSQL_def releaseShutdownNoHistorySQL_def
      split: sum.splits intro!: run_stmt_rowwise rowwise_refl holds_attempt_update row_step.intros)

lemma pg_Extend_rowwise: "rowwise row_step db (fst (pg_Extend e ident w until db))"
proof -
  have "rowwise row_step db (extendSQL now mid w until db)" for now mid
    unfolding extendSQL_def
    by (rule rowwise_update) (auto simp: extend_match_def intro: row_step.intros)
  then show ?thesis
    by (auto simp: pg_Extend_def Let_def split: sum.splits option.splits
        intro!: run_stmt_rowwise rowwise_refl row_same)
qed

lemma pg_Requeue_rowwise: "rowwise row_step db (fst (pg_Requeue e ident processAt db))"
proof -
  have r: "rowwise row_step db (requeueSQL now mid t db)" for now mid t
    unfolding requeueSQL_def
    by (rule rowwise_update) (auto simp: requeue_match_def intro: row_step.intros)
  then show ?thesis
    by (auto simp: pg_Requeue_def Let_def split: sum.splits option.splits
        intro!: run_stmt_rowwise appendHistory_rowwise rowwise_refl row_same)
qed

text \<open>A row whose identifier the reclaim query returned has an expired lease, as identifiers are unique.\<close>

lemma reclaim_ids_expired:
  assumes "env_ok e" "distinct (map m_id (messages db))" "r \<in> set (messages db)"
    "m_id r \<in> set (reclaim_ids e n db)"
  shows "lease_expired (env_now e) r \<and> \<not> env_locked e (m_id r)"
proof -
  have "limit_choice (env_choice e)" using assms(1) by (simp add: env_ok_def)
  with assms(4) obtain r' where r': "r' \<in> set (messages db)" "m_id r' = m_id r"
      "lease_expired (env_now e) r'" "\<not> env_locked e (m_id r')"
    by (fastforce simp: reclaim_ids_def dest!: subsetD [OF limit_choiceD(1)])
  with assms(2,3) have "r' = r" by (metis distinct_map inj_onD)
  with r' show ?thesis by simp
qed

lemma pg_ReclaimExpired_rowwise:
  assumes "env_ok e" "distinct (map m_id (messages db))"
  shows "rowwise row_step db (fst (pg_ReclaimExpired e limit db))"
proof -
  have "rowwise row_step db (reclaimSQL e n db)" for n
    unfolding reclaimSQL_def
    by (rule rowwise_update)
       (auto dest!: reclaim_ids_expired [OF assms] simp: lease_expired_def intro: row_step.intros)
  then show ?thesis
    by (auto simp: pg_ReclaimExpired_def Let_def split: option.splits
        intro!: run_stmt_rowwise rowwise_refl row_same)
qed

end
