(* ===== verification/Pg_Machine.thy ===== *)
theory Pg_Machine
  imports Pg_Rows "HOL-Library.Multiset"
begin

text \<open>
  The PostgreSQL adapter as a state machine: how calls extend the history table
  (\<open>hist_grows\<close>), the invariant of the two tables and of the caller's open transaction
  (\<open>db_ok\<close>), the step relation whose rules are the adapter's methods in any environment
  (\<open>pg_step\<close>), and the invariant by rule induction over the reachable databases.
\<close>

section \<open>Growth of the history table\<close>

definition hist_grows :: "'i db \<Rightarrow> 'i db \<Rightarrow> bool" where
  "hist_grows db db' \<longleftrightarrow> (\<exists>hs. history db' = history db @ hs) \<and> (hist_ok (history db) \<longrightarrow> hist_ok (history db'))"

lemma hist_grows_same: "history db' = history db \<Longrightarrow> hist_grows db db'"
  by (simp add: hist_grows_def)

lemma hist_grows_refl [simp]: "hist_grows db db"
  by (simp add: hist_grows_def)

lemma hist_grows_trans: "hist_grows a b \<Longrightarrow> hist_grows b c \<Longrightarrow> hist_grows a c"
  by (auto simp: hist_grows_def)

lemma hist_grows_messages [simp]: "hist_grows db (db\<lparr>messages := ms\<rparr>)"
  by (simp add: hist_grows_def)

lemma hist_grows_snoc [simp]:
  "hist_grows db (db\<lparr>history := history db @ [mk_hist mid (next_seq mid (history db)) f t a er w tm]\<rparr>)"
  "hist_grows db (db\<lparr>messages := ms, history := history db @ [mk_hist mid (next_seq mid (history db)) f t a er w tm]\<rparr>)"
  by (simp_all add: hist_grows_def hist_ok_append_next)

lemma hist_grows_run_stmt: "hist_grows db (f db) \<Longrightarrow> hist_grows db (run_stmt rep f db)"
  by (cases rep) auto

lemma appendHistorySQL_grows: "hist_grows db (appendHistorySQL now mid from to att er w db)"
  by (simp add: appendHistorySQL_def)

lemma appendHistory_grows: "hist_grows db (fst (appendHistory e k ident from to att er w db))"
  by (auto simp: appendHistory_def appendHistorySQL_grows hist_grows_run_stmt split: sum.splits)

lemma appendHistoryBatch_grows: "hist_grows db (fst (appendHistoryBatch e k msgs to er w db))"
proof -
  have "hist_grows db (fst (run_batch e k' we wc (List.map_filter (\<lambda>m. map_option
      (\<lambda>mid. appendHistorySQL (env_now e) mid None to (im_Attempt m) er w) (parsed e (im_ID m))) msgs) n db))"
    for k' we wc n
    by (rule run_batch_inv [where I = "hist_grows db"])
       (auto dest!: set_map_filterD intro: hist_grows_trans appendHistorySQL_grows)
  then show ?thesis by (auto simp: appendHistoryBatch_def split: option.splits)
qed

text \<open>The statement's guard selects at most one row, so a statement writes at most one row of history per entry.\<close>

lemma filter_one_id:
  assumes "distinct (map m_id rows)" and "\<And>r. p r \<Longrightarrow> m_id r = mid"
  shows "filter p rows = [] \<or> (\<exists>u. filter p rows = [u] \<and> p u \<and> m_id u = mid)"
  using assms(1)
proof (induction rows)
  case (Cons r rows)
  show ?case
  proof (cases "p r")
    case True
    have "filter p rows = []"
    proof (rule filter_False, rule ballI, rule notI)
      fix x assume "x \<in> set rows" "p x"
      then have "m_id r \<in> set (map m_id rows)" using assms(2) [OF True] assms(2) [of x] by (metis image_eqI list.set_map)
      then show False using Cons.prems by simp
    qed
    with True assms(2) [OF True] show ?thesis by simp
  next
    case False
    with Cons show ?thesis by simp
  qed
qed simp

lemmas filter_holds_attempt = filter_one_id [where p = "holds_attempt mid att" and mid = mid for mid att]

lemma succeedSQL_grows:
  assumes "distinct (map m_id (messages db))"
  shows "hist_grows db (succeedSQL now mid att w db)"
  using filter_holds_attempt [OF assms, of mid att]
  by (auto simp: succeedSQL_def Let_def holds_attempt_def)

lemma fail_history_grows:
  assumes "distinct (map m_id (messages db))"
  shows "hist_grows db (db\<lparr>messages := ms, history := history db @ fail_history now mid att er w to db\<rparr>)"
proof -
  define sq where "sq = next_seq mid (history db)"
  define h where "h = mk_hist mid sq (Some StatusHandling) StatusFailed att (NULLIF_empty er) (NULLIF_empty w) now"
  have sq1: "next_seq mid (history db @ [h]) = sq + 1"
    using next_seq_snoc [of h mid "history db"] by (simp add: h_def sq_def)
  have ok1: "hist_ok (history db) \<Longrightarrow> hist_ok (history db @ [h])"
    by (rule hist_ok_append_next) (simp_all add: h_def sq_def)
  have ok2: "hist_ok (history db) \<Longrightarrow> hist_ok ((history db @ [h]) @ [mk_hist mid (sq + 1) f t a e' w' tm])"
    for f t a e' w' tm
    by (rule hist_ok_append_next) (use ok1 sq1 in simp_all)
  consider "filter (holds_attempt mid att) (messages db) = []"
    | u where "filter (holds_attempt mid att) (messages db) = [u]"
    using filter_holds_attempt [OF assms, of mid att] by (auto simp: holds_attempt_def)
  then show ?thesis
    by cases (use ok1 ok2 in \<open>simp_all add: hist_grows_def fail_history_def Let_def flip: sq_def h_def\<close>)
qed

lemma pg_Succeed_grows:
  "distinct (map m_id (messages db)) \<Longrightarrow> hist_grows db (fst (pg_Succeed s e ident att w db))"
  by (auto simp: pg_Succeed_def Let_def succeedNoHistorySQL_def split: sum.splits
      intro!: hist_grows_run_stmt succeedSQL_grows)

lemma pg_Fail_grows:
  "distinct (map m_id (messages db)) \<Longrightarrow> hist_grows db (fst (pg_Fail s e p db))"
  by (auto simp: pg_Fail_def Let_def failRetrySQL_def failDeadSQL_def failRetryNoHistorySQL_def
      failDeadNoHistorySQL_def split: sum.splits intro!: hist_grows_run_stmt fail_history_grows)

lemma pg_ReleaseShutdown_grows:
  assumes "distinct (map m_id (messages db))"
  shows "hist_grows db (fst (pg_ReleaseShutdown s e ident att w reason db))"
proof -
  have "hist_grows db (releaseShutdownSQL now mid att reason w db)" for now mid
    using filter_holds_attempt [OF assms, of mid att]
    by (auto simp: releaseShutdownSQL_def Let_def release_set_def holds_attempt_def)
  then show ?thesis
    by (auto simp: pg_ReleaseShutdown_def Let_def releaseShutdownNoHistorySQL_def split: sum.splits
        intro!: hist_grows_run_stmt)
qed

text \<open>A batch keeps the identifiers, so each of its statements meets the precondition of the previous lemmas.\<close>

lemma rowwise_ids:
  assumes "rowwise R db db'" "\<And>r r'. R r r' \<Longrightarrow> same_message r r'"
  shows "map m_id (messages db') = map m_id (messages db)"
proof -
  from assms(1) have "list_all2 R (messages db) (messages db')" by (simp add: rowwise_def)
  then show ?thesis
    by (induction rule: list_all2_induct) (use assms(2) in \<open>auto simp: same_message_def\<close>)
qed

lemma pg_BatchSucceed_grows:
  assumes "distinct (map m_id (messages db))"
  shows "hist_grows db (fst (pg_BatchSucceed s e params db))"
proof -
  let ?I = "\<lambda>x. rowwise (succeed_once (env_now e)) db x \<and> hist_grows db x"
  have refl: "?I db" by (auto intro: rowwise_refl simp: succeed_once_def)
  have "?I (if historyPolicy s = HistoryOff then succeedNoHistorySQL (env_now e) mid att x
      else succeedSQL (env_now e) mid att w x)" if "?I x" for mid att w x
  proof -
    have "map m_id (messages x) = map m_id (messages db)"
      using that by (intro rowwise_ids [where R = "succeed_once (env_now e)"])
        (auto dest: succeed_once_step row_step_same)
    with assms have "hist_grows x (succeedSQL (env_now e) mid att w x)" by (simp add: succeedSQL_grows)
    moreover have "hist_grows x (succeedNoHistorySQL (env_now e) mid att x)"
      by (simp add: succeedNoHistorySQL_def)
    ultimately show ?thesis
      using that by (auto intro: hist_grows_trans rowwise_trans [OF succeed_once_transp] succeedSQL_once)
  qed
  then have "?I (fst (run_batch e k we wc (List.map_filter (\<lambda>p. map_option
      (\<lambda>mid. if historyPolicy s = HistoryOff then succeedNoHistorySQL (env_now e) mid (bs_Attempt p)
             else succeedSQL (env_now e) mid (bs_Attempt p) (bs_WorkerID p))
      (parsed e (bs_MessageID p))) params) n db))" for k we wc n
    using refl by (intro run_batch_inv [where I = ?I]) (auto dest!: set_map_filterD split: if_splits)
  with refl show ?thesis by (auto simp: pg_BatchSucceed_def Let_def split: option.splits)
qed

lemma claimQuery_history: "history (fst (claimQuery e k ets batch w leaseSec shard db)) = history db"
  by (auto simp: claimQuery_def claimSQL_def Let_def split: exec_reply.splits)

lemma pg_Claim_grows: "hist_grows db (fst (pg_Claim s e p db))"
proof -
  obtain db' out err where c: "claim_pass e p db = (db', out, err)"
    by (cases "claim_pass e p db") auto
  have "history (fst (claim_pass e p db)) = history db"
    unfolding claim_pass_def Let_def by (simp add: claimQuery_history)
  with c have "hist_grows db db'" by (simp add: hist_grows_same)
  then have "hist_grows db (fst (claim_finish s e p (db', out, err)))"
    using appendHistoryBatch_grows [of db' e 2 out StatusHandling "''''" "cp_WorkerID p"]
    by (auto simp: claim_finish_def split: option.split prod.split dest: hist_grows_trans)
  with c show ?thesis by (simp add: pg_Claim_pass)
qed

lemma pg_Requeue_grows: "hist_grows db (fst (pg_Requeue e ident processAt db))"
proof -
  have "hist_grows db (run_stmt rep (requeueSQL now mid t) db)" for rep now mid t
    by (rule hist_grows_run_stmt) (simp add: requeueSQL_def)
  then show ?thesis
    by (auto simp: pg_Requeue_def Let_def split: sum.splits option.splits
        intro: hist_grows_trans [OF _ appendHistory_grows])
qed

section \<open>The invariant of the database\<close>

text \<open>
  Over the committed rows together with the rows the caller's transaction has staged:
  identifiers are unique, every row is well formed, at most one row carries an idempotency key
  of an event type (in the schema without partitions), staged rows have not been claimed, and
  the history has one entry per message and sequence number.
\<close>

definition db_ok :: "Store \<Rightarrow> 'i db \<Rightarrow> bool" where
  "db_ok s db \<longleftrightarrow>
     distinct (map m_id (messages db @ staged db)) \<and>
     (\<forall>r\<in>set (messages db @ staged db). row_ok r) \<and>
     (\<not> partitioned s \<longrightarrow> idem_unique (messages db @ staged db)) \<and>
     (\<forall>r\<in>set (staged db). m_status r = StatusCreated) \<and>
     hist_ok (history db)"

lemma db_ok_distinct: "db_ok s db \<Longrightarrow> distinct (map m_id (messages db))"
  by (simp add: db_ok_def)

lemma db_ok_row: "db_ok s db \<Longrightarrow> r \<in> set (messages db) \<Longrightarrow> row_ok r"
  by (simp add: db_ok_def)

lemma db_ok_empty: "db_ok s empty_db"
  by (simp add: db_ok_def empty_db_def idem_unique_def hist_ok_def)

lemma idem_unique_perm: "mset rows = mset rows' \<Longrightarrow> idem_unique rows = idem_unique rows'"
  unfolding idem_unique_def by (intro mset_eq_imp_distinct_iff) simp

lemma idem_unique_rowwise:
  assumes "list_all2 R rows rows'" "\<And>r r'. R r r' \<Longrightarrow> same_message r r'"
  shows "idem_unique (rows' @ st) = idem_unique (rows @ st)"
proof -
  let ?k = "\<lambda>r. (m_event_type r, m_idempotency_key r)" and ?q = "\<lambda>r. m_idempotency_key r \<noteq> None"
  from assms(1) have "map ?k (filter ?q rows') = map ?k (filter ?q rows)"
    by (induction rule: list_all2_induct) (use assms(2) in \<open>auto simp: same_message_def\<close>)
  then have "map ?k (filter ?q (rows' @ st)) = map ?k (filter ?q (rows @ st))" by simp
  then show ?thesis by (simp only: idem_unique_def)
qed

lemma list_all2_row_ok: "list_all2 row_step rows rows' \<Longrightarrow> \<forall>r\<in>set rows. row_ok r \<Longrightarrow> \<forall>r\<in>set rows'. row_ok r"
  by (induction rule: list_all2_induct) (auto intro: row_step_ok)

lemma rowwise_db_ok:
  assumes "db_ok s db" "rowwise row_step db db'" "hist_grows db db'"
  shows "db_ok s db'"
proof -
  from assms(2) have st: "staged db' = staged db" and l: "list_all2 row_step (messages db) (messages db')"
    by (simp_all add: rowwise_def)
  have ids: "map m_id (messages db') = map m_id (messages db)"
    by (rule rowwise_ids [OF assms(2) row_step_same])
  then have "m_id ` set (messages db') = m_id ` set (messages db)" by (metis list.set_map)
  moreover have "\<forall>r\<in>set (messages db'). row_ok r"
    using list_all2_row_ok [OF l] assms(1) by (simp add: db_ok_def)
  moreover have "idem_unique (messages db' @ staged db) = idem_unique (messages db @ staged db)"
    by (rule idem_unique_rowwise [OF l row_step_same])
  ultimately show ?thesis using assms(1,3) ids by (auto simp: db_ok_def hist_grows_def st)
qed

subsection \<open>Inserts\<close>

text \<open>
  An insert on the pool that meets an uncommitted row of another transaction waits for it, so
  it is not a step; identifiers are new, which the primary key of the partitioned schema does
  not enforce across partitions.
\<close>

definition insert_waits :: "Store \<Rightarrow> querier \<Rightarrow> 'i msg_row \<Rightarrow> 'i db \<Rightarrow> bool" where
  "insert_waits s q r db \<longleftrightarrow> q = PoolQuerier \<and> list_ex (\<lambda>r'. conflicts s r r' \<or> pk_clash s r r') (staged db)"

definition fresh_id :: "Store \<Rightarrow> 'i msg_row \<Rightarrow> 'i db \<Rightarrow> bool" where
  "fresh_id s r db \<longleftrightarrow> (partitioned s \<longrightarrow> m_id r \<notin> m_id ` set (messages db @ staged db))"

lemma enqueue_row_ok:
  "1 \<le> maxAttempts \<Longrightarrow> row_ok (enqueue_row e k maxAttempts t p) \<and> m_status (enqueue_row e k maxAttempts t p) = StatusCreated"
  using pickShard_range [of e k] by (simp add: row_ok_def enqueue_row_def NULLIF_empty_def)

lemma inserted_no_conflict:
  assumes "insertSQL s q r db = Inserted" "\<not> insert_waits s q r db" "fresh_id s r db"
  shows "m_id r \<notin> m_id ` set (messages db @ staged db)"
    and "\<not> partitioned s \<Longrightarrow> m_idempotency_key r \<noteq> None \<Longrightarrow> r' \<in> set (messages db @ staged db) \<Longrightarrow>
      m_idempotency_key r' = m_idempotency_key r \<Longrightarrow> m_event_type r' \<noteq> m_event_type r"
  using assms
  by (auto simp: insertSQL_def insert_waits_def fresh_id_def q_rows_def conflicts_def pk_clash_def
      list_ex_iff split: if_splits querier.splits)

lemma q_insert_db_ok:
  assumes "db_ok s db" "insertSQL s q r db = Inserted" "\<not> insert_waits s q r db" "fresh_id s r db"
    "row_ok r" "m_status r = StatusCreated"
  shows "db_ok s (q_insert q r db)"
proof -
  let ?all = "messages db @ staged db"
  let ?db' = "q_insert q r db"
  have perm: "mset (messages ?db' @ staged ?db') = mset (?all @ [r])"
    and sets: "set (messages ?db' @ staged ?db') = insert r (set ?all)"
    by (cases q; simp add: q_insert_def)+
  note nc = inserted_no_conflict [OF assms(2-4)]
  have "distinct (map m_id (?all @ [r]))" using assms(1) nc(1) by (auto simp: db_ok_def)
  moreover have "mset (map m_id (messages ?db' @ staged ?db')) = mset (map m_id (?all @ [r]))"
    using perm by (simp only: mset_map)
  ultimately have 1: "distinct (map m_id (messages ?db' @ staged ?db'))"
    by (metis mset_eq_imp_distinct_iff)
  have "idem_unique (?all @ [r])" if "\<not> partitioned s"
    using assms(1) nc(2) [OF that] that unfolding idem_unique_snoc by (simp add: db_ok_def)
  then have 2: "\<not> partitioned s \<Longrightarrow> idem_unique (messages ?db' @ staged ?db')"
    using idem_unique_perm [OF perm] by simp
  have 3: "\<forall>x\<in>set (messages ?db' @ staged ?db'). row_ok x"
    unfolding sets using assms(1,5) by (simp add: db_ok_def)
  have "\<forall>x\<in>set (staged ?db'). m_status x = StatusCreated" "history ?db' = history db"
    using assms(1,6) by (cases q; auto simp: q_insert_def db_ok_def)+
  with 1 2 3 assms(1) show ?thesis unfolding db_ok_def by simp
qed

lemma db_ok_notify [simp]:
  "db_ok s (fst (notifyEnqueue s' e k tx et db)) = db_ok s db"
proof -
  have "db_ok s (q_notify q et db) = db_ok s db" for q by (cases q) (simp_all add: q_notify_def db_ok_def)
  then show ?thesis
    by (cases "env_reply e k") (simp_all add: notifyEnqueue_def pg_Notify_def)
qed

definition enqueue_of :: "'i env \<Rightarrow> nat \<Rightarrow> EnqueueParams \<Rightarrow> 'i msg_row" where
  "enqueue_of e k p = enqueue_row e k (default_max_attempts (ep_MaxAttempts p))
     (default_process_at (env_clock e) (ep_ProcessAt p)) p"

lemma enqueue_of_ok: "row_ok (enqueue_of e k p) \<and> m_status (enqueue_of e k p) = StatusCreated"
  unfolding enqueue_of_def by (rule enqueue_row_ok) (simp add: default_max_attempts_def)

lemma pg_Enqueue_db: "fst (pg_Enqueue s e tx p db) \<in> {db, fst (enqueue_insert s e tx p (enqueue_of e 0 p) db)}"
  unfolding pg_Enqueue_def Let_def enqueue_of_def
  by (cases "findByIdempotency e 0 (pg_querier tx) (ep_EventType p) (ep_IdempotencyKey p) db")
     (simp split: option.split)

lemma enqueue_insert_db:
  "fst (enqueue_insert s e tx p r db) = db \<or>
   insertSQL s (pg_querier tx) r db = Inserted \<and>
   fst (enqueue_insert s e tx p r db) \<in> {q_insert (pg_querier tx) r db,
     fst (notifyEnqueue s e 2 tx (ep_EventType p) (q_insert (pg_querier tx) r db))}"
  by (cases "findByIdempotency e 3 (pg_querier tx) (ep_EventType p) (ep_IdempotencyKey p) db")
     (simp add: enqueue_insert_def Let_def split: option.split exec_reply.split insert_result.split prod.split)

lemma pg_Enqueue_cases:
  obtains (unchanged) "fst (pg_Enqueue s e tx p db) = db"
  | (inserted) "insertSQL s (pg_querier tx) (enqueue_of e 0 p) db = Inserted"
      "fst (pg_Enqueue s e tx p db) = q_insert (pg_querier tx) (enqueue_of e 0 p) db"
  | (notified) "insertSQL s (pg_querier tx) (enqueue_of e 0 p) db = Inserted"
      "fst (pg_Enqueue s e tx p db) =
         fst (notifyEnqueue s e 2 tx (ep_EventType p) (q_insert (pg_querier tx) (enqueue_of e 0 p) db))"
  using pg_Enqueue_db [of s e tx p db] enqueue_insert_db [of s e tx p "enqueue_of e 0 p" db] by fastforce

lemma pg_Enqueue_db_ok:
  assumes "db_ok s db" "\<not> insert_waits s (pg_querier tx) (enqueue_of e 0 p) db" "fresh_id s (enqueue_of e 0 p) db"
  shows "db_ok s (fst (pg_Enqueue s e tx p db))"
  using q_insert_db_ok [OF assms(1) _ assms(2,3)] assms(1) enqueue_of_ok [of e 0 p]
  by (cases rule: pg_Enqueue_cases [of s e tx p db]) simp_all

text \<open>The same for every row of a batch, whose identifiers are drawn one by one.\<close>

definition fresh_ids :: "Store \<Rightarrow> 'i msg_row list \<Rightarrow> 'i db \<Rightarrow> bool" where
  "fresh_ids s rs db \<longleftrightarrow> distinct (map m_id rs) \<and> (\<forall>r\<in>set rs. fresh_id s r db)"

lemma insert_waits_q_insert: "insert_waits s q r (q_insert q r' db) = insert_waits s q r db"
  by (cases q) (simp_all add: insert_waits_def q_insert_def)

lemma fresh_id_q_insert:
  "fresh_id s r db \<Longrightarrow> m_id r \<noteq> m_id r' \<Longrightarrow> fresh_id s r (q_insert q r' db)"
  by (cases q) (auto simp: fresh_id_def q_insert_def)

lemma batchInsertSQL_db_ok:
  assumes "batchInsertSQL s q rs db = Some (db', ins)" "db_ok s db"
    "\<forall>r\<in>set rs. row_ok r \<and> m_status r = StatusCreated \<and> \<not> insert_waits s q r db" "fresh_ids s rs db"
  shows "db_ok s db'"
  using assms
proof (induction s q rs db arbitrary: db' ins rule: batchInsertSQL.induct)
  case (2 s q r rs db)
  have fr: "fresh_ids s rs db" "fresh_ids s rs (q_insert q r db)"
    using "2.prems"(4) by (auto simp: fresh_ids_def image_iff intro!: fresh_id_q_insert)
  show ?case
  proof (cases "insertSQL s q r db")
    case Inserted
    have "db_ok s (q_insert q r db)"
      using "2.prems" Inserted by (intro q_insert_db_ok) (auto simp: fresh_ids_def)
    with "2.IH"(1) [OF Inserted] "2.prems" Inserted fr(2) show ?thesis
      by (auto simp: insert_waits_q_insert)
  next
    case Skipped
    with "2.IH"(2) [OF Skipped] "2.prems" fr(1) show ?thesis by simp
  next
    case Refused
    with "2.prems"(1) show ?thesis by simp
  qed
qed simp

lemma batch_rows_enqueue_of: "batch_rows e ips = map (\<lambda>(i, p). enqueue_of e i p) ips"
  by (simp add: batch_rows_def enqueue_of_def)

lemma pg_EnqueueBatch_cases:
  obtains (unchanged) "fst (pg_EnqueueBatch s e tx ps db) = db"
  | (inserted) db1 ins where
      "batchInsertSQL s (pg_querier tx) (batch_rows e (enumerate 0 ps)) db = Some (db1, ins)"
      "fst (pg_EnqueueBatch s e tx ps db) = db1"
  | (notified) db1 ins where
      "batchInsertSQL s (pg_querier tx) (batch_rows e (enumerate 0 ps)) db = Some (db1, ins)"
      "fst (pg_EnqueueBatch s e tx ps db) = fst (notifyEnqueue s e 2 tx (ep_EventType (hd ps)) db1)"
proof (cases "batchInsertSQL s (pg_querier tx) (batch_rows e (enumerate 0 ps)) db")
  case None
  then have "fst (pg_EnqueueBatch s e tx ps db) = db"
    by (simp add: pg_EnqueueBatch_def Let_def split: exec_reply.split)
  then show ?thesis by (rule unchanged)
next
  case (Some a)
  obtain db1 ins where a: "a = (db1, ins)" by fastforce
  obtain out err ret where c: "batch_collect e (pg_querier tx) db1 (index_inserted e ins) (enumerate 0 ps) None = (out, err, ret)"
    using prod_cases3 by blast
  obtain db2 ne where n: "notifyEnqueue s e 2 tx (ep_EventType (hd ps)) db1 = (db2, ne)" by fastforce
  have "fst (pg_EnqueueBatch s e tx ps db) \<in> {db, db1, db2}"
    using Some a c n by (simp add: pg_EnqueueBatch_def Let_def split: exec_reply.split option.split bool.split)
  with Some a n show ?thesis using unchanged inserted notified by auto
qed

lemma pg_EnqueueBatch_db_ok:
  assumes "db_ok s db" "fresh_ids s (batch_rows e (enumerate 0 ps)) db"
    "\<forall>r\<in>set (batch_rows e (enumerate 0 ps)). \<not> insert_waits s (pg_querier tx) r db"
  shows "db_ok s (fst (pg_EnqueueBatch s e tx ps db))"
proof -
  have "\<forall>r\<in>set (batch_rows e (enumerate 0 ps)). row_ok r \<and> m_status r = StatusCreated \<and>
      \<not> insert_waits s (pg_querier tx) r db"
    using assms(3) enqueue_of_ok by (auto simp: batch_rows_enqueue_of)
  then show ?thesis
    using assms(1) batchInsertSQL_db_ok [OF _ assms(1) _ assms(2)]
    by (cases rule: pg_EnqueueBatch_cases [of s e tx ps db]) auto
qed

subsection \<open>Deletes, commit and rollback\<close>

lemma pg_PurgeTerminal_db: "fst (pg_PurgeTerminal e before limit db) \<in> {db, purgeSQL before (if limit \<le> 0 then 5000 else limit) db}"
  by (auto simp: pg_PurgeTerminal_def Let_def run_stmt_def split: option.splits)

lemma idem_unique_append:
  "idem_unique (xs @ ys) \<longleftrightarrow> idem_unique xs \<and> idem_unique ys \<and>
     (\<forall>x\<in>set xs. \<forall>y\<in>set ys. m_idempotency_key x \<noteq> None \<longrightarrow> m_idempotency_key y = m_idempotency_key x \<longrightarrow>
        m_event_type y \<noteq> m_event_type x)"
proof -
  let ?k = "\<lambda>r. (m_event_type r, m_idempotency_key r)" and ?q = "\<lambda>r. m_idempotency_key r \<noteq> None"
  let ?ks = "\<lambda>rows. ?k ` {r \<in> set rows. ?q r}"
  have "?ks xs \<inter> ?ks ys = {} \<longleftrightarrow>
    (\<forall>x\<in>set xs. \<forall>y\<in>set ys. ?q x \<longrightarrow> m_idempotency_key y = m_idempotency_key x \<longrightarrow> m_event_type y \<noteq> m_event_type x)"
    (is "?l \<longleftrightarrow> ?r")
  proof
    assume ?l
    show ?r
    proof (intro ballI impI notI)
      fix x y
      assume xy: "x \<in> set xs" "y \<in> set ys" "?q x" "m_idempotency_key y = m_idempotency_key x"
        "m_event_type y = m_event_type x"
      then have "?k x \<in> ?ks xs" by blast
      moreover have "?q y" "?k x = ?k y" using xy by simp_all
      then have "?k x \<in> ?ks ys" using xy(2) by blast
      ultimately show False using \<open>?l\<close> by blast
    qed
  qed (auto, metis)
  then have "set (map ?k (filter ?q xs)) \<inter> set (map ?k (filter ?q ys)) = {} \<longleftrightarrow>
    (\<forall>x\<in>set xs. \<forall>y\<in>set ys. ?q x \<longrightarrow> m_idempotency_key y = m_idempotency_key x \<longrightarrow> m_event_type y \<noteq> m_event_type x)"
    by (simp only: set_map set_filter)
  then show ?thesis by (simp only: idem_unique_def filter_append map_append distinct_append)
qed

lemma pg_PurgeTerminal_db_ok:
  assumes "db_ok s db"
  shows "db_ok s (fst (pg_PurgeTerminal e before limit db))"
proof -
  have "db_ok s (db\<lparr>messages := sql_delete p (messages db)\<rparr>)" for p
    using assms by (auto simp: db_ok_def idem_unique_append idem_unique_delete)
  with assms pg_PurgeTerminal_db [of e before limit db] show ?thesis by (auto simp: purgeSQL_def)
qed

lemma hist_ok_delete: "hist_ok hist \<Longrightarrow> hist_ok (sql_delete p hist)"
  by (simp add: hist_ok_def)

lemma pg_PurgeHistory_db_ok: "db_ok s db \<Longrightarrow> db_ok s (fst (pg_PurgeHistory e before limit db))"
  by (auto simp: pg_PurgeHistory_def Let_def run_stmt_def purgeHistorySQL_def db_ok_def hist_ok_delete
      split: option.splits)

lemma tx_commit_db_ok: "db_ok s db \<Longrightarrow> db_ok s (tx_commit db)"
  by (simp add: db_ok_def tx_commit_def)

lemma idem_unique_appendD: "idem_unique (rows @ rows') \<Longrightarrow> idem_unique rows"
  by (simp add: idem_unique_def)

lemma tx_rollback_db_ok: "db_ok s db \<Longrightarrow> db_ok s (tx_rollback db)"
  by (auto simp: db_ok_def tx_rollback_def dest: idem_unique_appendD)

section \<open>The step relation\<close>

text \<open>
  One rule per method of the adapter, in any environment: any replies of the driver, clocks,
  locks of other transactions and choices of the server. Any number of workers and producers
  interleave, as every method is one rule and its parameters are arbitrary.
\<close>

inductive pg_step :: "Store \<Rightarrow> ('i::linorder) db \<Rightarrow> 'i db \<Rightarrow> bool" for s where
  step_Enqueue: "\<not> insert_waits s (pg_querier tx) (enqueue_of e 0 p) db \<Longrightarrow>
    fresh_id s (enqueue_of e 0 p) db \<Longrightarrow> pg_step s db (fst (pg_Enqueue s e tx p db))"
| step_EnqueueBatch: "fresh_ids s (batch_rows e (enumerate 0 ps)) db \<Longrightarrow>
    \<forall>r\<in>set (batch_rows e (enumerate 0 ps)). \<not> insert_waits s (pg_querier tx) r db \<Longrightarrow>
    pg_step s db (fst (pg_EnqueueBatch s e tx ps db))"
| step_Claim: "pg_step s db (fst (pg_Claim s e cp db))"
| step_Succeed: "pg_step s db (fst (pg_Succeed s e ident att w db))"
| step_BatchSucceed: "pg_step s db (fst (pg_BatchSucceed s e bs db))"
| step_Fail: "pg_step s db (fst (pg_Fail s e fp db))"
| step_ReleaseShutdown: "pg_step s db (fst (pg_ReleaseShutdown s e ident att w reason db))"
| step_Extend: "pg_step s db (fst (pg_Extend e ident w until db))"
| step_Requeue: "pg_step s db (fst (pg_Requeue e ident t db))"
| step_ReclaimExpired: "env_ok e \<Longrightarrow> pg_step s db (fst (pg_ReclaimExpired e n db))"
| step_PurgeTerminal: "pg_step s db (fst (pg_PurgeTerminal e t n db))"
| step_PurgeHistory: "pg_step s db (fst (pg_PurgeHistory e t n db))"
| step_commit: "pg_step s db (tx_commit db)"
| step_rollback: "pg_step s db (tx_rollback db)"

inductive pg_reachable :: "Store \<Rightarrow> ('i::linorder) db \<Rightarrow> bool" for s where
  reach_init: "pg_reachable s empty_db"
| reach_step: "pg_reachable s db \<Longrightarrow> pg_step s db db' \<Longrightarrow> pg_reachable s db'"

lemmas rowwise_methods = pg_Claim_rowwise pg_Succeed_rowwise pg_BatchSucceed_rowwise pg_Fail_rowwise
  pg_ReleaseShutdown_rowwise pg_Extend_rowwise pg_Requeue_rowwise pg_ReclaimExpired_rowwise

lemma pg_Extend_grows: "hist_grows db (fst (pg_Extend e ident w until db))"
  by (auto simp: pg_Extend_def extendSQL_def Let_def split: sum.splits option.splits intro!: hist_grows_run_stmt)

lemma pg_ReclaimExpired_grows: "hist_grows db (fst (pg_ReclaimExpired e n db))"
  by (auto simp: pg_ReclaimExpired_def reclaimSQL_def Let_def split: option.splits intro!: hist_grows_run_stmt)

lemmas grows_methods = pg_Claim_grows pg_Succeed_grows pg_BatchSucceed_grows pg_Fail_grows
  pg_ReleaseShutdown_grows pg_Extend_grows pg_Requeue_grows pg_ReclaimExpired_grows

lemma pg_step_db_ok: "pg_step s db db' \<Longrightarrow> db_ok s db \<Longrightarrow> db_ok s db'"
proof (induction rule: pg_step.induct)
  case (step_Enqueue tx e p db) then show ?case by (blast intro: pg_Enqueue_db_ok)
next
  case (step_EnqueueBatch e ps db tx) then show ?case by (blast intro: pg_EnqueueBatch_db_ok)
qed (auto intro: pg_PurgeTerminal_db_ok pg_PurgeHistory_db_ok tx_commit_db_ok tx_rollback_db_ok
      intro!: rowwise_db_ok [OF _ rowwise_methods(1) grows_methods(1)]
       rowwise_db_ok [OF _ rowwise_methods(2) grows_methods(2)]
       rowwise_db_ok [OF _ rowwise_methods(3) grows_methods(3)]
       rowwise_db_ok [OF _ rowwise_methods(4) grows_methods(4)]
       rowwise_db_ok [OF _ rowwise_methods(5) grows_methods(5)]
       rowwise_db_ok [OF _ rowwise_methods(6) grows_methods(6)]
       rowwise_db_ok [OF _ rowwise_methods(7) grows_methods(7)]
       rowwise_db_ok [OF _ rowwise_methods(8) grows_methods(8)] dest: db_ok_distinct)

lemma pg_reachable_db_ok: "pg_reachable s db \<Longrightarrow> db_ok s db"
  by (induction rule: pg_reachable.induct) (auto intro: db_ok_empty pg_step_db_ok)

section \<open>What a step does to one message\<close>

lemma row_by_append_Some: "row_by key k rows = Some r \<Longrightarrow> row_by key k (rows @ rows') = Some r"
  by (simp add: row_simps)

lemma notifyEnqueue_messages [simp]: "messages (fst (notifyEnqueue s e k tx et db)) = messages db"
  by (cases "env_reply e k") (auto simp: notifyEnqueue_def pg_Notify_def q_notify_def split: querier.splits)

definition appended :: "'i db \<Rightarrow> 'i db \<Rightarrow> bool" where
  "appended db db' \<longleftrightarrow> (\<exists>rs. messages db' = messages db @ rs \<and> (\<forall>r\<in>set rs. m_status r = StatusCreated))"

lemma appended_same: "messages db' = messages db \<Longrightarrow> appended db db'"
  by (simp add: appended_def)

lemma appended_trans: "appended a b \<Longrightarrow> appended b c \<Longrightarrow> appended a c"
  unfolding appended_def by fastforce

lemma q_insert_appended: "m_status r = StatusCreated \<Longrightarrow> appended db (q_insert q r db)"
  by (cases q) (auto simp: q_insert_def appended_def)

lemma appended_notify [simp]: "appended db (fst (notifyEnqueue s e k tx et db')) = appended db db'"
  by (simp add: appended_def)

lemma pg_Enqueue_appended: "appended db (fst (pg_Enqueue s e tx p db))"
  by (cases rule: pg_Enqueue_cases [of s e tx p db]) (simp_all add: q_insert_appended enqueue_of_ok appended_same)

lemma batchInsertSQL_appended:
  "batchInsertSQL s q rs db = Some (db', ins) \<Longrightarrow> \<forall>r\<in>set rs. m_status r = StatusCreated \<Longrightarrow> appended db db'"
proof (induction s q rs db arbitrary: db' ins rule: batchInsertSQL.induct)
  case (2 s q r rs db)
  then show ?case by (auto split: insert_result.splits intro: appended_trans [OF q_insert_appended])
qed (simp add: appended_same)

lemma pg_EnqueueBatch_appended: "appended db (fst (pg_EnqueueBatch s e tx ps db))"
proof -
  have "\<forall>r\<in>set (batch_rows e (enumerate 0 ps)). m_status r = StatusCreated" by (auto simp: batch_rows_enqueue_of enqueue_of_ok)
  then show ?thesis
    by (cases rule: pg_EnqueueBatch_cases [of s e tx ps db]) (auto dest: batchInsertSQL_appended simp: appended_same)
qed

lemma rowwise_row:
  assumes "rowwise row_step db db'" "row_by m_id i (messages db) = Some r"
  shows "\<exists>r'. row_by m_id i (messages db') = Some r' \<and> row_step r r'"
proof -
  have "m_id x' = m_id x" if "row_step x x'" for x x' :: "'a msg_row"
    using row_step_same [OF that] by (simp add: same_message_def)
  from rowwise_lookup [OF assms(1) this, of i] assms(2) show ?thesis
    by (auto elim: option.rel_cases)
qed

lemma purge_ids_match:
  assumes "distinct (map m_id (messages db))" "r \<in> set (messages db)" "m_id r \<in> set (purge_ids before n db)"
  shows "purge_match before r"
proof -
  let ?k = "\<lambda>r. COALESCE (m_completed_at r) 0"
  from assms(3) obtain r' where
    r': "r' \<in> set (order_limit ?k n (filter (purge_match before) (messages db)))" "m_id r' = m_id r"
    by (auto simp: purge_ids_def)
  from subsetD [OF set_order_limit r'(1)] have "r' \<in> set (messages db)" "purge_match before r'" by auto
  moreover from this r'(2) assms(1,2) have "r' = r" by (metis distinct_map inj_onD)
  ultimately show ?thesis by simp
qed

lemma purge_row:
  assumes "distinct (map m_id (messages db))" "row_by m_id i (messages db) = Some r"
  shows "row_by m_id i (messages (fst (pg_PurgeTerminal e before n db))) = Some r \<or>
    row_by m_id i (messages (fst (pg_PurgeTerminal e before n db))) = None \<and> purge_match before r"
  using pg_PurgeTerminal_db [of e before n db] assms row_by_Some_in [OF assms(2)]
    purge_ids_match [OF assms(1), of r before]
  by (auto simp: purgeSQL_def row_by_delete split: if_splits)

text \<open>A step keeps a committed message and acts on it as \<open>row_step\<close>, or purges it when it is terminal.\<close>

lemma pg_step_row:
  assumes "pg_step s db db'" "db_ok s db" "row_by m_id i (messages db) = Some r"
  shows "(\<exists>r'. row_by m_id i (messages db') = Some r' \<and> row_step r r') \<or>
    row_by m_id i (messages db') = None \<and> Terminal (m_status r)"
proof -
  note d = db_ok_distinct [OF assms(2)] and row = rowwise_row [OF _ assms(3)]
  have same: ?thesis if "\<exists>rs. messages db' = messages db @ rs"
    using that row_by_append_Some [OF assms(3)] row_same by metis
  from assms(1) show ?thesis
  proof cases
    case (step_Enqueue tx e p) then show ?thesis using same pg_Enqueue_appended [unfolded appended_def] by metis
  next
    case (step_EnqueueBatch e ps tx) then show ?thesis using same pg_EnqueueBatch_appended [unfolded appended_def] by metis
  next
    case (step_PurgeTerminal e t n)
    then show ?thesis using purge_row [OF d assms(3), of e t n]
      by (auto simp: purge_match_def intro: row_same)
  next
    case (step_PurgeHistory e t n)
    then show ?thesis using same
      by (auto simp: pg_PurgeHistory_def purgeHistorySQL_def Let_def run_stmt_def split: option.splits if_splits)
  next
    case step_commit then show ?thesis using same by (simp add: tx_commit_def)
  next
    case step_rollback then show ?thesis using same by (simp add: tx_rollback_def)
  next
    case (step_Claim e cp) then show ?thesis using row [OF pg_Claim_rowwise [OF d]] by simp
  next
    case (step_Succeed e ident att w) then show ?thesis using row [OF pg_Succeed_rowwise] by simp
  next
    case (step_BatchSucceed e bs) then show ?thesis using row [OF pg_BatchSucceed_rowwise] by simp
  next
    case (step_Fail e fp) then show ?thesis using row [OF pg_Fail_rowwise] by simp
  next
    case (step_ReleaseShutdown e ident att w reason)
    then show ?thesis using row [OF pg_ReleaseShutdown_rowwise] by simp
  next
    case (step_Extend e ident w until) then show ?thesis using row [OF pg_Extend_rowwise] by simp
  next
    case (step_Requeue e ident t) then show ?thesis using row [OF pg_Requeue_rowwise] by simp
  next
    case (step_ReclaimExpired e n)
    then show ?thesis using row [OF pg_ReclaimExpired_rowwise [OF _ d]] by simp
  qed
qed

end
