(* ===== verification/Pg_Properties.thy ===== *)
theory Pg_Properties
  imports Pg_Machine
begin

text \<open>
  Properties of the PostgreSQL adapter as a whole: the table invariant on every reachable
  database, the status machine, and that no live message is lost. The witnesses run the
  methods on a small database whose identifiers are natural numbers in unary notation.
\<close>

section \<open>A sample environment\<close>

definition sample_env :: "time \<Rightarrow> nat \<Rightarrow> nat env" where
  "sample_env now k =
     \<lparr>env_now = now, env_clock = now, env_id = (\<lambda>i. k + i), env_rand = (\<lambda>_. 0),
      env_locked = (\<lambda>_. False), env_choice = take, env_reply = (\<lambda>_. ExecOk),
      env_str = (\<lambda>i. replicate i CHR ''i''), env_parse = (\<lambda>s. Inr (length s))\<rparr>"

definition sample_params :: "string \<Rightarrow> EnqueueParams" where
  "sample_params key =
     \<lparr>ep_EventType = ''order'', ep_Payload = [1, 2], ep_Headers = [], ep_IdempotencyKey = key,
      ep_MaxAttempts = 1, ep_ProcessAt = 0\<rparr>"

definition sample_claim :: "string \<Rightarrow> ClaimParams" where
  "sample_claim w = \<lparr>cp_WorkerID = w, cp_Batch = 10, cp_Lease = 30 * Second, cp_EventTypes = []\<rparr>"

definition sample_store :: Store where
  "sample_store = New []"

definition sample_db :: "nat db" where
  "sample_db = fst (pg_Enqueue sample_store (sample_env 5 0) TxZero (sample_params ''k'') empty_db)"

lemma sample_env_ok [simp]: "env_ok (sample_env now k)" "all_ok (sample_env now k)"
  by (simp_all add: env_ok_def all_ok_def sample_env_def limit_choice_take)

lemma sample_env_sel [simp]:
  "env_now (sample_env now k) = now" "env_clock (sample_env now k) = now" "env_id (sample_env now k) i = k + i"
  "env_rand (sample_env now k) i = 0" "env_locked (sample_env now k) j = False"
  "env_choice (sample_env now k) = take" "env_reply (sample_env now k) i = ExecOk"
  "env_str (sample_env now k) j = replicate j CHR ''i''" "env_parse (sample_env now k) ident = Inr (length ident)"
  by (simp_all add: sample_env_def)

lemmas sample_defs = sample_params_def sample_claim_def sample_store_def New_def

lemmas insert_defs = insertSQL_def q_rows_def q_insert_def q_notify_def conflicts_def pk_clash_def
  enqueue_row_def encodeHeaders_def NULLIF_empty_def default_max_attempts_def default_process_at_def
  pickShard_def numClaimShards_def

definition sample_row :: "nat \<Rightarrow> nat msg_row" where
  "sample_row i =
     \<lparr>m_id = i, m_event_type = ''order'', m_payload = [1, 2], m_headers = [], m_idempotency_key = Some ''k'',
      m_status = StatusCreated, m_attempt = 0, m_max_attempts = 1, m_process_at = 5, m_shard = 0,
      m_claimed_until = None, m_claimed_by = None, m_last_error = None, m_created_at = 5, m_updated_at = 5,
      m_completed_at = None\<rparr>"

lemma sample_db_eq:
  "sample_db = \<lparr>messages = [sample_row 0], history = [], notified = [''order''], staged = [], staged_notified = []\<rparr>"
  by (simp add: sample_db_def sample_defs pg_Enqueue_def enqueue_insert_def notifyEnqueue_def pg_Notify_def
      insert_defs empty_db_def sample_row_def Let_def)

lemma sample_db_reachable: "pg_reachable sample_store sample_db"
  unfolding sample_db_def
  by (rule reach_step [OF reach_init], rule step_Enqueue)
     (simp_all add: insert_waits_def fresh_id_def empty_db_def)

section \<open>Invariant and status machine\<close>

text \<open>
  C1. In every database that any interleaving of adapter calls can reach, under any replies of
  the driver, identifiers are unique, the row invariant holds of every committed and staged
  row, idempotency keys are unique per event type (unpartitioned schema), staged rows are
  unclaimed, and the history has unique positive sequence numbers per message.
\<close>

theorem pg_invariant: "pg_reachable s db \<Longrightarrow> db_ok s db"
  by (rule pg_reachable_db_ok)

theorem pg_invariant_witness: "pg_reachable sample_store sample_db \<and> db_ok sample_store sample_db"
  using pg_invariant [OF sample_db_reachable] sample_db_reachable by simp

text \<open>
  C2. One call of any method moves a message that it keeps only along the arrows of the status
  machine (CREATED or RETRYING to HANDLING; HANDLING to SUCCESS, RETRYING or DEAD; DEAD to
  CREATED), and never changes its type, payload, headers, keys, limits, shard or creation time.
\<close>

theorem pg_status_machine:
  assumes "pg_reachable s db" "pg_step s db db'"
    and "row_by m_id i (messages db) = Some r" "row_by m_id i (messages db') = Some r'"
  shows "same_message r r' \<and> (m_status r' = m_status r \<or> status_edge (m_status r) (m_status r'))"
  using pg_step_row [OF assms(2) pg_reachable_db_ok [OF assms(1)] assms(3)] assms(4)
  by (auto dest: row_step_same row_step_edge)

definition sample_handling :: "nat db" where
  "sample_handling = fst (pg_Claim sample_store (sample_env 7 0) (sample_claim ''w1'') sample_db)"

lemmas claim_defs = pg_Claim_def claimQuery_def claimSQL_def claim_ids_def order_limit_def claim_batch_def
  claim_leaseSec_def claim_eligible_def claim_key_def claim_set_def appendHistoryBatch_def run_batch_def
  appendHistorySQL_def

lemma sample_handling_row:
  "messages sample_handling = [claim_set 7 ''w1'' 30 (sample_row 0)]"
  by (simp add: sample_handling_def sample_db_eq sample_defs claim_defs sample_row_def pickShard_def
      numClaimShards_def go_div_def duration_units scanMessage_def parsed_def List.map_filter_simps)

theorem pg_status_machine_witness:
  "same_message (sample_row 0) (claim_set 7 ''w1'' 30 (sample_row 0)) \<and>
   status_edge StatusCreated (m_status (claim_set 7 ''w1'' 30 (sample_row 0)))"
  using pg_status_machine [OF sample_db_reachable step_Claim [of sample_store sample_db
      "sample_env 7 0" "sample_claim ''w1''"], of 0 "sample_row 0" "claim_set 7 ''w1'' 30 (sample_row 0)",
      folded sample_handling_def]
  by (simp add: sample_db_eq sample_handling_row) (simp add: sample_row_def claim_set_def)

text \<open>
  C3. No call loses a live message: a committed row that is not terminal is still there after
  the call, under every failure of the driver; only \<open>PurgeTerminal\<close> deletes rows.
\<close>

theorem pg_no_loss:
  assumes "pg_reachable s db" "pg_step s db db'"
    and "row_by m_id i (messages db) = Some r" "\<not> Terminal (m_status r)"
  shows "\<exists>r'. row_by m_id i (messages db') = Some r' \<and> same_message r r'"
  using pg_step_row [OF assms(2) pg_reachable_db_ok [OF assms(1)] assms(3)] assms(4)
  by (auto dest: row_step_same)

theorem pg_no_loss_witness:
  "\<exists>r'. row_by m_id 0 (messages (fst (pg_PurgeTerminal (sample_env 9 0) 100 10 sample_db))) = Some r' \<and>
     same_message (sample_row 0) r'"
  using pg_no_loss [OF sample_db_reachable step_PurgeTerminal [of sample_store sample_db "sample_env 9 0" 100 10],
      of 0 "sample_row 0"]
  by (simp add: sample_db_eq) (simp add: sample_row_def)

end
