(* ===== verification/Pg_Claim_Spec.thy ===== *)
theory Pg_Claim_Spec
  imports Pg_Properties
begin

text \<open>
  What \<open>Claim\<close> of the PostgreSQL adapter promises its callers: which messages it hands
  out and in which state, that it returns work when there is some, its order, and that two
  claims never share a message.
\<close>

section \<open>Library\<close>

definition claimable :: "'i env \<Rightarrow> ClaimParams \<Rightarrow> 'i msg_row \<Rightarrow> bool" where
  "claimable e p r \<longleftrightarrow>
     (m_status r = StatusCreated \<or> m_status r = StatusRetrying) \<and> m_process_at r \<le> env_now e \<and>
     (cp_EventTypes p = [] \<or> m_event_type r \<in> set (cp_EventTypes p)) \<and> \<not> env_locked e (m_id r)"

abbreviation claim_types :: "ClaimParams \<Rightarrow> string list option" where
  "claim_types p \<equiv> (if cp_EventTypes p = [] then None else Some (cp_EventTypes p))"

abbreviation claim_to :: "'i env \<Rightarrow> ClaimParams \<Rightarrow> 'i msg_row \<Rightarrow> 'i msg_row" where
  "claim_to e p \<equiv> claim_set (env_now e) (cp_WorkerID p) (claim_leaseSec (cp_Lease p))"

abbreviation claim_ids_of :: "('i::linorder) env \<Rightarrow> ClaimParams \<Rightarrow> int option \<Rightarrow> 'i db \<Rightarrow> 'i list" where
  "claim_ids_of e p shard db \<equiv> claim_ids e (claim_types p) (claim_batch (cp_Batch p)) shard db"

lemma claim_eligible_claimable:
  "claim_eligible e (claim_types p) shard r \<and> \<not> env_locked e (m_id r) \<longleftrightarrow>
     claimable e p r \<and> (case shard of None \<Rightarrow> True | Some sh \<Rightarrow> m_shard r = sh)"
  by (auto simp: claim_eligible_def claimable_def split: option.splits)

lemma claim_set_id [simp]: "m_id (claim_set now w l r) = m_id r"
  by (simp add: claim_set_def)

lemma filter_sql_update:
  assumes "\<And>r. k (f r) = k r"
  shows "filter (\<lambda>r. P (k r)) (sql_update (\<lambda>r. P (k r)) f rows) = map f (filter (\<lambda>r. P (k r)) rows)"
  by (induction rows) (auto simp: assms)

lemma claimQuery_ok:
  assumes "claimQuery e k ets batch w l shard db = (db', out, None)"
  shows "db' = fst (claimSQL e ets batch w l shard db) \<and>
    out = map (\<lambda>r. scanMessage e (claim_set (env_now e) w l r))
      (filter (\<lambda>r. m_id r \<in> set (claim_ids e ets batch shard db)) (messages db))"
proof -
  have "snd (claimSQL e ets batch w l shard db) = map (claim_set (env_now e) w l)
      (filter (\<lambda>r. m_id r \<in> set (claim_ids e ets batch shard db)) (messages db))"
    using filter_sql_update [of m_id "claim_set (env_now e) w l" "\<lambda>i. i \<in> set (claim_ids e ets batch shard db)"]
    by (simp add: claimSQL_def Let_def)
  with assms show ?thesis
    by (auto simp: claimQuery_def split: prod.splits exec_reply.splits)
qed

lemma claim_finish_ok:
  assumes "claim_finish s e p r = (db', out, None)"
  shows "fst (snd r) = out \<and> snd (snd r) = None \<and> messages db' = messages (fst r)"
proof -
  obtain db1 out1 err1 where r: "r = (db1, out1, err1)" by (cases r) auto
  have "rowwise (=) db1 (fst (appendHistoryBatch e 2 out1 StatusHandling '''' (cp_WorkerID p) db1))"
    by (rule appendHistoryBatch_rowwise) (simp add: rowwise_refl)
  then have "messages (fst (appendHistoryBatch e 2 out1 StatusHandling '''' (cp_WorkerID p) db1)) = messages db1"
    by (simp add: rowwise_def list.rel_eq)
  with assms r show ?thesis
    by (auto simp: claim_finish_def split: option.splits if_splits prod.splits)
qed

text \<open>A successful claim is one \<open>claimSQL\<close> over the random shard or over all of them.\<close>

lemma pg_Claim_ok:
  assumes "pg_Claim s e p db = (db', out, None)"
  obtains shard where "shard \<in> {None, Some (pickShard e 0)}" "out = [] \<longrightarrow> shard = None"
    "messages db' = sql_update (\<lambda>r. m_id r \<in> set (claim_ids_of e p shard db)) (claim_to e p) (messages db)"
    "out = map (\<lambda>r. scanMessage e (claim_to e p r))
       (filter (\<lambda>r. m_id r \<in> set (claim_ids_of e p shard db)) (messages db))"
proof -
  obtain db1 out1 err1 where c0: "claim_pass e p db = (db1, out1, err1)" by (cases "claim_pass e p db")
  from claim_finish_ok [OF assms [unfolded pg_Claim_pass c0]]
  have c: "claim_pass e p db = (db1, out, None)" and m: "messages db' = messages db1"
    using c0 by simp_all
  define q where "q = (\<lambda>k. claimQuery e k (claim_types p) (claim_batch (cp_Batch p)) (cp_WorkerID p)
      (claim_leaseSec (cp_Lease p)))"
  have pass: "claim_pass e p db = (if fst (snd (q 0 (Some (pickShard e 0)) db)) = [] \<and>
      snd (snd (q 0 (Some (pickShard e 0)) db)) = None then q 1 None db else q 0 (Some (pickShard e 0)) db)"
    by (simp add: claim_pass_def q_def)
  have "\<exists>k shard. q k shard db = (db1, out, None) \<and> shard \<in> {None, Some (pickShard e 0)} \<and>
      (out = [] \<longrightarrow> shard = None)"
  proof (cases "fst (snd (q 0 (Some (pickShard e 0)) db)) = [] \<and> snd (snd (q 0 (Some (pickShard e 0)) db)) = None")
    case True
    with c pass have "q 1 None db = (db1, out, None)" by (simp only: simp_thms if_True)
    then show ?thesis by blast
  next
    case False
    with c pass have q0: "q 0 (Some (pickShard e 0)) db = (db1, out, None)" by (simp only: simp_thms if_False)
    with False have "out \<noteq> []" by simp
    with q0 show ?thesis by blast
  qed
  then obtain k shard where qs: "q k shard db = (db1, out, None)"
    and sh: "shard \<in> {None, Some (pickShard e 0)}" "out = [] \<longrightarrow> shard = None" by blast
  from claimQuery_ok [OF qs [unfolded q_def]] have
    "messages db1 = sql_update (\<lambda>r. m_id r \<in> set (claim_ids_of e p shard db)) (claim_to e p) (messages db)"
    "out = map (\<lambda>r. scanMessage e (claim_to e p r))
       (filter (\<lambda>r. m_id r \<in> set (claim_ids_of e p shard db)) (messages db))"
    unfolding claimSQL_def Let_def fst_conv by simp_all
  with m sh show ?thesis by (intro that [of shard]) (simp_all only:)
qed

lemma claim_ids_order:
  assumes "r \<in> set (messages db)" "m_id r \<in> set (claim_ids_of e p shard db)" "distinct (map m_id (messages db))"
  shows "r \<in> set (order_limit claim_key (claim_batch (cp_Batch p))
    (filter (\<lambda>r. claim_eligible e (claim_types p) shard r \<and> \<not> env_locked e (m_id r)) (messages db)))"
proof -
  let ?sel = "order_limit claim_key (claim_batch (cp_Batch p))
    (filter (\<lambda>r. claim_eligible e (claim_types p) shard r \<and> \<not> env_locked e (m_id r)) (messages db))"
  from assms(2) obtain r' where r': "r' \<in> set ?sel" "m_id r' = m_id r" by (auto simp: claim_ids_def)
  from subsetD [OF set_order_limit r'(1)] have "r' \<in> set (messages db)" by simp
  moreover have "inj_on m_id (set (messages db))" using assms(3) by (simp add: distinct_map)
  ultimately have "r' = r" using assms(1) r'(2) by (meson inj_onD)
  with r'(1) show ?thesis by simp
qed

lemma claim_ids_length: "int (length (claim_ids_of e p shard db)) \<le> claim_batch (cp_Batch p)"
proof -
  have "length (claim_ids_of e p shard db) \<le> nat (claim_batch (cp_Batch p))"
    unfolding claim_ids_def by (simp add: length_order_limit)
  moreover have "0 < claim_batch (cp_Batch p)" by (simp add: claim_batch_def)
  ultimately show ?thesis by linarith
qed

lemma env_str_inj: "env_ok e \<Longrightarrow> env_str e i = env_str e j \<longleftrightarrow> i = j"
  by (metis env_okD sum.inject(2))

lemma claimed_row:
  assumes "db_ok s db" "r \<in> set (messages db)" "m_id r \<in> set (claim_ids_of e p shard db)"
  shows "claimable e p r"
  using claim_ids_order [OF assms(2,3) db_ok_distinct [OF assms(1)]] claim_eligible_claimable [of e p shard r]
  by (auto dest!: subsetD [OF set_order_limit])

lemma claimed_id_iff:
  assumes "env_ok e" "out = map (\<lambda>r. scanMessage e (claim_to e p r)) (filter (\<lambda>r. m_id r \<in> I) rows)" "r \<in> set rows"
  shows "env_str e (m_id r) \<in> im_ID ` set out \<longleftrightarrow> m_id r \<in> I"
proof -
  have "im_ID ` set out = (\<lambda>r. env_str e (m_id r)) ` {r \<in> set rows. m_id r \<in> I}"
    by (simp add: assms(2) image_image scanMessage_def)
  then show ?thesis using assms(1,3) by (auto simp: env_str_inj)
qed

lemma pg_Claim_effect:
  assumes "db_ok s db" "env_ok e" "pg_Claim s e p db = (db', out, None)"
  shows "distinct (map im_ID out) \<and> int (length out) \<le> claim_batch (cp_Batch p) \<and>
    (\<forall>m\<in>set out. \<exists>r\<in>set (messages db). claimable e p r \<and> m = scanMessage e (claim_to e p r)) \<and>
    messages db' = sql_update (\<lambda>r. env_str e (m_id r) \<in> im_ID ` set out) (claim_to e p) (messages db)"
proof -
  note ok = assms(1) and d = db_ok_distinct [OF assms(1)]
  obtain shard where sh:
    "messages db' = sql_update (\<lambda>r. m_id r \<in> set (claim_ids_of e p shard db)) (claim_to e p) (messages db)"
    "out = map (\<lambda>r. scanMessage e (claim_to e p r))
       (filter (\<lambda>r. m_id r \<in> set (claim_ids_of e p shard db)) (messages db))"
    by (rule pg_Claim_ok [OF assms(3)])
  have "map im_ID out = map (env_str e) (map m_id (filter (\<lambda>r. m_id r \<in> set (claim_ids_of e p shard db)) (messages db)))"
    by (simp add: sh(2) scanMessage_def)
  moreover have "inj (env_str e)" using assms(2) by (simp add: inj_on_def env_str_inj)
  ultimately have 1: "distinct (map im_ID out)"
    using distinct_map_filter [OF d] by (metis distinct_map inj_on_subset subset_UNIV)
  have 2: "int (length out) \<le> claim_batch (cp_Batch p)"
    using length_filter_key [OF d, of "claim_ids_of e p shard db"] claim_ids_length [of e p shard db]
    by (simp add: sh(2))
  have 3: "\<forall>m\<in>set out. \<exists>r\<in>set (messages db). claimable e p r \<and> m = scanMessage e (claim_to e p r)"
  proof
    fix m assume "m \<in> set out"
    then obtain r where "r \<in> set (messages db)" "m_id r \<in> set (claim_ids_of e p shard db)"
      "m = scanMessage e (claim_to e p r)" unfolding sh(2) by auto
    with claimed_row [OF ok] show "\<exists>r\<in>set (messages db). claimable e p r \<and> m = scanMessage e (claim_to e p r)"
      by blast
  qed
  have "messages db' = sql_update (\<lambda>r. env_str e (m_id r) \<in> im_ID ` set out) (claim_to e p) (messages db)"
    unfolding sh(1) by (rule sql_update_cong) (use claimed_id_iff [OF assms(2) sh(2)] in blast)
  with 1 2 3 show ?thesis by blast
qed

section \<open>Properties\<close>

text \<open>
  C7. A claim that returns without error returns distinct messages, at most as many as asked,
  each of them due, of a requested type, CREATED or RETRYING before and not locked by another
  transaction; afterwards exactly these rows are HANDLING, leased to the worker until now plus
  the lease, with the attempt counter one higher, and every other row is as before.
\<close>

theorem pg_Claim_spec:
  assumes "pg_reachable s db" "env_ok e" "pg_Claim s e p db = (db', out, None)"
  defines "upd \<equiv> \<lambda>r. r\<lparr>m_status := StatusHandling, m_attempt := m_attempt r + 1, m_claimed_by := Some (cp_WorkerID p),
      m_claimed_until := Some (env_now e + claim_leaseSec (cp_Lease p) * Second), m_updated_at := env_now e\<rparr>"
  shows "distinct (map im_ID out) \<and> int (length out) \<le> claim_batch (cp_Batch p) \<and>
    (\<forall>m\<in>set out. \<exists>r\<in>set (messages db). claimable e p r \<and> m = scanMessage e (upd r)) \<and>
    messages db' = sql_update (\<lambda>r. env_str e (m_id r) \<in> im_ID ` set out) upd (messages db)"
proof -
  have "claim_to e p = upd" unfolding upd_def claim_set_def ..
  then show ?thesis using pg_Claim_effect [OF pg_reachable_db_ok [OF assms(1)] assms(2,3)] by metis
qed

lemma sample_claim_run:
  "pg_Claim sample_store (sample_env 7 0) (sample_claim ''w1'') sample_db =
     (sample_handling, [scanMessage (sample_env 7 0) (claim_set 7 ''w1'' 30 (sample_row 0))], None)"
  by (simp add: sample_handling_def sample_db_eq sample_defs claim_defs sample_row_def pickShard_def
      numClaimShards_def go_div_def duration_units scanMessage_def parsed_def List.map_filter_simps)

theorem pg_Claim_spec_witness:
  "messages sample_handling = sql_update (\<lambda>r. replicate (m_id r) CHR ''i'' \<in> {[]})
     (claim_set 7 ''w1'' 30) (messages sample_db)"
  using pg_Claim_spec [OF sample_db_reachable sample_env_ok(1) sample_claim_run]
  by (simp add: scanMessage_def claim_set_def [abs_def]) (simp add: sample_claim_def sample_row_def claim_leaseSec_def go_div_def duration_units)

text \<open>
  C8. A claim returns work whenever there is some: if it returns without error and some
  committed row is claimable, the result is not empty, whichever shard the scan picked first.
\<close>

theorem pg_Claim_progress:
  assumes "pg_Claim s e p db = (db', out, None)" "r \<in> set (messages db)" "claimable e p r"
  shows "out \<noteq> []"
proof
  assume "out = []"
  obtain shard where sh: "out = [] \<longrightarrow> shard = None"
    "out = map (\<lambda>r. scanMessage e (claim_to e p r))
       (filter (\<lambda>r. m_id r \<in> set (claim_ids_of e p shard db)) (messages db))"
    by (rule pg_Claim_ok [OF assms(1)])
  let ?el = "filter (\<lambda>r. claim_eligible e (claim_types p) shard r \<and> \<not> env_locked e (m_id r)) (messages db)"
  have "claim_eligible e (claim_types p) shard r \<and> \<not> env_locked e (m_id r)"
    using claim_eligible_claimable [of e p shard r] assms(3) sh(1) \<open>out = []\<close> by simp
  then have "r \<in> set ?el" using assms(2) by simp
  then have "?el \<noteq> []" by force
  moreover have "0 < claim_batch (cp_Batch p)" by (simp add: claim_batch_def)
  ultimately have ne: "order_limit claim_key (claim_batch (cp_Batch p)) ?el \<noteq> []"
    by (simp only: order_limit_Nil_iff not_False_eq_True)
  then obtain x where x: "x \<in> set (order_limit claim_key (claim_batch (cp_Batch p)) ?el)"
    using list.set_sel(1) by blast
  then have "x \<in> set (messages db)" by (auto dest!: subsetD [OF set_order_limit])
  moreover have "m_id x \<in> set (claim_ids_of e p shard db)" using x unfolding claim_ids_def by simp
  ultimately show False using sh(2) \<open>out = []\<close> by (auto simp: filter_empty_conv)
qed

theorem pg_Claim_progress_witness:
  "claimable (sample_env 7 0) (sample_claim ''w1'') (sample_row 0) \<and>
   [scanMessage (sample_env 7 0) (claim_set 7 ''w1'' 30 (sample_row 0))] \<noteq> []"
  using pg_Claim_progress [OF sample_claim_run, of "sample_row 0"]
  by (simp add: claimable_def sample_claim_def sample_row_def sample_db_eq)



text \<open>
  C10. Two claims that follow each other, by any two workers, hand out disjoint sets of messages.
\<close>

theorem pg_Claim_exclusive:
  assumes "pg_reachable s db" "env_ok e1" "env_ok e2" "env_str e2 = env_str e1"
    and "pg_Claim s e1 p1 db = (db1, out1, None)" "pg_Claim s e2 p2 db1 = (db2, out2, None)"
  shows "im_ID ` set out1 \<inter> im_ID ` set out2 = {}"
proof -
  have "pg_reachable s db1" using reach_step [OF assms(1) step_Claim [of s db e1 p1]] assms(5) by simp
  then have ok1: "db_ok s db1" by (rule pg_reachable_db_ok)
  obtain sh1 where s1:
    "messages db1 = sql_update (\<lambda>r. m_id r \<in> set (claim_ids_of e1 p1 sh1 db)) (claim_to e1 p1) (messages db)"
    "out1 = map (\<lambda>r. scanMessage e1 (claim_to e1 p1 r))
       (filter (\<lambda>r. m_id r \<in> set (claim_ids_of e1 p1 sh1 db)) (messages db))"
    by (rule pg_Claim_ok [OF assms(5)])
  obtain sh2 where s2: "out2 = map (\<lambda>r. scanMessage e2 (claim_to e2 p2 r))
       (filter (\<lambda>r. m_id r \<in> set (claim_ids_of e2 p2 sh2 db1)) (messages db1))"
    by (rule pg_Claim_ok [OF assms(6)])
  have False if "x \<in> im_ID ` set out1" "x \<in> im_ID ` set out2" for x
  proof -
    from that(1) obtain r where r: "x = env_str e1 (m_id r)" "m_id r \<in> set (claim_ids_of e1 p1 sh1 db)"
      "r \<in> set (messages db)" unfolding s1(2) by (auto simp: scanMessage_def)
    from that(2) obtain q where q: "x = env_str e1 (m_id q)" "m_id q \<in> set (claim_ids_of e2 p2 sh2 db1)"
      "q \<in> set (messages db1)" unfolding s2 by (auto simp: scanMessage_def assms(4))
    from r q have "m_id q \<in> set (claim_ids_of e1 p1 sh1 db)" using env_str_inj [OF assms(2)] by metis
    with q(3) have "m_status q = StatusHandling"
      unfolding s1(1) set_sql_update by (auto simp: claim_set_def split: if_splits)
    moreover have "claimable e2 p2 q" by (rule claimed_row [OF ok1 q(3,2)])
    ultimately show False by (simp add: claimable_def)
  qed
  then show ?thesis by blast
qed

lemma sample_claim_again:
  "pg_Claim sample_store (sample_env 8 0) (sample_claim ''w2'') sample_handling = (sample_handling, [], None)"
  by (simp add: sample_handling_row sample_defs claim_defs sample_row_def pickShard_def
      numClaimShards_def go_div_def duration_units)

theorem pg_Claim_exclusive_witness:
  "im_ID ` set [scanMessage (sample_env 7 0) (claim_set 7 ''w1'' 30 (sample_row 0))] \<inter> im_ID ` set [] = {}"
  using pg_Claim_exclusive [OF sample_db_reachable sample_env_ok(1) sample_env_ok(1) _
      sample_claim_run sample_claim_again] by (simp add: sample_env_def)

text \<open>
  The lease that a claim grants is the requested duration cut down to whole seconds: the
  reclaimer's test fires on a claimed row exactly from \<open>now + (lease - lease mod 1s)\<close> on. A
  lease below one second is expired as soon as the server's clock moves.
\<close>

theorem pg_Claim_lease:
  assumes "pg_reachable s db" "env_ok e" "pg_Claim s e p db = (db', out, None)" "0 < cp_Lease p"
    and "r \<in> set (messages db')" "env_str e (m_id r) \<in> im_ID ` set out"
  shows "lease_expired t r \<longleftrightarrow> env_now e + (cp_Lease p - cp_Lease p mod Second) < t"
proof -
  obtain shard where sh:
    "messages db' = sql_update (\<lambda>r. m_id r \<in> set (claim_ids_of e p shard db)) (claim_to e p) (messages db)"
    "out = map (\<lambda>r. scanMessage e (claim_to e p r))
       (filter (\<lambda>r. m_id r \<in> set (claim_ids_of e p shard db)) (messages db))"
    by (rule pg_Claim_ok [OF assms(3)])
  from assms(6) have "env_str e (m_id r) \<in> env_str e ` set (claim_ids_of e p shard db)"
    unfolding sh(2) by (auto simp: scanMessage_def)
  then have i: "m_id r \<in> set (claim_ids_of e p shard db)" by (auto simp: env_str_inj [OF assms(2)])
  from assms(5) [unfolded sh(1) set_sql_update] obtain y where
    y: "r = (if m_id y \<in> set (claim_ids_of e p shard db) then claim_to e p y else y)" by blast
  with i have "r = claim_to e p y" by (metis claim_set_id)
  moreover have "claim_leaseSec (cp_Lease p) * Second = cp_Lease p - cp_Lease p mod Second"
    using assms(4) by (simp add: claim_leaseSec_def go_div_nonneg Second_def minus_mod_eq_div_mult)
  ultimately show ?thesis by (simp add: lease_expired_def claim_set_def)
qed

definition sample_short_claim :: ClaimParams where
  "sample_short_claim = (sample_claim ''w1'')\<lparr>cp_Lease := 500 * Millisecond\<rparr>"

theorem pg_Claim_lease_witness:
  "lease_expired 8 (claim_set 7 ''w1'' 0 (sample_row 0))"
proof -
  let ?c = "pg_Claim sample_store (sample_env 7 0) sample_short_claim sample_db"
  have run: "?c = (fst ?c, [scanMessage (sample_env 7 0) (claim_set 7 ''w1'' 0 (sample_row 0))], None)"
    and row: "messages (fst ?c) = [claim_set 7 ''w1'' 0 (sample_row 0)]"
    by (simp_all add: sample_short_claim_def sample_db_eq sample_defs claim_defs sample_row_def pickShard_def
      numClaimShards_def go_div_def duration_units scanMessage_def parsed_def List.map_filter_simps)
  show ?thesis
    using pg_Claim_lease [OF sample_db_reachable sample_env_ok(1) run, of "claim_set 7 ''w1'' 0 (sample_row 0)" 8] row
    by (simp add: scanMessage_def sample_row_def)
       (simp add: sample_short_claim_def sample_claim_def duration_units)
qed

section \<open>Attempts are not bounded by the retry limit\<close>

text \<open>One message, claimed and reclaimed over and over: the handler takes its worker down every time.\<close>

lemma claim_single:
  assumes "messages db = [r]" "m_status r = StatusCreated \<or> m_status r = StatusRetrying" "m_process_at r \<le> t"
  shows "messages (fst (pg_Claim (New [WithHistoryPolicy HistoryOff]) (sample_env t 0) (sample_claim w) db))
    = [claim_set t w 30 r]"
  using assms by (cases "m_shard r = 0")
    (auto simp: sample_defs claim_defs pickShard_def numClaimShards_def go_div_def duration_units)

lemma reclaim_single:
  assumes "messages db = [r]" "lease_expired t r"
  shows "messages (fst (pg_ReclaimExpired (sample_env t 0) 10 db)) = [reclaim_set t r]"
  using assms by (simp add: pg_ReclaimExpired_def reclaimSQL_def reclaim_ids_def)

lemma poison_cycle:
  "\<exists>db r. pg_reachable (New [WithHistoryPolicy HistoryOff]) (db :: nat db) \<and> messages db = [r] \<and>
     (m_status r = StatusCreated \<or> m_status r = StatusRetrying) \<and> m_attempt r = int n \<and> m_max_attempts r = 1"
proof (induction n)
  case 0
  let ?s = "New [WithHistoryPolicy HistoryOff]"
  let ?db = "fst (pg_Enqueue ?s (sample_env 5 0) TxZero (sample_params ''k'') empty_db)"
  have "pg_reachable ?s ?db"
    by (rule reach_step [OF reach_init], rule step_Enqueue)
       (simp_all add: insert_waits_def fresh_id_def empty_db_def)
  moreover have "messages ?db = [sample_row 0]"
    by (simp add: sample_defs pg_Enqueue_def enqueue_insert_def notifyEnqueue_def pg_Notify_def
        insert_defs empty_db_def sample_row_def Let_def)
  ultimately show ?case by (intro exI [of _ ?db] exI [of _ "sample_row 0"]) (simp add: sample_row_def)
next
  case (Suc n)
  let ?s = "New [WithHistoryPolicy HistoryOff]"
  from Suc obtain db :: "nat db" and r where r: "pg_reachable ?s db" "messages db = [r]"
    "m_status r = StatusCreated \<or> m_status r = StatusRetrying" "m_attempt r = int n" "m_max_attempts r = 1"
    by blast
  let ?t = "m_process_at r"
  let ?t' = "?t + 31 * Second"
  let ?db1 = "fst (pg_Claim ?s (sample_env ?t 0) (sample_claim ''w'') db)"
  let ?db2 = "fst (pg_ReclaimExpired (sample_env ?t' 0) 10 ?db1)"
  have m1: "messages ?db1 = [claim_set ?t ''w'' 30 r]" by (rule claim_single [OF r(2,3)]) simp
  have m2: "messages ?db2 = [reclaim_set ?t' (claim_set ?t ''w'' 30 r)]"
    by (rule reclaim_single [OF m1]) (simp add: lease_expired_def claim_set_def Second_def)
  have "pg_reachable ?s ?db2"
    by (rule reach_step [OF reach_step [OF r(1) step_Claim] step_ReclaimExpired]) simp
  with m2 r(4,5) show ?case
    by (intro exI [of _ ?db2] exI [of _ "reclaim_set ?t' (claim_set ?t ''w'' 30 r)"])
       (simp add: reclaim_set_def claim_set_def)
qed

text \<open>
  The retry limit does not bound the number of attempts: neither \<open>Claim\<close> nor
  \<open>ReclaimExpired\<close> looks at \<open>max_attempts\<close>, so a message with limit 1 whose handler never
  acknowledges reaches every attempt number, each time being handed out again.
\<close>

theorem pg_attempts_unbounded:
  "\<exists>db r. pg_reachable (New [WithHistoryPolicy HistoryOff]) (db :: nat db) \<and> messages db = [r] \<and>
     m_status r = StatusHandling \<and> m_attempt r = int n + 1 \<and> m_max_attempts r = 1"
proof -
  let ?s = "New [WithHistoryPolicy HistoryOff]"
  from poison_cycle [of n] obtain db :: "nat db" and r where r: "pg_reachable ?s db" "messages db = [r]"
    "m_status r = StatusCreated \<or> m_status r = StatusRetrying" "m_attempt r = int n" "m_max_attempts r = 1"
    by blast
  let ?db1 = "fst (pg_Claim ?s (sample_env (m_process_at r) 0) (sample_claim ''w'') db)"
  have "messages ?db1 = [claim_set (m_process_at r) ''w'' 30 r]" by (rule claim_single [OF r(2,3)]) simp
  moreover have "pg_reachable ?s ?db1" by (rule reach_step [OF r(1) step_Claim])
  ultimately show ?thesis using r(4,5)
    by (intro exI [of _ ?db1] exI [of _ "claim_set (m_process_at r) ''w'' 30 r"]) (simp add: claim_set_def)
qed

end
