(* ===== verification/Pg_Ack_Spec.thy ===== *)
theory Pg_Ack_Spec
  imports Pg_Claim_Spec
begin

text \<open>
  Completion of an attempt: what \<open>Succeed\<close>, \<open>Fail\<close>, \<open>ReleaseShutdown\<close> and
  \<open>Extend\<close> do to the message they name, that a stale acknowledgement does nothing, and
  that the batched and the history-free variants act on the messages as the plain ones.
\<close>

section \<open>Library\<close>

text \<open>The three completions as one function of the row, given the guard they share.\<close>

lemma pg_Succeed_messages:
  "messages (fst (pg_Succeed s e ident att w db)) =
     (case parsed e ident of None \<Rightarrow> messages db
      | Some mid \<Rightarrow> if applied (env_reply e 0)
          then sql_update (holds_attempt mid att) (succeed_set (env_now e)) (messages db) else messages db)"
  by (auto simp: pg_Succeed_def succeedSQL_def succeedNoHistorySQL_def parsed_def run_stmt_def Let_def
      split: sum.splits)

definition fail_set :: "'i env \<Rightarrow> FailParams \<Rightarrow> 'i msg_row \<Rightarrow> 'i msg_row" where
  "fail_set e p = (if fp_Dead p then fail_dead_set (env_now e) (fp_Err p)
     else fail_retry_set (env_now e) (fp_Err p) (fp_NextRetryAt p))"

lemma pg_Fail_messages:
  "messages (fst (pg_Fail s e p db)) =
     (case parsed e (fp_MessageID p) of None \<Rightarrow> messages db
      | Some mid \<Rightarrow> if applied (env_reply e 0)
          then sql_update (holds_attempt mid (fp_Attempt p)) (fail_set e p) (messages db) else messages db)"
  by (auto simp: pg_Fail_def failRetrySQL_def failDeadSQL_def failRetryNoHistorySQL_def failDeadNoHistorySQL_def
      fail_set_def parsed_def run_stmt_def Let_def split: sum.splits)

lemma pg_ReleaseShutdown_messages:
  "messages (fst (pg_ReleaseShutdown s e ident att w reason db)) =
     (case parsed e ident of None \<Rightarrow> messages db
      | Some mid \<Rightarrow> if applied (env_reply e 0)
          then sql_update (holds_attempt mid att) (release_set (env_now e) reason) (messages db) else messages db)"
  by (auto simp: pg_ReleaseShutdown_def releaseShutdownSQL_def releaseShutdownNoHistorySQL_def parsed_def
      run_stmt_def Let_def split: sum.splits)

lemmas ack_messages = pg_Succeed_messages pg_Fail_messages pg_ReleaseShutdown_messages

lemma set_ids [simp]:
  "m_id (succeed_set now r) = m_id r" "m_id (fail_set e p r) = m_id r" "m_id (release_set now reason r) = m_id r"
  "m_id (reclaim_set now r) = m_id r" "m_id (requeue_set now t r) = m_id r"
  by (simp_all add: set_defs fail_set_def)

lemma ack_row [row_simps]:
  assumes "\<And>r. m_id (f r) = m_id r"
  shows "row_by m_id j (sql_update (holds_attempt i att) f rows) =
    map_option (\<lambda>r. if j = i \<and> m_status r = StatusHandling \<and> m_attempt r = att then f r else r) (row_by m_id j rows)"
proof -
  have "row_by m_id j (sql_update (holds_attempt i att) f rows) =
      map_option (\<lambda>r. if holds_attempt i att r then f r else r) (row_by m_id j rows)"
    by (rule row_by_update) (rule assms)
  then show ?thesis by (cases "row_by m_id j rows") (auto simp: holds_attempt_def dest: row_by_Some_in)
qed

section \<open>Properties\<close>


definition sample_fail :: "int \<Rightarrow> bool \<Rightarrow> string \<Rightarrow> FailParams" where
  "sample_fail att dead w =
     \<lparr>fp_MessageID = '''', fp_Attempt = att, fp_WorkerID = w, fp_Err = ''boom'', fp_NextRetryAt = 99, fp_Dead = dead\<rparr>"


text \<open>
  C12. A stale acknowledgement changes no message: if the named message is not HANDLING with
  the acknowledged attempt number, \<open>Succeed\<close>, \<open>Fail\<close> and \<open>ReleaseShutdown\<close> leave the
  table of messages as it is, whatever the driver replies.
\<close>

theorem pg_stale_ack:
  assumes "\<forall>r\<in>set (messages db). parsed e ident = Some (m_id r) \<longrightarrow>
      \<not> (m_status r = StatusHandling \<and> m_attempt r = att)"
    and "fp_MessageID p = ident" "fp_Attempt p = att"
  shows "messages (fst (pg_Succeed s e ident att w db)) = messages db \<and>
    messages (fst (pg_Fail s e p db)) = messages db \<and>
    messages (fst (pg_ReleaseShutdown s e ident att w reason db)) = messages db"
proof -
  have "sql_update (holds_attempt mid att) f (messages db) = messages db" if "parsed e ident = Some mid" for mid f
    by (rule sql_update_none) (use assms(1) that in \<open>auto simp: holds_attempt_def\<close>)
  then show ?thesis using assms(2,3) by (simp add: ack_messages split: option.split)
qed

theorem pg_stale_ack_witness:
  "messages (fst (pg_Succeed sample_store (sample_env 9 0) '''' 2 ''w1'' sample_handling)) = messages sample_handling"
  using pg_stale_ack [of sample_handling "sample_env 9 0" "''''" 2 "sample_fail 2 True ''w1''" sample_store "''w1''" "''''"]
  by (simp add: sample_handling_row parsed_def sample_fail_def) (simp add: claim_set_def sample_row_def)

section \<open>Batches and history policies\<close>

definition succeed_stmt :: "Store \<Rightarrow> 'i env \<Rightarrow> BatchSucceedParam \<Rightarrow> 'i \<Rightarrow> 'i db \<Rightarrow> 'i db" where
  "succeed_stmt s e p mid = (if historyPolicy s = HistoryOff then succeedNoHistorySQL (env_now e) mid (bs_Attempt p)
     else succeedSQL (env_now e) mid (bs_Attempt p) (bs_WorkerID p))"

lemma pg_BatchSucceed_stmts:
  "pg_BatchSucceed s e ps db = (if ps = [] then (db, None)
     else case reply_err (env_reply e 0) of
       Some er \<Rightarrow> (db, Some (WrapError ''tickr/postgres: batch succeed begin: '' er))
     | None \<Rightarrow> run_batch e 1 (WrapError ''tickr/postgres: batch succeed exec: '')
         (WrapError ''tickr/postgres: batch succeed commit: '')
         (List.map_filter (\<lambda>p. map_option (succeed_stmt s e p) (parsed e (bs_MessageID p))) ps) (length ps) db)"
  unfolding pg_BatchSucceed_def succeed_stmt_def Let_def by (simp cong: if_cong split: option.split)

lemma map_filter_all:
  "\<forall>x\<in>set xs. g x \<noteq> None \<Longrightarrow> length (List.map_filter g xs) = length xs"
  "\<exists>x\<in>set xs. g x = None \<Longrightarrow> length (List.map_filter g xs) < length xs"
proof -
  have le: "length (List.map_filter g ys) \<le> length ys" for ys
    by (induction ys) (auto simp: List.map_filter_simps split: option.splits)
  show "\<forall>x\<in>set xs. g x \<noteq> None \<Longrightarrow> length (List.map_filter g xs) = length xs"
    by (induction xs) (auto simp: List.map_filter_simps)
  show "\<exists>x\<in>set xs. g x = None \<Longrightarrow> length (List.map_filter g xs) < length xs"
    by (induction xs) (use le in \<open>auto simp: List.map_filter_simps less_Suc_eq_le Suc_le_eq split: option.splits\<close>)
qed

lemma fold_succeed_stmts:
  assumes "env_reply e 0 = ExecOk" "\<forall>p\<in>set ps. parsed e (bs_MessageID p) \<noteq> None"
  shows "fold (\<lambda>f. f) (List.map_filter (\<lambda>p. map_option (succeed_stmt s e p) (parsed e (bs_MessageID p))) ps) db =
    fold (\<lambda>p db. fst (pg_Succeed s e (bs_MessageID p) (bs_Attempt p) (bs_WorkerID p) db)) ps db"
  using assms(2)
proof (induction ps arbitrary: db)
  case (Cons p ps)
  from Cons.prems obtain mid where mid: "parsed e (bs_MessageID p) = Some mid" by auto
  then have "fst (pg_Succeed s e (bs_MessageID p) (bs_Attempt p) (bs_WorkerID p) db) = succeed_stmt s e p mid db"
    using assms(1) by (auto simp: pg_Succeed_def succeed_stmt_def parsed_def Let_def split: sum.splits)
  with Cons mid show ?case by (simp add: List.map_filter_simps)
qed (simp add: List.map_filter_simps)

text \<open>
  C13. \<open>BatchSucceed\<close> is the sequence of the single acknowledgements, in one transaction;
  but one identifier that does not parse makes the whole batch fail and nothing is recorded,
  because a result is read for every parameter and none was queued for that one.
\<close>

theorem pg_BatchSucceed_fold:
  assumes "all_ok e"
  shows "pg_BatchSucceed s e ps db =
    (if \<forall>p\<in>set ps. parsed e (bs_MessageID p) \<noteq> None
     then (fold (\<lambda>p db. fst (pg_Succeed s e (bs_MessageID p) (bs_Attempt p) (bs_WorkerID p) db)) ps db, None)
     else (db, Some (WrapError ''tickr/postgres: batch succeed exec: '' batch_overrun)))"
proof -
  let ?g = "\<lambda>p. map_option (succeed_stmt s e p) (parsed e (bs_MessageID p))"
  have ok: "env_reply e k = ExecOk" for k using assms by (simp add: all_ok_def)
  show ?thesis
  proof (cases "\<forall>p\<in>set ps. parsed e (bs_MessageID p) \<noteq> None")
    case True
    then have "length (List.map_filter ?g ps) = length ps" by (intro map_filter_all) auto
    with True show ?thesis
      by (simp add: pg_BatchSucceed_stmts run_batch_def ok fold_succeed_stmts)
  next
    case False
    then have "length (List.map_filter ?g ps) < length ps" by (intro map_filter_all) auto
    with False show ?thesis by (auto simp: pg_BatchSucceed_stmts run_batch_def ok)
  qed
qed

theorem pg_BatchSucceed_fold_witness:
  "fst (pg_BatchSucceed sample_store (sample_env 9 0) [\<lparr>bs_MessageID = '''', bs_Attempt = 1, bs_WorkerID = ''w1''\<rparr>] sample_handling)
   = fst (pg_Succeed sample_store (sample_env 9 0) '''' 1 ''w1'' sample_handling)"
  using pg_BatchSucceed_fold [OF sample_env_ok(2), of sample_store 9 0
      "[\<lparr>bs_MessageID = '''', bs_Attempt = 1, bs_WorkerID = ''w1''\<rparr>]" sample_handling]
  by (simp add: parsed_def)

lemma claim_finish_messages: "messages (fst (claim_finish s e p r)) = messages (fst r)"
proof -
  obtain db1 out1 err1 where r: "r = (db1, out1, err1)" by (cases r) auto
  have "rowwise (=) db1 (fst (appendHistoryBatch e 2 out1 StatusHandling '''' (cp_WorkerID p) db1))"
    by (rule appendHistoryBatch_rowwise) (simp add: rowwise_refl)
  then have "messages (fst (appendHistoryBatch e 2 out1 StatusHandling '''' (cp_WorkerID p) db1)) = messages db1"
    by (simp add: rowwise_def list.rel_eq)
  with r show ?thesis by (auto simp: claim_finish_def split: option.splits prod.splits)
qed

lemma fold_stmts_messages:
  "messages x = messages y \<Longrightarrow>
   messages (fold (\<lambda>f. f) (List.map_filter (\<lambda>p. map_option (succeed_stmt s e p) (parsed e (bs_MessageID p))) ps) x) =
   messages (fold (\<lambda>f. f) (List.map_filter (\<lambda>p. map_option (succeed_stmt s' e p) (parsed e (bs_MessageID p))) ps) y)"
proof (induction ps arbitrary: x y)
  case (Cons p ps)
  have "messages (succeed_stmt s e p mid x) = messages (succeed_stmt s' e p mid y)" for mid
    using Cons.prems by (simp add: succeed_stmt_def succeedSQL_def succeedNoHistorySQL_def Let_def)
  with Cons show ?case by (cases "parsed e (bs_MessageID p)") (simp_all add: List.map_filter_simps)
qed (simp add: List.map_filter_simps)

lemma pg_BatchSucceed_policy:
  "messages (fst (pg_BatchSucceed s e bs db)) = messages (fst (pg_BatchSucceed s' e bs db))"
proof -
  let ?st = "\<lambda>s. List.map_filter (\<lambda>p. map_option (succeed_stmt s e p) (parsed e (bs_MessageID p))) bs"
  have "length (?st s) = length (?st s')"
    by (induction bs) (auto simp: List.map_filter_simps split: option.splits)
  then show ?thesis
    using fold_stmts_messages [OF refl, of s e bs db s']
    by (auto simp: pg_BatchSucceed_stmts run_batch_def run_stmt_def split: option.splits)
qed

text \<open>
  C14. The history policy is invisible in the messages: under \<open>HistoryOff\<close> every method
  leaves the table of messages exactly as under \<open>HistoryFull\<close>, for the same replies.
\<close>

theorem pg_history_policy_irrelevant:
  "messages (fst (pg_Claim s e cp db)) = messages (fst (pg_Claim (s\<lparr>historyPolicy := h\<rparr>) e cp db)) \<and>
   messages (fst (pg_Succeed s e ident att w db)) = messages (fst (pg_Succeed (s\<lparr>historyPolicy := h\<rparr>) e ident att w db)) \<and>
   messages (fst (pg_BatchSucceed s e bs db)) = messages (fst (pg_BatchSucceed (s\<lparr>historyPolicy := h\<rparr>) e bs db)) \<and>
   messages (fst (pg_Fail s e fp db)) = messages (fst (pg_Fail (s\<lparr>historyPolicy := h\<rparr>) e fp db)) \<and>
   messages (fst (pg_ReleaseShutdown s e ident att w reason db)) =
     messages (fst (pg_ReleaseShutdown (s\<lparr>historyPolicy := h\<rparr>) e ident att w reason db))"
  by (intro conjI) (simp_all only: ack_messages pg_Claim_pass claim_finish_messages
      pg_BatchSucceed_policy [of s e bs db "s\<lparr>historyPolicy := h\<rparr>"])

section \<open>Heartbeats and stale holders\<close>

text \<open>
  C15. \<open>Extend\<close> renews the lease exactly when the message is HANDLING and leased to the
  calling worker, and says so in its result; otherwise it reports \<open>false\<close> and changes
  nothing. No other message is touched.
\<close>

theorem pg_Extend_spec:
  assumes "pg_reachable s db" "env_ok e" "env_reply e 0 = ExecOk" "row_by m_id i (messages db) = Some r"
    and "pg_Extend e (env_str e i) w until db = (db', held, err)"
  shows "err = None \<and> held = (m_status r = StatusHandling \<and> m_claimed_by r = Some w) \<and>
    row_by m_id i (messages db') =
      Some (if held then r\<lparr>m_claimed_until := Some until, m_updated_at := env_now e\<rparr> else r) \<and>
    (\<forall>j. j \<noteq> i \<longrightarrow> row_by m_id j (messages db') = row_by m_id j (messages db))"
proof -
  let ?f = "\<lambda>r. r\<lparr>m_claimed_until := Some until, m_updated_at := env_now e\<rparr>"
  have db': "messages db' = sql_update (extend_match i w) ?f (messages db)" and err: "err = None"
    and held: "held \<longleftrightarrow> sql_count (extend_match i w) (messages db) \<noteq> 0"
    using assms(2,3,5) sql_count_nonneg [of "extend_match i w" "messages db"]
    by (auto simp: pg_Extend_def extendSQL_def Let_def order.strict_iff_order)
  have r: "r \<in> set (messages db)" "m_id r = i" using row_by_Some_in [OF assms(4)] by simp_all
  have "x = r" if "x \<in> set (messages db)" "m_id x = i" for x
    using row_by_in [OF db_ok_distinct [OF pg_reachable_db_ok [OF assms(1)]] that(1)] that(2) assms(4) by simp
  then have h: "held \<longleftrightarrow> m_status r = StatusHandling \<and> m_claimed_by r = Some w"
    using r unfolding held sql_count_0_iff extend_match_def by blast
  have row: "row_by m_id j (messages db') =
      map_option (\<lambda>r. if extend_match i w r then ?f r else r) (row_by m_id j (messages db))" for j
    unfolding db' by (rule row_by_update) simp
  have "row_by m_id i (messages db') = Some (if held then ?f r else r)"
    using row [of i] assms(4) h r(2) by (simp add: extend_match_def)
  moreover have "row_by m_id j (messages db') = row_by m_id j (messages db)" if "j \<noteq> i" for j
  proof (cases "row_by m_id j (messages db)")
    case (Some x)
    with row_by_Some_in [OF Some] that show ?thesis using row [of j] by (simp add: extend_match_def)
  qed (simp add: row)
  ultimately show ?thesis using err h by simp
qed

lemma sample_handling_reachable: "pg_reachable sample_store sample_handling"
  unfolding sample_handling_def by (rule reach_step [OF sample_db_reachable step_Claim])

theorem pg_Extend_spec_witness:
  "fst (snd (pg_Extend (sample_env 9 0) '''' ''w1'' 50 sample_handling)) \<and>
   \<not> fst (snd (pg_Extend (sample_env 9 0) '''' ''w2'' 50 sample_handling))"
proof -
  have sel: "m_status (claim_set 7 ''w1'' 30 (sample_row 0)) = StatusHandling"
    "m_claimed_by (claim_set 7 ''w1'' 30 (sample_row 0)) = Some ''w1''" "m_id (sample_row 0) = 0"
    by (simp_all add: claim_set_def sample_row_def)
  have row: "row_by m_id 0 (messages sample_handling) = Some (claim_set 7 ''w1'' 30 (sample_row 0))"
    by (simp add: sample_handling_row sel)
  have "fst (snd (pg_Extend (sample_env 9 0) '''' w 50 sample_handling)) = (Some ''w1'' = Some w)" for w
    using pg_Extend_spec [OF sample_handling_reachable sample_env_ok(1) _ row, of 9 0 w 50
        "fst (pg_Extend (sample_env 9 0) '''' w 50 sample_handling)"
        "fst (snd (pg_Extend (sample_env 9 0) '''' w 50 sample_handling))"
        "snd (snd (pg_Extend (sample_env 9 0) '''' w 50 sample_handling))"] sel by simp
  then show ?thesis by simp
qed

text \<open>
  The attempt number alone does not identify the holder: \<open>Requeue\<close> starts counting at 0
  again, so after it a late \<open>Succeed\<close> of the worker that once held attempt 1 completes the
  message under the lease of the worker that holds attempt 1 now.
\<close>

theorem pg_stale_ack_after_requeue:
  "let s = New [WithHistoryPolicy HistoryOff]; e = (\<lambda>t. sample_env (t * Second) 0);
       view = (\<lambda>db. map (\<lambda>r. (m_status r, m_attempt r, m_claimed_by r)) (messages db));
       db0 = fst (pg_Enqueue s (e 5) TxZero (sample_params ''k'') empty_db);
       db1 = fst (pg_Claim s (e 7) (sample_claim ''w1'') db0);
       db2 = fst (pg_ReclaimExpired (e 40) 10 db1);
       db3 = fst (pg_Claim s (e 41) (sample_claim ''w2'') db2);
       db4 = fst (pg_Fail s (e 42) (sample_fail 2 True ''w2'') db3);
       db5 = fst (pg_Requeue (e 43) '''' 0 db4);
       db6 = fst (pg_Claim s (e 44) (sample_claim ''w3'') db5);
       db7 = fst (pg_Succeed s (e 45) '''' 1 ''w1'' db6)
   in view db1 = [(StatusHandling, 1, Some ''w1'')] \<and> view db3 = [(StatusHandling, 2, Some ''w2'')] \<and>
      view db6 = [(StatusHandling, 1, Some ''w3'')] \<and> view db7 = [(StatusSuccess, 1, None)]"
proof -
  let ?s = "New [WithHistoryPolicy HistoryOff]"
  let ?db0 = "fst (pg_Enqueue ?s (sample_env (5 * Second) 0) TxZero (sample_params ''k'') empty_db)"
  obtain r0 :: "nat msg_row" where 0: "messages ?db0 = [r0]" "m_id r0 = 0" "m_status r0 = StatusCreated"
    "m_attempt r0 = 0" "m_process_at r0 = 5 * Second"
    by (simp add: sample_defs pg_Enqueue_def enqueue_insert_def notifyEnqueue_def pg_Notify_def
        insert_defs empty_db_def Let_def duration_units)
  have fail: "messages (fst (pg_Fail ?s (sample_env t 0) (sample_fail 2 True w) db)) = [fail_dead_set t ''boom'' r]"
    if "messages db = [r]" "m_id r = 0" "m_status r = StatusHandling" "m_attempt r = 2" for r t db w
    using that by (simp add: pg_Fail_messages fail_set_def sample_fail_def parsed_def holds_attempt_def)
  have requeue: "messages (fst (pg_Requeue (sample_env t 0) '''' 0 db)) = [requeue_set t t r]"
    if "messages db = [r]" "m_id r = 0" "m_status r = StatusDead" for r t db
    using that by (simp add: pg_Requeue_def requeueSQL_def requeue_match_def sql_count_def appendHistory_def
        appendHistorySQL_def default_process_at_def)
  have succeed: "messages (fst (pg_Succeed ?s (sample_env t 0) '''' 1 w db)) = [succeed_set t r]"
    if "messages db = [r]" "m_id r = 0" "m_status r = StatusHandling" "m_attempt r = 1" for r t db w
    using that by (simp add: pg_Succeed_messages parsed_def holds_attempt_def)
  let ?r1 = "claim_set (7 * Second) ''w1'' 30 r0"
  let ?r2 = "reclaim_set (40 * Second) ?r1"
  let ?r3 = "claim_set (41 * Second) ''w2'' 30 ?r2"
  let ?r5 = "requeue_set (43 * Second) (43 * Second) (fail_dead_set (42 * Second) ''boom'' ?r3)"
  let ?r6 = "claim_set (44 * Second) ''w3'' 30 ?r5"
  note 1 = claim_single [OF 0(1), of "7 * Second" "''w1''"]
  have m1: "messages (fst (pg_Claim ?s (sample_env (7 * Second) 0) (sample_claim ''w1'') ?db0)) = [?r1]"
    by (rule 1) (simp_all add: 0 Second_def)
  note m2 = reclaim_single [OF m1, of "40 * Second"]
  note m3 = claim_single [OF m2, of "41 * Second" "''w2''"]
  note m4 = fail [OF m3, of "42 * Second" "''w2''"]
  note m5 = requeue [OF m4, of "43 * Second"]
  note m6 = claim_single [OF m5, of "44 * Second" "''w3''"]
  note m7 = succeed [OF m6, of "45 * Second" "''w1''"]
  show ?thesis unfolding Let_def using m1 m3 m6 m7 0
    by (simp add: set_defs lease_expired_def Second_def)
qed

end
