(* ===== verification/Pg_Enqueue_Spec.thy ===== *)
theory Pg_Enqueue_Spec
  imports Pg_Ack_Spec
begin

text \<open>
  What producers rely on: a new message is stored once with the documented defaults, a
  repeated idempotency key is answered with the first message, an enqueue in the caller's
  transaction takes effect exactly when that transaction commits, and a batch acts as the
  sequence of its elements.
\<close>

section \<open>Library\<close>

lemma idem_row_None: "idem_row et key rows = None \<longleftrightarrow> (\<forall>r\<in>set rows. m_event_type r = et \<longrightarrow> m_idempotency_key r \<noteq> Some key)"
  by (auto simp: idem_row_def find_None_iff)

lemma idem_row_Some:
  "idem_row et key rows = Some r \<Longrightarrow> r \<in> set rows \<and> m_event_type r = et \<and> m_idempotency_key r = Some key"
  by (auto simp: idem_row_def find_Some_iff)

lemma idem_row_unique:
  assumes "idem_unique rows" "r \<in> set rows" "m_idempotency_key r = Some key"
  shows "idem_row (m_event_type r) key rows = Some r"
  using assms
proof (induction rows)
  case (Cons x rows)
  have u: "idem_unique rows" "r \<in> set rows \<Longrightarrow> m_event_type x = m_event_type r \<Longrightarrow> m_idempotency_key x \<noteq> Some key"
    using Cons.prems idem_unique_append [of "[x]" rows] by auto
  show ?case
  proof (cases "x = r")
    case True
    with Cons.prems(3) show ?thesis by (simp add: idem_row_def)
  next
    case False
    with Cons u show ?thesis by (simp add: idem_row_def)
  qed
qed simp

lemma q_rows_db_ok:
  assumes "db_ok s db" "r \<in> set (q_rows q db)"
  shows "row_ok r"
  using assms by (cases q) (auto simp: db_ok_def q_rows_def)

lemma q_rows_idem_unique: "db_ok s db \<Longrightarrow> \<not> partitioned s \<Longrightarrow> idem_unique (q_rows q db)"
  by (cases q) (auto simp: db_ok_def q_rows_def dest: idem_unique_appendD)

lemma enqueue_of_sel [simp]:
  "m_event_type (enqueue_of e k p) = ep_EventType p"
  "m_idempotency_key (enqueue_of e k p) = NULLIF_empty (ep_IdempotencyKey p)"
  "m_id (enqueue_of e k p) = env_id e k" "m_created_at (enqueue_of e k p) = env_now e"
  by (simp_all add: enqueue_of_def enqueue_row_def)

lemma pg_Enqueue_unfold:
  "pg_Enqueue s e tx p db =
     (if partitioned s \<and> ep_IdempotencyKey p \<noteq> '''' then
        (case findByIdempotency e 0 (pg_querier tx) (ep_EventType p) (ep_IdempotencyKey p) db of
           (Some m, None) \<Rightarrow> (db, Some m, duplicate_of p m)
         | (_, err) \<Rightarrow> if errors_Is err ErrNoRows then enqueue_insert s e tx p (enqueue_of e 0 p) db else (db, None, err))
      else enqueue_insert s e tx p (enqueue_of e 0 p) db)"
  unfolding pg_Enqueue_def enqueue_of_def Let_def ..

lemma insertSQL_skipped:
  assumes "\<not> partitioned s" "key \<noteq> ''''" "ep_IdempotencyKey p = key" "r \<in> set (q_rows q db)"
    "m_event_type r = ep_EventType p" "m_idempotency_key r = Some key"
  shows "insertSQL s q (enqueue_of e k p) db = Skipped"
  using assms by (auto simp: insertSQL_def conflicts_def list_ex_iff NULLIF_empty_def)

lemma insertSQL_inserted:
  assumes "\<forall>r\<in>set (q_rows q db). ep_IdempotencyKey p \<noteq> '''' \<longrightarrow> m_event_type r = ep_EventType p \<longrightarrow>
      m_idempotency_key r \<noteq> Some (ep_IdempotencyKey p)"
    and "env_id e k \<notin> m_id ` set (q_rows q db)"
  shows "insertSQL s q (enqueue_of e k p) db = Inserted"
  using assms by (auto simp: insertSQL_def conflicts_def pk_clash_def list_ex_iff NULLIF_empty_def image_iff split: if_splits)

text \<open>An enqueue whose key is already stored.\<close>

lemma pg_Enqueue_existing:
  assumes "db_ok s db" "all_ok e" "r \<in> set (q_rows (pg_querier tx) db)"
    and "m_event_type r = ep_EventType p" "m_idempotency_key r = Some (ep_IdempotencyKey p)"
  shows "\<exists>r'\<in>set (q_rows (pg_querier tx) db). m_event_type r' = ep_EventType p \<and>
    m_idempotency_key r' = Some (ep_IdempotencyKey p) \<and> (\<not> partitioned s \<longrightarrow> r' = r) \<and>
    pg_Enqueue s e tx p db = (db, Some (scanMessage e r'),
      Some (ErrDuplicate (env_str e (m_id r')) (ep_EventType p) (ep_IdempotencyKey p)))"
proof -
  let ?q = "pg_querier tx" and ?key = "ep_IdempotencyKey p"
  note ok = assms(1)
  have rep: "env_reply e k = ExecOk" for k using assms(2) by (simp add: all_ok_def)
  have key: "?key \<noteq> ''''" using q_rows_db_ok [OF ok assms(3)] assms(5) by (auto simp: row_ok_def)
  obtain r' where r': "idem_row (ep_EventType p) ?key (q_rows ?q db) = Some r'"
    using assms(3-5) idem_row_None by (metis not_None_eq)
  have fnd: "findByIdempotency e k ?q (ep_EventType p) ?key db = (Some (scanMessage e r'), None)" for k
    by (simp add: findByIdempotency_def rep r')
  have "pg_Enqueue s e tx p db = (db, Some (scanMessage e r'), duplicate_of p (scanMessage e r'))"
  proof (cases "partitioned s")
    case True
    with key fnd show ?thesis by (simp add: pg_Enqueue_unfold)
  next
    case False
    with insertSQL_skipped [OF False key refl assms(3,4,5)] key fnd show ?thesis
      by (simp add: pg_Enqueue_unfold enqueue_insert_def rep)
  qed
  moreover have "r' = r" if "\<not> partitioned s"
    using idem_row_unique [OF q_rows_idem_unique [OF ok that] assms(3,5)] r' assms(4) by simp
  ultimately show ?thesis using idem_row_Some [OF r']
    by (intro bexI [of _ r']) (auto simp: duplicate_of_def scanMessage_def)
qed

section \<open>Properties\<close>



text \<open>
  C17. A new message is stored: if the key is empty or unused and no statement fails, the row
  the call adds is CREATED with attempt 0, the given content, \<open>MaxAttempts\<close> defaulting to 10
  and \<open>ProcessAt\<close> to the clock; it is what the call returns, with no error.
\<close>

theorem pg_Enqueue_fresh:
  assumes "all_ok e" "env_id e 0 \<notin> m_id ` set (q_rows (pg_querier tx) db)"
    and "\<forall>r\<in>set (q_rows (pg_querier tx) db). ep_IdempotencyKey p \<noteq> '''' \<longrightarrow> m_event_type r = ep_EventType p \<longrightarrow>
      m_idempotency_key r \<noteq> Some (ep_IdempotencyKey p)"
    and "pg_Enqueue s e tx p db = (db', m, err)"
  shows "\<exists>r. q_rows (pg_querier tx) db' = q_rows (pg_querier tx) db @ [r] \<and> m = Some (scanMessage e r) \<and>
    err = None \<and> m_id r = env_id e 0 \<and> m_status r = StatusCreated \<and> m_attempt r = 0 \<and>
    m_event_type r = ep_EventType p \<and> m_payload r = ep_Payload p \<and>
    opt_str (m_idempotency_key r) = ep_IdempotencyKey p \<and>
    m_max_attempts r = (if ep_MaxAttempts p \<le> 0 then 10 else ep_MaxAttempts p) \<and>
    m_process_at r = (if ep_ProcessAt p = 0 then env_clock e else ep_ProcessAt p)"
proof -
  let ?q = "pg_querier tx"
  have rep: "env_reply e k = ExecOk" for k using assms(1) by (simp add: all_ok_def)
  have ins: "insertSQL s ?q (enqueue_of e 0 p) db = Inserted" by (rule insertSQL_inserted [OF assms(3,2)])
  have "ep_IdempotencyKey p \<noteq> '''' \<Longrightarrow> findByIdempotency e 0 ?q (ep_EventType p) (ep_IdempotencyKey p) db =
      (None, Some (WrapError ''tickr/postgres: fetch by idempotency key: '' ErrNoRows))"
    using assms(3) idem_row_None [of "ep_EventType p" "ep_IdempotencyKey p" "q_rows ?q db"]
    by (auto simp: findByIdempotency_def rep)
  then have run: "pg_Enqueue s e tx p db = enqueue_insert s e tx p (enqueue_of e 0 p) db"
    by (simp add: pg_Enqueue_unfold)
  have nq: "q_rows ?q (fst (notifyEnqueue s e k tx et x)) = q_rows ?q x" "snd (notifyEnqueue s e k tx et x) = None" for k et x
    by (cases ?q; simp add: notifyEnqueue_def pg_Notify_def rep q_notify_def q_rows_def)+
  have "q_rows ?q (q_insert ?q (enqueue_of e 0 p) db) = q_rows ?q db @ [enqueue_of e 0 p]"
    by (cases ?q) (simp_all add: q_insert_def q_rows_def)
  with assms(4) run ins nq have "q_rows ?q db' = q_rows ?q db @ [enqueue_of e 0 p]"
    "m = Some (scanMessage e (enqueue_of e 0 p))" "err = None"
    by (auto simp: enqueue_insert_def rep split_beta)
  then show ?thesis
    by (intro exI [of _ "enqueue_of e 0 p"])
       (simp add: enqueue_of_def enqueue_row_def default_max_attempts_def default_process_at_def
        NULLIF_empty_def opt_str_def)
qed

theorem pg_Enqueue_fresh_witness:
  "\<exists>r. messages (fst (pg_Enqueue sample_store (sample_env 5 1) TxZero (sample_params ''other'') sample_db)) =
     messages sample_db @ [r] \<and> m_status r = StatusCreated \<and> m_process_at r = 5"
  using pg_Enqueue_fresh [OF sample_env_ok(2), of 5 1 TxZero sample_db "sample_params ''other''" sample_store
      "fst (pg_Enqueue sample_store (sample_env 5 1) TxZero (sample_params ''other'') sample_db)"]
  by (simp add: sample_db_eq q_rows_def sample_row_def sample_params_def prod_eq_iff) metis

section \<open>Transactional outbox\<close>

text \<open>
  The commit commutes with every statement the calls make: what a statement sees inside the
  transaction is what it would see after the commit.
\<close>

lemma commit_statements [simp]:
  "q_rows PoolQuerier (tx_commit db) = q_rows TxQuerier db"
  "tx_commit (q_insert TxQuerier r db) = q_insert PoolQuerier r (tx_commit db)"
  "tx_commit (q_notify TxQuerier et db) = q_notify PoolQuerier et (tx_commit db)"
  "insertSQL s PoolQuerier r (tx_commit db) = insertSQL s TxQuerier r db"
  "findByIdempotency e k PoolQuerier et key (tx_commit db) = findByIdempotency e k TxQuerier et key db"
  by (simp_all add: q_rows_def q_insert_def q_notify_def tx_commit_def insertSQL_def findByIdempotency_def Let_def
      split: option.split)

lemma commit_notify:
  "notifyEnqueue s e k TxZero et (tx_commit db) = map_prod tx_commit id (notifyEnqueue s e k TxNative et db)"
  by (cases "env_reply e k") (simp_all add: notifyEnqueue_def pg_Notify_def)

lemma commit_enqueue_insert:
  "enqueue_insert s e TxZero p r (tx_commit db) = map_prod tx_commit id (enqueue_insert s e TxNative p r db)"
proof -
  obtain m err where f: "findByIdempotency e 3 TxQuerier (ep_EventType p) (ep_IdempotencyKey p) db = (m, err)"
    by fastforce
  obtain db2 ne where n: "notifyEnqueue s e 2 TxNative (ep_EventType p) (q_insert TxQuerier r db) = (db2, ne)"
    by fastforce
  have n': "notifyEnqueue s e 2 TxZero (ep_EventType p) (q_insert PoolQuerier r (tx_commit db)) = (tx_commit db2, ne)"
    using commit_notify [of s e 2 "ep_EventType p" "q_insert TxQuerier r db"] n by simp
  show ?thesis
    by (simp add: enqueue_insert_def Let_def f n n' split: exec_reply.split insert_result.split option.split)
qed

lemma commit_batchInsertSQL:
  "batchInsertSQL s PoolQuerier rs (tx_commit db) =
     map_option (map_prod tx_commit id) (batchInsertSQL s TxQuerier rs db)"
proof (induction rs arbitrary: db)
  case (Cons r rs)
  have IH: "batchInsertSQL s PoolQuerier rs (q_insert PoolQuerier r (tx_commit db)) =
      map_option (map_prod tx_commit id) (batchInsertSQL s TxQuerier rs (q_insert TxQuerier r db))"
    using Cons [of "q_insert TxQuerier r db"] by (simp add: id_def)
  show ?case
  proof (cases "insertSQL s TxQuerier r db")
    case Inserted
    then show ?thesis by (cases "batchInsertSQL s TxQuerier rs (q_insert TxQuerier r db)") (simp_all add: IH split_beta)
  qed (simp_all add: Cons)
qed simp

lemma commit_batch_collect:
  "batch_collect e PoolQuerier (tx_commit db) ins ips dup = batch_collect e TxQuerier db ins ips dup"
  by (induction ips arbitrary: dup) (auto split: option.splits prod.splits)


section \<open>Batches\<close>

text \<open>The environment of the \<open>i\<close>-th single call: it draws the identifier and the shard the batch draws for element \<open>i\<close>.\<close>

definition shift_env :: "nat \<Rightarrow> 'i env \<Rightarrow> 'i env" where
  "shift_env i e = e\<lparr>env_id := (\<lambda>k. env_id e (i + k)), env_rand := (\<lambda>k. env_rand e (i + k))\<rparr>"

definition enqueue_each :: "Store \<Rightarrow> 'i env \<Rightarrow> Tx \<Rightarrow> (nat \<times> EnqueueParams) list \<Rightarrow> 'i db \<Rightarrow> 'i db" where
  "enqueue_each s e tx = fold (\<lambda>(i, p) db. fst (pg_Enqueue s (shift_env i e) tx p db))"

lemma enqueue_of_shift: "enqueue_of (shift_env i e) 0 p = enqueue_of e i p"
  by (simp add: enqueue_of_def enqueue_row_def shift_env_def pickShard_def)

lemma all_ok_shift: "all_ok e \<Longrightarrow> all_ok (shift_env i e)"
  by (simp add: all_ok_def shift_env_def)

lemma q_rows_q_insert: "q_rows q (q_insert q r db) = q_rows q db @ [r]"
  by (cases q) (simp_all add: q_rows_def q_insert_def)

lemma q_rows_notify: "q_rows q (fst (notifyEnqueue s e k tx et db)) = q_rows q db"
  by (cases q; cases "env_reply e k"; cases "pg_querier tx";
      simp add: notifyEnqueue_def pg_Notify_def q_rows_def q_notify_def)

lemma insertSQL_cong: "q_rows q db = q_rows q db' \<Longrightarrow> insertSQL s q r db = insertSQL s q r db'"
  by (simp add: insertSQL_def)

lemma pg_Enqueue_q_rows:
  assumes "\<not> partitioned s" "all_ok e"
  shows "q_rows (pg_querier tx) (fst (pg_Enqueue s e tx p db)) = q_rows (pg_querier tx) db @
    (if insertSQL s (pg_querier tx) (enqueue_of e 0 p) db = Inserted then [enqueue_of e 0 p] else [])"
proof -
  have rep: "env_reply e k = ExecOk" for k using assms(2) by (simp add: all_ok_def)
  obtain m err where f: "findByIdempotency e 3 (pg_querier tx) (ep_EventType p) (ep_IdempotencyKey p) db = (m, err)"
    by fastforce
  show ?thesis using assms(1)
    by (cases "insertSQL s (pg_querier tx) (enqueue_of e 0 p) db")
       (simp_all add: pg_Enqueue_unfold enqueue_insert_def Let_def rep f split_beta q_rows_notify q_rows_q_insert
         split: option.split)
qed

lemma batchInsertSQL_each:
  assumes "\<not> partitioned s" "all_ok e"
  shows "q_rows (pg_querier tx) db = q_rows (pg_querier tx) db' \<Longrightarrow>
    batchInsertSQL s (pg_querier tx) (batch_rows e ips) db = Some (db1, ins) \<Longrightarrow>
    q_rows (pg_querier tx) db1 = q_rows (pg_querier tx) (enqueue_each s e tx ips db')"
proof (induction ips arbitrary: db db' ins)
  case (Cons ip ips)
  obtain i p where ip: "ip = (i, p)" by fastforce
  let ?q = "pg_querier tx" and ?r = "enqueue_of e i p"
  have row: "batch_rows e (ip # ips) = ?r # batch_rows e ips" by (simp add: batch_rows_enqueue_of ip)
  have step: "q_rows ?q (fst (pg_Enqueue s (shift_env i e) tx p db')) =
      q_rows ?q db' @ (if insertSQL s ?q ?r db = Inserted then [?r] else [])"
    using pg_Enqueue_q_rows [OF assms(1) all_ok_shift [OF assms(2)], of tx i p db']
      insertSQL_cong [OF Cons.prems(1)] by (simp add: enqueue_of_shift)
  show ?case
  proof (cases "insertSQL s ?q ?r db")
    case Inserted
    with Cons.prems(2) row obtain ins' where "batchInsertSQL s ?q (batch_rows e ips) (q_insert ?q ?r db) = Some (db1, ins')"
      by auto
    from Cons.IH [OF _ this, of "fst (pg_Enqueue s (shift_env i e) tx p db')"] step Inserted Cons.prems(1)
    show ?thesis by (simp add: enqueue_each_def ip q_rows_q_insert)
  next
    case Skipped
    with Cons.prems(2) row have "batchInsertSQL s ?q (batch_rows e ips) db = Some (db1, ins)" by simp
    from Cons.IH [OF _ this, of "fst (pg_Enqueue s (shift_env i e) tx p db')"] step Skipped Cons.prems(1)
    show ?thesis by (simp add: enqueue_each_def ip)
  next
    case Refused
    with Cons.prems(2) row show ?thesis by simp
  qed
qed (simp add: enqueue_each_def batch_rows_def)

lemma batch_rows_ids: "map m_id (batch_rows e ips) = map (env_id e) (map fst ips)"
  by (induction ips) (auto simp: batch_rows_enqueue_of)

lemma batchInsertSQL_fresh:
  assumes "distinct (map m_id rs)" "\<forall>r\<in>set rs. m_id r \<notin> m_id ` set (q_rows q db)"
  shows "batchInsertSQL s q rs db \<noteq> None"
  using assms
proof (induction rs arbitrary: db)
  case (Cons r rs)
  have "insertSQL s q r db \<noteq> Refused"
    using Cons.prems(2) by (auto simp: insertSQL_def pk_clash_def list_ex_iff image_iff)
  moreover have "batchInsertSQL s q rs (q_insert q r db) \<noteq> None"
    using Cons.prems by (intro Cons.IH) (auto simp: q_rows_q_insert image_iff)
  moreover have "batchInsertSQL s q rs db \<noteq> None" using Cons by simp
  ultimately show ?case by (cases "insertSQL s q r db") auto
qed simp

text \<open>
  C19. Without partitions \<open>EnqueueBatch\<close> stores what the single calls would store one after
  the other: duplicates of stored messages and duplicates inside the batch are skipped alike.
\<close>

theorem pg_EnqueueBatch_each:
  assumes "\<not> partitioned s" "all_ok e" "distinct (map (env_id e) [0..<length ps])"
    and "\<forall>i<length ps. env_id e i \<notin> m_id ` set (q_rows (pg_querier tx) db)"
  shows "q_rows (pg_querier tx) (fst (pg_EnqueueBatch s e tx ps db)) =
    q_rows (pg_querier tx) (enqueue_each s e tx (enumerate 0 ps) db)"
proof (cases "ps = []")
  case False
  let ?q = "pg_querier tx" and ?rows = "batch_rows e (enumerate 0 ps)"
  have rep: "env_reply e k = ExecOk" for k using assms(2) by (simp add: all_ok_def)
  have ids: "map m_id ?rows = map (env_id e) [0..<length ps]"
    using batch_rows_ids [of e "enumerate 0 ps"] by simp
  have "m_id r \<notin> m_id ` set (q_rows ?q db)" if "r \<in> set ?rows" for r
  proof -
    have "m_id r \<in> set (map m_id ?rows)" using that by simp
    then obtain i where "i < length ps" "m_id r = env_id e i" unfolding ids by auto
    with assms(4) show ?thesis by simp
  qed
  then have "batchInsertSQL s ?q ?rows db \<noteq> None"
    by (intro batchInsertSQL_fresh ballI) (simp_all only: ids assms(3) not_False_eq_True)
  then obtain db1 ins where b: "batchInsertSQL s ?q ?rows db = Some (db1, ins)" by (metis not_None_eq surj_pair)
  obtain out err ret where c: "batch_collect e ?q db1 (index_inserted e ins) (enumerate 0 ps) None = (out, err, ret)"
    using prod_cases3 by blast
  obtain db2 ne where n: "notifyEnqueue s e 2 tx (ep_EventType (hd ps)) db1 = (db2, ne)" by fastforce
  have "fst (pg_EnqueueBatch s e tx ps db) \<in> {db1, db2}"
    using False b c n by (simp add: pg_EnqueueBatch_def Let_def rep split: option.split bool.split)
  moreover have "q_rows ?q db2 = q_rows ?q db1"
    using q_rows_notify [of ?q s e 2 tx "ep_EventType (hd ps)" db1] n by simp
  ultimately show ?thesis using batchInsertSQL_each [OF assms(1,2) refl b] by auto
qed (simp add: pg_EnqueueBatch_def enqueue_each_def)

theorem pg_EnqueueBatch_each_witness:
  "messages (fst (pg_EnqueueBatch sample_store (sample_env 9 1) TxZero [sample_params ''k'', sample_params ''j''] sample_db)) =
   messages (enqueue_each sample_store (sample_env 9 1) TxZero (enumerate 0 [sample_params ''k'', sample_params ''j'']) sample_db)"
  using pg_EnqueueBatch_each [of sample_store "sample_env 9 1" "[sample_params ''k'', sample_params ''j'']" TxZero sample_db]
  by (simp add: sample_db_eq q_rows_def sample_row_def sample_store_def New_def)

text \<open>
  In the partitioned schema \<open>EnqueueBatch\<close> does not look for an existing key and the
  unique index includes the creation time, so a batch stores a second message under a key that
  a single \<open>Enqueue\<close> refuses as a duplicate.
\<close>

theorem pg_EnqueueBatch_partitioned_duplicates:
  "let s = New [WithPartitioning]; p = sample_params ''k'';
       db = fst (pg_Enqueue s (sample_env 5 0) TxZero p empty_db);
       again = pg_Enqueue s (sample_env 9 1) TxZero p db;
       batch = pg_EnqueueBatch s (sample_env 9 1) TxZero [p] db
   in IsDuplicate (snd (snd again)) \<and> fst again = db \<and> snd (snd batch) = None \<and>
      map m_idempotency_key (messages (fst batch)) = [Some ''k'', Some ''k'']"
proof -
  let ?s = "New [WithPartitioning]" and ?p = "sample_params ''k''"
  let ?db = "fst (pg_Enqueue ?s (sample_env 5 0) TxZero ?p empty_db)"
  have db: "?db = \<lparr>messages = [sample_row 0], history = [], notified = [''order''], staged = [], staged_notified = []\<rparr>"
    by (simp add: sample_defs pg_Enqueue_def enqueue_insert_def notifyEnqueue_def pg_Notify_def
      findByIdempotency_def idem_row_def insert_defs empty_db_def sample_row_def Let_def)
  have 1: "pg_Enqueue ?s (sample_env 9 1) TxZero ?p ?db = (?db, Some (scanMessage (sample_env 9 1) (sample_row 0)),
      duplicate_of ?p (scanMessage (sample_env 9 1) (sample_row 0)))"
    unfolding db by (simp add: sample_defs pg_Enqueue_def findByIdempotency_def idem_row_def q_rows_def sample_row_def)
  have 2: "snd (snd (pg_EnqueueBatch ?s (sample_env 9 1) TxZero [?p] ?db)) = None \<and>
      map m_idempotency_key (messages (fst (pg_EnqueueBatch ?s (sample_env 9 1) TxZero [?p] ?db))) = [Some ''k'', Some ''k'']"
    unfolding db by (simp add: sample_defs pg_EnqueueBatch_def batch_rows_def notifyEnqueue_def pg_Notify_def
      insert_defs sample_row_def Let_def index_inserted_def scanMessage_def parsed_def)
  from 1 2 show ?thesis unfolding Let_def by (simp add: duplicate_of_def)
qed

end
