(* ===== verification/Pg_Admin_Spec.thy ===== *)
theory Pg_Admin_Spec
  imports Pg_Enqueue_Spec
begin

text \<open>
  Maintenance and administration: what the reclaimer, the purge, \<open>Requeue\<close>, \<open>Stats\<close> and
  \<open>History\<close> of the PostgreSQL adapter return and do.
\<close>

section \<open>Library: grouping\<close>

text \<open>Summing the groups of a \<open>GROUP BY\<close> gives the ungrouped count.\<close>

lemma sum_groups:
  assumes "finite S" "k ` set rows \<subseteq> S"
  shows "(\<Sum>y\<in>S. if P y then sql_count (\<lambda>r. k r = y) rows else 0) = sql_count (\<lambda>r. P (k r)) rows"
  using assms(2)
proof (induction rows)
  case (Cons r rows)
  have c: "sql_count q (r # rows) = (if q r then 1 else 0) + sql_count q rows" for q
    by (simp add: sql_count_def)
  have "(\<Sum>y\<in>S. if P y then sql_count (\<lambda>r. k r = y) (r # rows) else 0) =
      (\<Sum>y\<in>S. (if y = k r then (if P y then 1 else 0) else 0) + (if P y then sql_count (\<lambda>r. k r = y) rows else 0))"
    by (intro sum.cong) (auto simp: c)
  also have "\<dots> = (if P (k r) then 1 else 0) + sql_count (\<lambda>r. P (k r)) rows"
    using Cons assms(1) by (simp add: sum.distrib)
  finally show ?case by (simp add: c)
qed (simp add: sql_count_def cong: if_cong)

lemma sum_list_groups:
  "sum_list (map (\<lambda>y. if P y then sql_count (\<lambda>r. k r = y) rows else 0) (remdups (map k rows))) =
   sql_count (\<lambda>r. P (k r)) rows"
  by (simp add: sum_list_distinct_conv_sum_set sum_groups)

lemma order_limit_count: "int (length (order_limit key n (filter P rows))) = min (max n 0) (sql_count P rows)"
  by (auto simp: length_order_limit sql_count_def min_def max_def)

text \<open>
  \<open>DELETE ... WHERE key IN (SELECT key ... ORDER BY k LIMIT n)\<close>: how many rows go, that they
  match, and that they are the first of those that match.
\<close>

lemma limited_delete:
  fixes rows :: "'r list" and key :: "'r \<Rightarrow> 'k" and k :: "'r \<Rightarrow> 'o::linorder" and n :: int and P :: "'r \<Rightarrow> bool"
  assumes "distinct (map key rows)"
  defines "p \<equiv> \<lambda>r. key r \<in> set (map key (order_limit k n (filter P rows)))"
  shows "sql_count p rows = min (max n 0) (sql_count P rows)" "\<forall>r\<in>set rows. p r \<longrightarrow> P r"
    "\<forall>r\<in>set rows. \<forall>r'\<in>set rows. p r \<longrightarrow> P r' \<longrightarrow> \<not> p r' \<longrightarrow> k r \<le> k r'"
proof -
  let ?x = "filter P rows" and ?sel = "order_limit k n (filter P rows)"
  have sub: "set ?sel \<subseteq> set ?x" by (rule set_order_limit)
  have "inj_on key (set rows)" using assms(1) by (simp add: distinct_map)
  then have sel: "p r \<longleftrightarrow> r \<in> set ?sel" if "r \<in> set rows" for r
    using that sub unfolding p_def by (auto dest: inj_onD)
  have "distinct (map key ?sel)" using assms(1) by (intro distinct_order_limit distinct_map_filter)
  moreover have "set (map key ?sel) \<subseteq> key ` set rows" using sub by auto
  ultimately have "sql_count p rows = int (length ?sel)"
    unfolding sql_count_def p_def by (simp only: length_filter_key_eq [OF assms(1)] length_map)
  then show "sql_count p rows = min (max n 0) (sql_count P rows)" by (simp only: order_limit_count)
  show "\<forall>r\<in>set rows. p r \<longrightarrow> P r" using sel sub by auto
  show "\<forall>r\<in>set rows. \<forall>r'\<in>set rows. p r \<longrightarrow> P r' \<longrightarrow> \<not> p r' \<longrightarrow> k r \<le> k r'"
    using sel order_limit_first [of _ k n ?x] by auto
qed

text \<open>What one call of the two purges deletes.\<close>

lemma pg_PurgeTerminal_effect:
  assumes "distinct (map m_id (messages db))" "pg_PurgeTerminal e before limit db = (db', n, err)"
  shows "\<exists>p. messages db' = sql_delete p (messages db) \<and> (\<forall>r\<in>set (messages db). p r \<longrightarrow> purge_match before r) \<and>
    history db' = history db \<and>
    (err = None \<longrightarrow> sql_count p (messages db) = n \<and>
       n = min (if limit \<le> 0 then 5000 else limit) (sql_count (purge_match before) (messages db)) \<and>
       (\<forall>r\<in>set (messages db). \<forall>r'\<in>set (messages db). p r \<longrightarrow> purge_match before r' \<longrightarrow> \<not> p r' \<longrightarrow>
          COALESCE (m_completed_at r) 0 \<le> COALESCE (m_completed_at r') 0))"
proof -
  let ?n = "if limit \<le> 0 then 5000 else limit" and ?k = "\<lambda>r. COALESCE (m_completed_at r) 0"
  let ?p = "\<lambda>r. m_id r \<in> set (purge_ids before ?n db)"
  note del = limited_delete [OF assms(1), of ?k ?n "purge_match before", folded purge_ids_def]
  show ?thesis
  proof (cases "applied (env_reply e 0)")
    case True
    then have "messages db' = sql_delete ?p (messages db)" "history db' = history db"
      using assms(2) by (auto simp: pg_PurgeTerminal_def purgeSQL_def run_stmt_def Let_def split: option.splits)
    moreover have "n = sql_count ?p (messages db)" if "err = None"
      using that assms(2) by (auto simp: pg_PurgeTerminal_def Let_def split: option.splits)
    moreover have "max ?n 0 = ?n" by simp
    ultimately show ?thesis using del by (intro exI [of _ ?p]) (simp only:, blast)
  next
    case False
    then have "db' = db" "err \<noteq> None"
      using assms(2) by (cases "env_reply e 0"; auto simp: pg_PurgeTerminal_def Let_def)+
    then show ?thesis by (intro exI [of _ "\<lambda>_. False"]) (auto simp: sql_delete_def)
  qed
qed

lemma pg_PurgeHistory_effect:
  assumes "hist_ok (history db)" "pg_PurgeHistory e before limit db = (db', n, err)"
  shows "\<exists>p. history db' = sql_delete p (history db) \<and> (\<forall>h\<in>set (history db). p h \<longrightarrow> h_at h < before) \<and>
    messages db' = messages db \<and>
    (err = None \<longrightarrow> sql_count p (history db) = n \<and>
       n = min (if limit \<le> 0 then 5000 else limit) (sql_count (\<lambda>h. h_at h < before) (history db)))"
proof -
  let ?n = "if limit \<le> 0 then 5000 else limit"
  let ?p = "\<lambda>h. hist_key h \<in> set (purge_history_keys before ?n db)"
  have "distinct (map hist_key (history db))" using assms(1) by (simp add: hist_ok_def hist_key_def [abs_def])
  note del = limited_delete [OF this, of h_at ?n "\<lambda>h. h_at h < before", folded purge_history_keys_def]
  show ?thesis
  proof (cases "applied (env_reply e 0)")
    case True
    then have "history db' = sql_delete ?p (history db)" "messages db' = messages db"
      using assms(2) by (auto simp: pg_PurgeHistory_def purgeHistorySQL_def run_stmt_def Let_def split: option.splits)
    moreover have "n = sql_count ?p (history db)" if "err = None"
      using that assms(2) by (auto simp: pg_PurgeHistory_def Let_def split: option.splits)
    moreover have "max ?n 0 = ?n" by simp
    ultimately show ?thesis using del(1,2) by (intro exI [of _ ?p]) (simp only:, blast)
  next
    case False
    then have "db' = db" "err \<noteq> None"
      using assms(2) by (cases "env_reply e 0"; auto simp: pg_PurgeHistory_def Let_def)+
    then show ?thesis by (intro exI [of _ "\<lambda>_. False"]) (auto simp: sql_delete_def)
  qed
qed

subsection \<open>Stats\<close>

lemma map_get_map_set: "map_get k d (map_set k' v m) = (if k = k' then v else map_get k d m)"
  by (simp add: map_get_def)

lemma stats_status:
  "map_get st 0 (ByStatus (fold stats_row xs out)) =
     map_get st 0 (ByStatus out) + sum_list (map (\<lambda>(et, s, c). if s = st then c else 0) xs)"
  by (induction xs arbitrary: out) (auto simp: map_get_map_set)

definition type_count :: "string \<Rightarrow> Status \<Rightarrow> Stats \<Rightarrow> int" where
  "type_count et st out = map_get st 0 (map_get et [] (ByEventType out))"

lemma stats_type_row: "type_count et st (stats_row (et', st', c) out) = (if et = et' \<and> st = st' then c else type_count et st out)"
  by (simp add: type_count_def map_get_map_set)

lemma stats_type:
  "type_count et st (fold stats_row (map (\<lambda>(et, st). (et, st, f et st)) ks) out) =
     (if (et, st) \<in> set ks then f et st else type_count et st out)"
  by (induction ks arbitrary: out) (auto simp: stats_type_row simp del: stats_row.simps split: if_splits)

section \<open>Properties\<close>

text \<open>
  C20. \<open>Stats\<close> counts exactly: the count of a status is the number of committed messages in
  it, and the count of a status under an event type is the number of messages of that type in it.
\<close>

theorem pg_Stats_counts:
  assumes "pg_Stats e db = (out, None)"
  shows "map_get st 0 (ByStatus out) = sql_count (\<lambda>r. m_status r = st) (messages db) \<and>
    map_get st 0 (map_get et [] (ByEventType out)) =
      sql_count (\<lambda>r. m_event_type r = et \<and> m_status r = st) (messages db)"
proof -
  let ?k = "\<lambda>r. (m_event_type r, m_status r)" and ?init = "\<lparr>ByStatus = [], ByEventType = [], SampledAt = env_clock e\<rparr>"
  have out: "out = fold stats_row (statsSQL (messages db)) ?init"
    using assms by (auto simp: pg_Stats_def split: option.splits)
  have "map_get st 0 (ByStatus out) =
      sum_list (map (\<lambda>y. if snd y = st then sql_count (\<lambda>r. ?k r = y) (messages db) else 0) (remdups (map ?k (messages db))))"
    unfolding out stats_status statsSQL_def
    by (simp add: map_get_def o_def split_beta prod_eq_iff cong: if_cong)
  then have 1: "map_get st 0 (ByStatus out) = sql_count (\<lambda>r. m_status r = st) (messages db)"
    by (simp add: sum_list_groups [where P = "\<lambda>y. snd y = st" and k = ?k])
  have "type_count et st out = (if (et, st) \<in> set (map ?k (messages db))
      then sql_count (\<lambda>r. m_event_type r = et \<and> m_status r = st) (messages db) else 0)"
    unfolding out statsSQL_def stats_type by (simp add: type_count_def map_get_def)
  moreover have "sql_count (\<lambda>r. m_event_type r = et \<and> m_status r = st) (messages db) = 0"
    if "(et, st) \<notin> set (map ?k (messages db))"
    using that by (auto simp: sql_count_0_iff)
  ultimately show ?thesis using 1 by (simp add: type_count_def)
qed

theorem pg_Stats_counts_witness:
  "map_get StatusCreated 0 (ByStatus (fst (pg_Stats (sample_env 9 0) sample_db))) = 1"
  using pg_Stats_counts [of "sample_env 9 0" sample_db "fst (pg_Stats (sample_env 9 0) sample_db)" StatusCreated]
  by (simp add: pg_Stats_def) (simp add: sample_db_eq sql_count_def sample_row_def)

lemma pg_ReclaimExpired_effect:
  assumes "db_ok s db" "env_ok e" "pg_ReclaimExpired e limit db = (db', n, None)"
  shows "n = min (if limit \<le> 0 then 500 else limit)
      (sql_count (\<lambda>r. lease_expired (env_now e) r \<and> \<not> env_locked e (m_id r)) (messages db)) \<and>
    (\<exists>p. messages db' = sql_update p (reclaim_set (env_now e)) (messages db) \<and> sql_count p (messages db) = n \<and>
       (\<forall>r\<in>set (messages db). p r \<longrightarrow> lease_expired (env_now e) r \<and> \<not> env_locked e (m_id r)))"
proof -
  let ?n = "if limit \<le> 0 then 500 else limit"
  let ?x = "filter (\<lambda>r. lease_expired (env_now e) r \<and> \<not> env_locked e (m_id r)) (messages db)"
  let ?p = "\<lambda>r. m_id r \<in> set (reclaim_ids e ?n db)"
  note d = db_ok_distinct [OF assms(1)]
  have ok: "reply_err (env_reply e 0) = None" and n: "n = sql_count ?p (messages db)"
    using assms(3) by (auto simp: pg_ReclaimExpired_def Let_def split: option.splits)
  then have m: "messages db' = sql_update ?p (reclaim_set (env_now e)) (messages db)"
    using assms(3) applied_if_ok [OF ok] by (auto simp: pg_ReclaimExpired_def reclaimSQL_def run_stmt_def Let_def)
  have lc: "limit_choice (env_choice e)" using assms(2) by (simp add: env_ok_def)
  have "distinct (map m_id ?x)" using d by (rule distinct_map_filter)
  then have "distinct (reclaim_ids e ?n db)" unfolding reclaim_ids_def by (rule limit_choiceD(3) [OF lc])
  moreover have "set (reclaim_ids e ?n db) \<subseteq> m_id ` set (messages db)"
    using limit_choiceD(1) [OF lc, of "nat ?n" "map m_id ?x"] unfolding reclaim_ids_def by auto
  ultimately have "n = int (length (reclaim_ids e ?n db))"
    unfolding n sql_count_def using length_filter_key_eq [OF d] by simp
  also have "\<dots> = min ?n (int (length ?x))"
    unfolding reclaim_ids_def limit_choiceD(2) [OF lc] by auto
  finally have "n = min ?n (sql_count (\<lambda>r. lease_expired (env_now e) r \<and> \<not> env_locked e (m_id r)) (messages db))"
    by (simp only: sql_count_def)
  moreover have "\<forall>r\<in>set (messages db). ?p r \<longrightarrow> lease_expired (env_now e) r \<and> \<not> env_locked e (m_id r)"
    using reclaim_ids_expired [OF assms(2) d] by blast
  ultimately show ?thesis using m n [symmetric] by (intro conjI exI [of _ ?p])
qed



text \<open>
  \<open>PurgeTerminal\<close> deletes only messages that completed before the cut-off, SUCCESS or
  DEAD alike, the oldest first, up to the limit, and returns how many; everything else stays in
  place and in order. When fewer than the limit are returned none of them is left.
\<close>

theorem pg_PurgeTerminal_spec:
  assumes "pg_reachable s db" "pg_PurgeTerminal e before limit db = (db', n, None)"
  shows "n = min (if limit \<le> 0 then 5000 else limit) (sql_count (purge_match before) (messages db)) \<and>
    (\<exists>p. messages db' = sql_delete p (messages db) \<and> sql_count p (messages db) = n \<and>
       (\<forall>r\<in>set (messages db). p r \<longrightarrow> purge_match before r) \<and>
       (\<forall>r\<in>set (messages db). \<forall>r'\<in>set (messages db). p r \<longrightarrow> purge_match before r' \<longrightarrow> \<not> p r' \<longrightarrow>
          COALESCE (m_completed_at r) 0 \<le> COALESCE (m_completed_at r') 0))"
  using pg_PurgeTerminal_effect [OF db_ok_distinct [OF pg_reachable_db_ok [OF assms(1)]] assms(2)] by blast

definition sample_done :: "nat db" where
  "sample_done = fst (pg_Succeed sample_store (sample_env 9 0) '''' 1 ''w1'' sample_handling)"

lemma sample_done_row: "messages sample_done = [succeed_set 9 (claim_set 7 ''w1'' 30 (sample_row 0))]"
  by (simp add: sample_done_def pg_Succeed_messages sample_handling_row parsed_def holds_attempt_def)
     (simp add: claim_set_def sample_row_def)

lemma sample_done_reachable: "pg_reachable sample_store sample_done"
  unfolding sample_done_def by (rule reach_step [OF sample_handling_reachable step_Succeed])

theorem pg_PurgeTerminal_spec_witness:
  "fst (snd (pg_PurgeTerminal (sample_env 20 0) 10 5 sample_done)) = 1"
  using pg_PurgeTerminal_spec [OF sample_done_reachable, of "sample_env 20 0" 10 5
      "fst (pg_PurgeTerminal (sample_env 20 0) 10 5 sample_done)"
      "fst (snd (pg_PurgeTerminal (sample_env 20 0) 10 5 sample_done))"]
  by (simp add: pg_PurgeTerminal_def Let_def)
     (simp add: sample_done_row sql_count_def purge_match_def succeed_set_def)

section \<open>History\<close>

lemma q_insert_history [simp]: "history (q_insert q r db) = history db"
  by (cases q) (simp_all add: q_insert_def)

lemma notifyEnqueue_history [simp]: "history (fst (notifyEnqueue s e k tx et db)) = history db"
  by (cases "env_reply e k"; cases "pg_querier tx"; simp add: notifyEnqueue_def pg_Notify_def q_notify_def)

lemma batchInsertSQL_history: "batchInsertSQL s q rs db = Some (db', ins) \<Longrightarrow> history db' = history db"
  by (induction s q rs db arbitrary: db' ins rule: batchInsertSQL.induct) (auto split: insert_result.splits)

text \<open>
  The history of a message is an append-only log: every call keeps the entries in place
  and only adds new ones at the end, except \<open>PurgeHistory\<close>, which removes old entries.
\<close>

theorem pg_history_append_only:
  assumes "pg_reachable s db" "pg_step s db db'"
  shows "(\<exists>hs. history db' = history db @ hs) \<or> (\<exists>e before n. db' = fst (pg_PurgeHistory e before n db))"
proof -
  note d = db_ok_distinct [OF pg_reachable_db_ok [OF assms(1)]]
  have g: "\<exists>hs. history db' = history db @ hs" if "hist_grows db db'" using that by (simp add: hist_grows_def)
  from assms(2) show ?thesis
  proof cases
    case (step_Enqueue tx e p)
    have "history (fst (pg_Enqueue s e tx p db)) = history db"
      by (cases rule: pg_Enqueue_cases [of s e tx p db]) simp_all
    with step_Enqueue show ?thesis by simp
  next
    case (step_EnqueueBatch e ps tx)
    have "history (fst (pg_EnqueueBatch s e tx ps db)) = history db"
      by (cases rule: pg_EnqueueBatch_cases [of s e tx ps db]) (simp_all add: batchInsertSQL_history)
    with step_EnqueueBatch show ?thesis by simp
  next
    case (step_PurgeTerminal e t n)
    then show ?thesis using pg_PurgeTerminal_db [of e t n db] by (auto simp: purgeSQL_def)
  next
    case (step_PurgeHistory e t n) then show ?thesis by blast
  next
    case step_commit then show ?thesis by (simp add: tx_commit_def)
  next
    case step_rollback then show ?thesis by (simp add: tx_rollback_def)
  next
    case (step_Claim e cp) then show ?thesis using g pg_Claim_grows by metis
  next
    case (step_Succeed e ident att w) then show ?thesis using g pg_Succeed_grows [OF d] by metis
  next
    case (step_BatchSucceed e bs) then show ?thesis using g pg_BatchSucceed_grows [OF d] by metis
  next
    case (step_Fail e fp) then show ?thesis using g pg_Fail_grows [OF d] by metis
  next
    case (step_ReleaseShutdown e ident att w reason)
    then show ?thesis using g pg_ReleaseShutdown_grows [OF d] by metis
  next
    case (step_Extend e ident w until) then show ?thesis using g pg_Extend_grows by metis
  next
    case (step_Requeue e ident t) then show ?thesis using g pg_Requeue_grows by metis
  next
    case (step_ReclaimExpired e n) then show ?thesis using g pg_ReclaimExpired_grows by metis
  qed
qed

theorem pg_history_append_only_witness:
  "(\<exists>hs. history sample_done = history sample_handling @ hs) \<or>
   (\<exists>e before n. sample_done = fst (pg_PurgeHistory e before n sample_handling))"
  unfolding sample_done_def by (rule pg_history_append_only [OF sample_handling_reachable step_Succeed])

text \<open>
  \<open>History\<close> returns all entries of the message and no others, ordered by strictly
  increasing positive sequence numbers.
\<close>

theorem pg_History_spec:
  assumes "pg_reachable s db" "env_ok e" "pg_History e (env_str e i) db = (ts, None)"
  shows "set ts = scanTransition e ` {h \<in> set (history db). h_message_id h = i} \<and>
    sorted_wrt (<) (map tr_Seq ts) \<and> (\<forall>t\<in>set ts. 1 \<le> tr_Seq t \<and> tr_MessageID t = env_str e i)"
proof -
  let ?hs = "filter (\<lambda>h. h_message_id h = i) (history db)"
  have ts: "ts = map (scanTransition e) (sort_key h_seq ?hs)"
    using assms(2,3) by (auto simp: pg_History_def split: option.splits)
  have ok: "hist_ok (history db)" using pg_reachable_db_ok [OF assms(1)] by (simp add: db_ok_def)
  have "distinct (map (\<lambda>h. (h_message_id h, h_seq h)) ?hs)"
    using ok unfolding hist_ok_def by (blast intro: distinct_map_filter)
  moreover have "map (\<lambda>h. (h_message_id h, h_seq h)) ?hs = map (Pair i) (map h_seq ?hs)" by simp
  ultimately have "distinct (map h_seq ?hs)" by (metis distinct_map)
  then have "distinct (map h_seq (sort_key h_seq ?hs))" by (simp add: distinct_map)
  moreover have "map tr_Seq ts = map h_seq (sort_key h_seq ?hs)" by (simp add: ts scanTransition_def)
  ultimately have "sorted_wrt (<) (map tr_Seq ts)" by (simp add: strict_sorted_iff)
  moreover have "set ts = scanTransition e ` {h \<in> set (history db). h_message_id h = i}" by (simp add: ts Collect_conj_eq)
  moreover have "\<forall>t\<in>set ts. 1 \<le> tr_Seq t \<and> tr_MessageID t = env_str e i"
    using ok by (auto simp: ts scanTransition_def hist_ok_def)
  ultimately show ?thesis by blast
qed

theorem pg_History_spec_witness:
  "sorted_wrt (<) (map tr_Seq (fst (pg_History (sample_env 9 0) '''' sample_done)))"
  using pg_History_spec [OF sample_done_reachable sample_env_ok(1), of 9 0 0 "fst (pg_History (sample_env 9 0) '''' sample_done)"]
  by (simp add: pg_History_def)


definition sample_dead :: "nat db" where
  "sample_dead = fst (pg_Fail sample_store (sample_env 9 0) (sample_fail 1 True ''w1'') sample_handling)"


end
