(* ===== verification/Pg_Storage.thy ===== *)
theory Pg_Storage
  imports Pg_Admin_Spec Storage_Iface
begin

text \<open>
  The PostgreSQL adapter as a value of the storage interface: the advisory leader locks
  (\<open>TryLeaderLock\<close>), the world its calls run in, and the proof that it keeps the contract
  of the consumer side.
\<close>

section \<open>Leader locks\<close>

text \<open>FNV-1a over the bytes of the key, in 64-bit arithmetic, read as a signed number.\<close>

unbundle bit_operations_syntax

definition fnv64a_step :: "64 word \<Rightarrow> char \<Rightarrow> 64 word" where
  "fnv64a_step h c = (h XOR of_nat (of_char c)) * 0x100000001b3"

definition fnv64a :: "string \<Rightarrow> 64 word" where
  "fnv64a key = foldl fnv64a_step 0xcbf29ce484222325 key"

definition lockKey :: "string \<Rightarrow> int" where
  "lockKey key = sint (fnv64a key)"

text \<open>
  Advisory locks held, as pairs of lock and session. A session may take a lock it already
  holds again; a lock held by another session is refused.
\<close>

type_synonym advisory = "(int \<times> nat) list"

definition pg_try_advisory_lock :: "int \<Rightarrow> nat \<Rightarrow> advisory \<Rightarrow> advisory \<times> bool" where
  "pg_try_advisory_lock k sess locks =
     (if list_ex (\<lambda>(k', s'). k' = k \<and> s' \<noteq> sess) locks then (locks, False) else ((k, sess) # locks, True))"

definition pg_advisory_unlock :: "int \<Rightarrow> nat \<Rightarrow> advisory \<Rightarrow> advisory" where
  "pg_advisory_unlock k sess locks = remove1 (k, sess) locks"

text \<open>
  \<open>TryLeaderLock\<close>: \<open>conn\<close> is the pooled connection the call gets, as its session, or the
  error of the pool; \<open>rep\<close> the reply to the lock statement. A connection that breaks ends its session,
  and the server drops the session's locks.
\<close>

definition pg_TryLeaderLock ::
  "goerr + nat \<Rightarrow> exec_reply \<Rightarrow> string \<Rightarrow> advisory \<Rightarrow> advisory \<times> bool \<times> goerr option" where
  "pg_TryLeaderLock conn rep key locks =
     (case conn of Inl er \<Rightarrow> (locks, False, Some (WrapError ''tickr/postgres: acquire conn: '' er))
      | Inr sess \<Rightarrow>
        (let (locks', ok) = pg_try_advisory_lock (lockKey key) sess locks in
         case rep of
           ExecFail er \<Rightarrow> (locks, False, Some (WrapError ''tickr/postgres: try advisory lock: '' er))
         | ExecLost er \<Rightarrow> (filter (\<lambda>(k, s). s \<noteq> sess) locks, False, Some (WrapError ''tickr/postgres: try advisory lock: '' er))
         | ExecOk \<Rightarrow> if ok then (locks', True, None) else (locks, False, None)))"

definition pg_unlock :: "nat \<Rightarrow> exec_reply \<Rightarrow> string \<Rightarrow> advisory \<Rightarrow> advisory" where
  "pg_unlock sess rep key locks = run_stmt rep (pg_advisory_unlock (lockKey key) sess) locks"

text \<open>At most one session holds a lock.\<close>

definition locks_ok :: "advisory \<Rightarrow> bool" where
  "locks_ok locks \<longleftrightarrow> (\<forall>k s s'. (k, s) \<in> set locks \<longrightarrow> (k, s') \<in> set locks \<longrightarrow> s = s')"

definition pg_owns :: "advisory \<Rightarrow> string \<Rightarrow> nat \<Rightarrow> bool" where
  "pg_owns locks key sess \<longleftrightarrow> (lockKey key, sess) \<in> set locks"

lemma TryLeaderLock_cases:
  obtains (same) er where "pg_TryLeaderLock conn rep key locks = (locks, False, er)"
  | (dropped) sess er where "conn = Inr sess"
      "pg_TryLeaderLock conn rep key locks = (filter (\<lambda>(k, s). s \<noteq> sess) locks, False, er)"
  | (taken) sess where "conn = Inr sess" "\<forall>s'. (lockKey key, s') \<in> set locks \<longrightarrow> s' = sess"
      "pg_TryLeaderLock conn rep key locks = ((lockKey key, sess) # locks, True, None)"
proof (cases conn)
  case (Inl er)
  then show ?thesis using same by (simp add: pg_TryLeaderLock_def)
next
  case (Inr sess)
  show ?thesis
  proof (cases "list_ex (\<lambda>(k', s'). k' = lockKey key \<and> s' \<noteq> sess) locks")
    case True
    with Inr show ?thesis using same dropped
      by (cases rep) (simp_all add: pg_TryLeaderLock_def pg_try_advisory_lock_def)
  next
    case False
    then have "\<forall>s'. (lockKey key, s') \<in> set locks \<longrightarrow> s' = sess" by (auto simp: list_ex_iff)
    with False Inr show ?thesis using same dropped taken
      by (cases rep) (simp_all add: pg_TryLeaderLock_def pg_try_advisory_lock_def)
  qed
qed

lemma set_pg_unlock: "set (pg_unlock sess rep key locks) \<subseteq> set locks"
  by (cases rep) (auto simp: pg_unlock_def pg_advisory_unlock_def dest: set_remove1_subset [THEN subsetD])

interpretation pg_leader: leader_lock
  "\<lambda>sess key locks. (case pg_TryLeaderLock (Inr sess) rep key locks of (locks', ok, _) \<Rightarrow> (locks', ok))"
  "\<lambda>sess key locks. pg_unlock sess rep' key locks" pg_owns locks_ok for rep rep'
proof unfold_locales
  fix c c' :: nat and k k' :: string and l l' :: advisory
  let ?acq = "\<lambda>sess key locks. (case pg_TryLeaderLock (Inr sess) rep key locks of (locks', ok, _) \<Rightarrow> (locks', ok))"
  show "locks_ok (fst (?acq c k l))" if "locks_ok l"
    using that by (cases rule: TryLeaderLock_cases [of "Inr c" rep k l]) (auto simp: locks_ok_def)
  show "locks_ok (pg_unlock c rep' k l)" if "locks_ok l"
    using that set_pg_unlock [of c rep' k l] unfolding locks_ok_def by blast
  show "c = c'" if "locks_ok l" "pg_owns l k c" "pg_owns l k c'"
    using that unfolding locks_ok_def pg_owns_def by blast
  show "pg_owns l' k c" if "locks_ok l" "?acq c k l = (l', True)"
    using that(2) by (cases rule: TryLeaderLock_cases [of "Inr c" rep k l]) (auto simp: pg_owns_def)
  show "pg_owns (fst (?acq c k' l)) k c'" if "locks_ok l" "pg_owns l k c'" "c' \<noteq> c"
    using that(2,3) by (cases rule: TryLeaderLock_cases [of "Inr c" rep k' l]) (auto simp: pg_owns_def)
  show "pg_owns (pg_unlock c rep' k' l) k c'" if "locks_ok l" "pg_owns l k c'" "c' \<noteq> c"
    using that(2,3) by (cases rep') (auto simp: pg_owns_def pg_unlock_def pg_advisory_unlock_def)
qed

section \<open>The world of the adapter\<close>

text \<open>
  The database, the advisory locks, and for the \<open>n\<close>-th call its environment and the
  connection it would get for a lock.
\<close>

record 'i world =
  w_db :: "'i db"
  w_locks :: advisory
  w_env :: "nat \<Rightarrow> 'i env"
  w_conn :: "nat \<Rightarrow> goerr + nat"
  w_calls :: nat

definition now_env :: "'i world \<Rightarrow> 'i env" where
  "now_env w = w_env w (w_calls w)"

definition call :: "('i env \<Rightarrow> 'i db \<Rightarrow> 'i db \<times> 'x) \<Rightarrow> 'i world \<Rightarrow> 'i world \<times> 'x" where
  "call f w = (let (db', x) = f (now_env w) (w_db w) in (w\<lparr>w_db := db', w_calls := Suc (w_calls w)\<rparr>, x))"

definition query :: "('i env \<Rightarrow> 'i db \<Rightarrow> 'x) \<Rightarrow> 'i world \<Rightarrow> 'i world \<times> 'x" where
  "query f w = (w\<lparr>w_calls := Suc (w_calls w)\<rparr>, f (now_env w) (w_db w))"

definition lock_call :: "string \<Rightarrow> 'i world \<Rightarrow> 'i world \<times> bool \<times> goerr option" where
  "lock_call key w =
     (let (locks', x) = pg_TryLeaderLock (w_conn w (w_calls w)) (env_reply (now_env w) 0) key (w_locks w)
      in (w\<lparr>w_locks := locks', w_calls := Suc (w_calls w)\<rparr>, x))"

text \<open>The unlock function closes over the session that holds the lock.\<close>

definition unlock_call :: "string \<Rightarrow> 'i world \<Rightarrow> 'i world" where
  "unlock_call key w =
     (case map_of (w_locks w) (lockKey key) of None \<Rightarrow> w
      | Some sess \<Rightarrow> w\<lparr>w_locks := pg_unlock sess (env_reply (now_env w) 0) key (w_locks w), w_calls := Suc (w_calls w)\<rparr>)"

definition pg_storage :: "Store \<Rightarrow> ('i::linorder) world Storage" where
  "pg_storage s =
     \<lparr>st_Enqueue = (\<lambda>tx p. call (\<lambda>e. pg_Enqueue s e tx p)),
      st_EnqueueBatch = (\<lambda>tx ps. call (\<lambda>e. pg_EnqueueBatch s e tx ps)),
      st_Claim = (\<lambda>p. call (\<lambda>e. pg_Claim s e p)),
      st_Succeed = (\<lambda>ident att wk. call (\<lambda>e. pg_Succeed s e ident att wk)),
      st_Fail = (\<lambda>p. call (\<lambda>e. pg_Fail s e p)),
      st_ReleaseShutdown = (\<lambda>ident att wk reason. call (\<lambda>e. pg_ReleaseShutdown s e ident att wk reason)),
      st_Extend = (\<lambda>ident wk until. call (\<lambda>e. pg_Extend e ident wk until)),
      st_History = (\<lambda>ident. query (\<lambda>e. pg_History e ident)),
      st_ListDead = (\<lambda>et after limit. query (\<lambda>e. pg_ListDead e et after limit)),
      st_Requeue = (\<lambda>ident t. call (\<lambda>e. pg_Requeue e ident t)),
      st_ReclaimExpired = (\<lambda>n. call (\<lambda>e. pg_ReclaimExpired e n)),
      st_PurgeTerminal = (\<lambda>t n. call (\<lambda>e. pg_PurgeTerminal e t n)),
      st_Stats = query pg_Stats,
      st_TryLeaderLock = lock_call,
      st_unlock = unlock_call,
      st_BatchSucceed = Some (\<lambda>ps. call (\<lambda>e. pg_BatchSucceed s e ps)),
      st_Notify = Some (\<lambda>tx et. call (\<lambda>e. pg_Notify e 0 tx et)),
      st_PurgeHistory = Some (\<lambda>t n. call (\<lambda>e. pg_PurgeHistory e t n))\<rparr>"

section \<open>The consumer contract\<close>

definition lease_of :: "'i msg_row \<Rightarrow> lease" where
  "lease_of r = \<lparr>ls_status = m_status r, ls_attempt = m_attempt r, ls_worker = m_claimed_by r, ls_due = m_process_at r\<rparr>"

definition pg_look :: "'i world \<Rightarrow> message_id \<Rightarrow> lease option" where
  "pg_look w ident =
     map_option lease_of (row_by (\<lambda>r. env_str (w_env w 0) (m_id r)) ident (messages (w_db w)))"

text \<open>The invariant of the database, and one spelling of identifiers for all calls.\<close>

definition world_ok :: "Store \<Rightarrow> 'i world \<Rightarrow> bool" where
  "world_ok s w \<longleftrightarrow> db_ok s (w_db w) \<and> (\<forall>n. env_ok (w_env w n) \<and> env_str (w_env w n) = env_str (w_env w 0))"

lemma world_okD:
  assumes "world_ok s w"
  shows "db_ok s (w_db w)" "env_ok (now_env w)" "env_str (now_env w) = env_str (w_env w 0)" "env_ok (w_env w 0)"
  using assms by (simp_all add: world_ok_def now_env_def)

lemma call_eq: "call f w = (w\<lparr>w_db := fst (f (now_env w) (w_db w)), w_calls := Suc (w_calls w)\<rparr>, snd (f (now_env w) (w_db w)))"
  by (simp add: call_def split_beta)

lemma world_ok_call: "world_ok s w \<Longrightarrow> db_ok s (fst (f (now_env w) (w_db w))) \<Longrightarrow> world_ok s (fst (call f w))"
  by (simp add: call_eq world_ok_def)

lemma pg_look_str:
  fixes w :: "'i world"
  assumes "env_ok (w_env w 0)"
  shows "pg_look w (env_str (w_env w 0) i) = map_option lease_of (row_by m_id i (messages (w_db w)))"
proof -
  have "row_by (\<lambda>r. env_str (w_env w 0) (m_id r)) (env_str (w_env w 0) i) rows = row_by m_id i rows" for rows :: "'i msg_row list"
    by (induction rows) (simp_all add: env_str_inj [OF assms])
  then show ?thesis by (simp add: pg_look_def)
qed

lemma pg_look_other: "(\<forall>i. env_str (w_env w 0) i \<noteq> j) \<Longrightarrow> pg_look w j = None"
  by (simp add: pg_look_def) (simp add: row_by_None_iff image_iff, metis)

lemma pg_look_SomeD:
  assumes "world_ok s w" "pg_look w ident = Some l"
  obtains i r where "ident = env_str (w_env w 0) i" "row_by m_id i (messages (w_db w)) = Some r" "l = lease_of r"
    "parsed (now_env w) ident = Some i"
proof -
  obtain i where i: "ident = env_str (w_env w 0) i" using assms(2) pg_look_other by (metis option.distinct(1))
  note ok = world_okD [OF assms(1)]
  obtain r where r: "row_by m_id i (messages (w_db w)) = Some r" "l = lease_of r"
    using assms(2) unfolding i pg_look_str [OF ok(4)] by auto
  have "parsed (now_env w) ident = Some i" using ok(2,3) i by (metis parsed_str)
  then show ?thesis using that i r by blast
qed

text \<open>Two worlds with the same identifiers show the same message where they show the same row.\<close>

lemma pg_look_cong:
  assumes "env_ok (w_env w 0)" "w_env w' = w_env w"
    and "\<And>i. j = env_str (w_env w 0) i \<Longrightarrow> row_by m_id i (messages (w_db w')) = row_by m_id i (messages (w_db w))"
  shows "pg_look w' j = pg_look w j"
proof (cases "\<exists>i. j = env_str (w_env w 0) i")
  case True
  then obtain i where i: "j = env_str (w_env w 0) i" by blast
  have "pg_look w' (env_str (w_env w' 0) i) = map_option lease_of (row_by m_id i (messages (w_db w')))"
    using assms(1,2) by (intro pg_look_str) simp
  then show ?thesis using assms(3) [OF i] assms(2) unfolding i by (simp add: pg_look_str [OF assms(1)])
next
  case False
  then show ?thesis using pg_look_other [of w j] pg_look_other [of w' j] assms(2) by metis
qed

text \<open>The shape shared by the three completions, lifted to the world.\<close>

lemma pg_ack_world:
  assumes "world_ok s w" "held pg_look w ident att wk"
    and "\<And>e db mid. parsed e ident = Some mid \<Longrightarrow> applied (env_reply e 0) \<Longrightarrow>
      messages (fst (f e db)) = sql_update (holds_attempt mid att) (g e) (messages db)"
    and "\<And>e db. snd (f e db) = None \<Longrightarrow> applied (env_reply e 0)"
    and "\<And>e r. m_id (g e r) = m_id r" and "call f w = (w', None)"
  obtains r where "pg_look w ident = Some (lease_of r)" "m_attempt r = att"
    "pg_look w' ident = Some (lease_of (g (now_env w) r))" "only pg_look ident w w'"
proof -
  from assms(2) obtain l where l: "pg_look w ident = Some l" "ls_status l = StatusHandling" "ls_attempt l = att"
    by (auto simp: held_def split: option.splits)
  obtain i r where i: "ident = env_str (w_env w 0) i" "row_by m_id i (messages (w_db w)) = Some r" "l = lease_of r"
    "parsed (now_env w) ident = Some i" by (rule pg_look_SomeD [OF assms(1) l(1)])
  have w': "w_env w' = w_env w" "w_db w' = fst (f (now_env w) (w_db w))" "snd (f (now_env w) (w_db w)) = None"
    using assms(6) by (auto simp: call_eq)
  have m: "messages (w_db w') = sql_update (holds_attempt i att) (g (now_env w)) (messages (w_db w))"
    using assms(3) [OF i(4) assms(4) [OF w'(3)]] w'(2) by simp
  have row: "row_by m_id k (messages (w_db w')) = map_option (\<lambda>r. if k = i \<and> m_status r = StatusHandling \<and>
      m_attempt r = att then g (now_env w) r else r) (row_by m_id k (messages (w_db w)))" for k
    unfolding m by (rule ack_row) (rule assms(5))
  note ok = world_okD [OF assms(1)]
  have st: "m_status r = StatusHandling" "m_attempt r = att" using l(2,3) i(3) by (simp_all add: lease_of_def)
  have "pg_look w' ident = Some (lease_of (g (now_env w) r))"
    using pg_look_str [of w' i] ok(4) w'(1) row [of i] i(1,2) st by simp
  moreover have "only pg_look ident w w'"
    unfolding only_def
  proof (intro allI impI)
    fix j assume j: "j \<noteq> ident"
    show "pg_look w' j = pg_look w j"
    proof (rule pg_look_cong [OF ok(4) w'(1)])
      fix k assume "j = env_str (w_env w 0) k"
      with j i(1) have "k \<noteq> i" by blast
      then show "row_by m_id k (messages (w_db w')) = row_by m_id k (messages (w_db w))"
        by (cases "row_by m_id k (messages (w_db w))") (simp_all add: row)
    qed
  qed
  ultimately show ?thesis using that l(1) i(3) st(2) by blast
qed

lemma reply_none_applied: "map_option f (reply_err rep) = None \<Longrightarrow> applied rep"
  by (cases rep) auto

lemma ack_applied:
  "snd (pg_Succeed s e ident att wk db) = None \<Longrightarrow> applied (env_reply e 0)"
  "snd (pg_Fail s e p db) = None \<Longrightarrow> applied (env_reply e 0)"
  "snd (pg_ReleaseShutdown s e ident att wk reason db) = None \<Longrightarrow> applied (env_reply e 0)"
  by (auto simp: pg_Succeed_def pg_Fail_def pg_ReleaseShutdown_def Let_def split: sum.splits
      intro: applied_if_ok)

text \<open>A claim, read in the world: the rows it moved are the messages it returned.\<close>

lemma pg_claim_rows:
  fixes w :: "('i::linorder) world"
  assumes "world_ok s w" "call (\<lambda>e. pg_Claim s e p) w = (w', out, None)"
  shows "distinct (map im_ID out)" "w_env w' = w_env w"
    "\<forall>m\<in>set out. \<exists>r\<in>set (messages (w_db w)). m = scanMessage (now_env w) (claim_to (now_env w) p r)"
    "row_by m_id i (messages (w_db w')) = map_option (\<lambda>r. if env_str (w_env w 0) (m_id r) \<in> im_ID ` set out
       then claim_to (now_env w) p r else r) (row_by m_id i (messages (w_db w)))"
proof -
  note ok = world_okD [OF assms(1)]
  obtain db' where c: "pg_Claim s (now_env w) p (w_db w) = (db', out, None)" and w': "w_db w' = db'" "w_env w' = w_env w"
    using assms(2) by (cases "pg_Claim s (now_env w) p (w_db w)") (auto simp: call_eq)
  show "distinct (map im_ID out)" "w_env w' = w_env w"
    using pg_Claim_effect(1) [OF ok(1,2) c] w'(2) by blast+
  show "\<forall>m\<in>set out. \<exists>r\<in>set (messages (w_db w)). m = scanMessage (now_env w) (claim_to (now_env w) p r)"
    using pg_Claim_effect [OF ok(1,2) c] by blast
  have "messages db' = sql_update (\<lambda>r. env_str (w_env w 0) (m_id r) \<in> im_ID ` set out) (claim_to (now_env w) p) (messages (w_db w))"
    using pg_Claim_effect [OF ok(1,2) c] unfolding ok(3) by blast
  then show "row_by m_id i (messages (w_db w')) = map_option (\<lambda>r. if env_str (w_env w 0) (m_id r) \<in> im_ID ` set out
       then claim_to (now_env w) p r else r) (row_by m_id i (messages (w_db w)))"
    unfolding w'(1) by (simp only:) (rule row_by_update, simp)
qed

lemma pg_claim_held:
  fixes w :: "('i::linorder) world"
  assumes "world_ok s w" "call (\<lambda>e. pg_Claim s e p) w = (w', out, None)" "m \<in> set out"
  shows "held pg_look w' (im_ID m) (im_Attempt m) (cp_WorkerID p)"
proof -
  note ok = world_okD [OF assms(1)] and c = pg_claim_rows [OF assms(1,2)]
  let ?r' = "claim_to (now_env w) p"
  obtain r where r: "r \<in> set (messages (w_db w))" "m = scanMessage (now_env w) (?r' r)" using c(3) assms(3) by blast
  have id: "im_ID m = env_str (w_env w 0) (m_id r)" using r(2) ok(3) by (simp add: scanMessage_def)
  then have "env_str (w_env w 0) (m_id r) \<in> im_ID ` set out" using assms(3) by (metis image_eqI)
  then have "row_by m_id (m_id r) (messages (w_db w')) = Some (?r' r)"
    unfolding c(4) row_by_in [OF db_ok_distinct [OF ok(1)] r(1)] by simp
  then have "pg_look w' (im_ID m) = Some (lease_of (?r' r))"
    using pg_look_str [of w' "m_id r"] ok(4) c(2) id by simp
  then show ?thesis by (simp add: held_def lease_of_def r(2) scanMessage_def) (simp add: claim_set_def)
qed

lemma pg_claim_frame:
  fixes w :: "('i::linorder) world"
  assumes "world_ok s w" "call (\<lambda>e. pg_Claim s e p) w = (w', out, None)" "j \<notin> im_ID ` set out"
  shows "pg_look w' j = pg_look w j"
proof (rule pg_look_cong [OF world_okD(4) [OF assms(1)] pg_claim_rows(2) [OF assms(1,2)]])
  fix i assume i: "j = env_str (w_env w 0) i"
  note row = pg_claim_rows(4) [OF assms(1,2)]
  show "row_by m_id i (messages (w_db w')) = row_by m_id i (messages (w_db w))"
  proof (cases "row_by m_id i (messages (w_db w))")
    case (Some r)
    from row_by_Some_in [OF this] have "env_str (w_env w 0) (m_id r) \<notin> im_ID ` set out" using assms(3) i by simp
    then show ?thesis unfolding row Some by simp
  qed (unfold row, simp)
qed

lemma pg_extend_rows: "map lease_of (messages (fst (pg_Extend e ident wk until db))) = map lease_of (messages db)"
  "map m_id (messages (fst (pg_Extend e ident wk until db))) = map m_id (messages db)"
proof -
  have "messages (fst (pg_Extend e ident wk until db)) \<in> {messages db} \<union>
      range (\<lambda>p. sql_update p (\<lambda>r. r\<lparr>m_claimed_until := Some until, m_updated_at := env_now e\<rparr>) (messages db))"
    by (auto simp: pg_Extend_def extendSQL_def run_stmt_def Let_def split: sum.splits option.splits)
  then show "map lease_of (messages (fst (pg_Extend e ident wk until db))) = map lease_of (messages db)"
    "map m_id (messages (fst (pg_Extend e ident wk until db))) = map m_id (messages db)"
    by (auto simp: lease_of_def)
qed

lemma row_by_lease_cong:
  fixes rows rows' :: "'i msg_row list"
  assumes "map lease_of rows' = map lease_of rows" "map m_id rows' = map m_id rows"
  shows "map_option lease_of (row_by m_id i rows') = map_option lease_of (row_by m_id i rows)"
proof -
  have "list_all2 (\<lambda>r' r. lease_of r' = lease_of r \<and> m_id r' = m_id r) rows' rows"
    using assms by (auto simp: list_all2_conv_all_nth list_eq_iff_nth_eq)
  then show ?thesis by (induction rule: list_all2_induct) simp_all
qed

text \<open>Every method keeps the invariant.\<close>

lemma pg_world_inv:
  assumes "world_ok s w"
  shows "world_ok s (fst (call (\<lambda>e. pg_Claim s e p) w))"
    "world_ok s (fst (call (\<lambda>e. pg_Succeed s e ident att wk) w))"
    "world_ok s (fst (call (\<lambda>e. pg_BatchSucceed s e bs) w))"
    "world_ok s (fst (call (\<lambda>e. pg_Fail s e fp) w))"
    "world_ok s (fst (call (\<lambda>e. pg_ReleaseShutdown s e ident att wk reason) w))"
    "world_ok s (fst (call (\<lambda>e. pg_Extend e ident wk until) w))"
    "world_ok s (fst (call (\<lambda>e. pg_Requeue e ident t) w))"
    "world_ok s (fst (call (\<lambda>e. pg_ReclaimExpired e n) w))"
    "world_ok s (fst (call (\<lambda>e. pg_PurgeTerminal e t n) w))"
proof -
  note ok = world_okD [OF assms] and d = db_ok_distinct [OF world_okD(1) [OF assms]]
  note step = world_ok_call [OF assms rowwise_db_ok [OF ok(1)]]
  show "world_ok s (fst (call (\<lambda>e. pg_Claim s e p) w))" by (rule step) (intro pg_Claim_rowwise pg_Claim_grows d)+
  show "world_ok s (fst (call (\<lambda>e. pg_Succeed s e ident att wk) w))"
    by (rule step) (intro pg_Succeed_rowwise pg_Succeed_grows d)+
  show "world_ok s (fst (call (\<lambda>e. pg_BatchSucceed s e bs) w))"
    by (rule step) (intro pg_BatchSucceed_rowwise pg_BatchSucceed_grows d)+
  show "world_ok s (fst (call (\<lambda>e. pg_Fail s e fp) w))" by (rule step) (intro pg_Fail_rowwise pg_Fail_grows d)+
  show "world_ok s (fst (call (\<lambda>e. pg_ReleaseShutdown s e ident att wk reason) w))"
    by (rule step) (intro pg_ReleaseShutdown_rowwise pg_ReleaseShutdown_grows d)+
  show "world_ok s (fst (call (\<lambda>e. pg_Extend e ident wk until) w))" by (rule step) (intro pg_Extend_rowwise pg_Extend_grows)+
  show "world_ok s (fst (call (\<lambda>e. pg_Requeue e ident t) w))" by (rule step) (intro pg_Requeue_rowwise pg_Requeue_grows)+
  show "world_ok s (fst (call (\<lambda>e. pg_ReclaimExpired e n) w))"
    by (rule step) (intro pg_ReclaimExpired_rowwise pg_ReclaimExpired_grows ok(2) d)+
  show "world_ok s (fst (call (\<lambda>e. pg_PurgeTerminal e t n) w))"
    by (rule world_ok_call [OF assms]) (rule pg_PurgeTerminal_db_ok [OF ok(1)])
qed

lemma pg_world_succeed:
  fixes w :: "('i::linorder) world"
  assumes "world_ok s w" "held pg_look w ident att wk" "call (\<lambda>e. pg_Succeed s e ident att wk) w = (w', None)"
  shows "status_of pg_look w' ident = Some StatusSuccess \<and> only pg_look ident w w'"
proof -
  obtain r :: "'i msg_row" where "pg_look w' ident = Some (lease_of (succeed_set (env_now (now_env w)) r))" "only pg_look ident w w'"
    by (rule pg_ack_world [OF assms(1,2) _ _ _ assms(3), where g = "\<lambda>e. succeed_set (env_now e)"])
       (simp add: pg_Succeed_messages, simp add: ack_applied, simp, iprover)
  then show ?thesis by (simp add: status_of_def lease_of_def succeed_set_def)
qed

lemma pg_world_fail:
  assumes "world_ok s w" "held pg_look w (fp_MessageID fp) (fp_Attempt fp) (fp_WorkerID fp)"
    "call (\<lambda>e. pg_Fail s e fp) w = (w', None)"
  shows "(\<exists>l. pg_look w' (fp_MessageID fp) = Some l \<and> ls_attempt l = fp_Attempt fp \<and>
         ls_status l = (if fp_Dead fp then StatusDead else StatusRetrying) \<and>
         (\<not> fp_Dead fp \<longrightarrow> ls_due l = fp_NextRetryAt fp)) \<and> only pg_look (fp_MessageID fp) w w'"
proof -
  obtain r where "pg_look w' (fp_MessageID fp) = Some (lease_of (fail_set (now_env w) fp r))" "only pg_look (fp_MessageID fp) w w'"
    "m_attempt r = fp_Attempt fp"
    by (rule pg_ack_world [OF assms(1,2) _ _ _ assms(3), where g = "\<lambda>e. fail_set e fp"])
       (simp add: pg_Fail_messages, simp add: ack_applied, simp, iprover)
  then show ?thesis by (simp add: lease_of_def fail_set_def fail_dead_set_def fail_retry_set_def)
qed

lemma pg_world_release:
  fixes w :: "('i::linorder) world"
  assumes "world_ok s w" "held pg_look w ident att wk"
    "call (\<lambda>e. pg_ReleaseShutdown s e ident att wk reason) w = (w', None)"
  shows "(\<exists>l. pg_look w' ident = Some l \<and> ls_status l \<in> {StatusCreated, StatusRetrying} \<and> ls_attempt l = att - 1) \<and>
      only pg_look ident w w'"
proof -
  obtain r :: "'i msg_row" where r: "pg_look w ident = Some (lease_of r)"
    "pg_look w' ident = Some (lease_of (release_set (env_now (now_env w)) reason r))" "only pg_look ident w w'"
    "m_attempt r = att"
    by (rule pg_ack_world [OF assms(1,2) _ _ _ assms(3), where g = "\<lambda>e. release_set (env_now e) reason"])
       (simp add: pg_ReleaseShutdown_messages, simp add: ack_applied, simp, iprover)
  obtain i r' where "row_by m_id i (messages (w_db w)) = Some r'" "lease_of r = lease_of r'"
    by (rule pg_look_SomeD [OF assms(1) r(1)])
  moreover from this(1) have "row_ok r'" 
    using world_okD(1) [OF assms(1)] row_by_Some_in [of m_id i _ r'] by (simp add: db_ok_def)
  ultimately have "1 \<le> att"
    using assms(2) r(1,4) by (auto simp: held_def lease_of_def row_ok_def)
  with r show ?thesis by (simp add: lease_of_def release_set_def)
qed

lemma pg_world_extend:
  assumes "world_ok s w"
  shows "pg_look (fst (call (\<lambda>e. pg_Extend e ident wk until) w)) j = pg_look w j"
proof -
  let ?w' = "fst (call (\<lambda>e. pg_Extend e ident wk until) w)"
  have env: "w_env ?w' = w_env w" by (simp add: call_eq)
  show ?thesis
  proof (cases "\<exists>i. j = env_str (w_env w 0) i")
    case True
    then obtain i where i: "j = env_str (w_env w 0) i" by blast
    have "pg_look ?w' j = map_option lease_of (row_by m_id i (messages (w_db ?w')))"
      using pg_look_str [of ?w' i] world_okD(4) [OF assms] env i by simp
    also have "\<dots> = map_option lease_of (row_by m_id i (messages (w_db w)))"
      unfolding call_eq by (simp add: row_by_lease_cong [OF pg_extend_rows])
    also have "\<dots> = pg_look w j" using pg_look_str [of w i] world_okD(4) [OF assms] i by simp
    finally show ?thesis .
  next
    case False
    then show ?thesis using pg_look_other [of w j] pg_look_other [of ?w' j] env by metis
  qed
qed

text \<open>A batch of acknowledgements that reports no error: every row one of them holds.\<close>

definition batch_upd :: "'i env \<Rightarrow> BatchSucceedParam list \<Rightarrow> 'i \<Rightarrow> 'i msg_row \<Rightarrow> 'i msg_row" where
  "batch_upd e ps i r = (if m_status r = StatusHandling \<and>
       list_ex (\<lambda>p. parsed e (bs_MessageID p) = Some i \<and> bs_Attempt p = m_attempt r) ps
     then succeed_set (env_now e) r else r)"

lemma batch_upd_Nil [simp]: "batch_upd e [] i = (\<lambda>r. r)"
  by (simp add: batch_upd_def fun_eq_iff)

lemma batch_upd_Cons:
  "batch_upd e ps i (if parsed e (bs_MessageID p) = Some i \<and> m_status r = StatusHandling \<and> m_attempt r = bs_Attempt p
     then succeed_set (env_now e) r else r) = batch_upd e (p # ps) i r"
proof (cases "parsed e (bs_MessageID p) = Some i \<and> m_status r = StatusHandling \<and> m_attempt r = bs_Attempt p")
  case True
  have "m_status (succeed_set (env_now e) r) \<noteq> StatusHandling" by (simp add: succeed_set_def)
  then have "batch_upd e ps i (succeed_set (env_now e) r) = succeed_set (env_now e) r"
    by (simp add: batch_upd_def)
  moreover have "batch_upd e (p # ps) i r = succeed_set (env_now e) r"
    using True unfolding batch_upd_def list_ex_iff by (metis list.set_intros(1))
  ultimately show ?thesis using True by metis
next
  case False
  then have "m_status r = StatusHandling \<Longrightarrow> \<not> (parsed e (bs_MessageID p) = Some i \<and> bs_Attempt p = m_attempt r)" by auto
  then have "batch_upd e (p # ps) i r = batch_upd e ps i r"
    unfolding batch_upd_def by (cases "m_status r = StatusHandling") (simp_all, blast)
  then show ?thesis unfolding if_not_P [OF False] by simp
qed

lemma batch_stmts_row:
  "row_by m_id i (messages (fold (\<lambda>f. f)
      (List.map_filter (\<lambda>p. map_option (succeed_stmt s e p) (parsed e (bs_MessageID p))) ps) db)) =
   map_option (batch_upd e ps i) (row_by m_id i (messages db))"
proof (induction ps arbitrary: db)
  case Nil
  show ?case by (simp add: List.map_filter_simps option.map_ident)
next
  case (Cons p ps)
  show ?case
  proof (cases "parsed e (bs_MessageID p)")
    case None
    then have "batch_upd e (p # ps) i = batch_upd e ps i" by (simp add: batch_upd_def fun_eq_iff)
    with None show ?thesis by (simp add: List.map_filter_simps Cons.IH)
  next
    case (Some mid)
    have "messages (succeed_stmt s e p mid db) =
        sql_update (holds_attempt mid (bs_Attempt p)) (succeed_set (env_now e)) (messages db)"
      by (simp add: succeed_stmt_def succeedSQL_def succeedNoHistorySQL_def Let_def)
    then have "row_by m_id i (messages (succeed_stmt s e p mid db)) =
        map_option (\<lambda>r. if i = mid \<and> m_status r = StatusHandling \<and> m_attempt r = bs_Attempt p
          then succeed_set (env_now e) r else r) (row_by m_id i (messages db))"
      by (simp only: ack_row [of "succeed_set (env_now e)", OF set_ids(1)])
    also have "\<dots> = map_option (\<lambda>r. if parsed e (bs_MessageID p) = Some i \<and> m_status r = StatusHandling \<and>
        m_attempt r = bs_Attempt p then succeed_set (env_now e) r else r) (row_by m_id i (messages db))"
      unfolding Some by (simp only: option.inject eq_commute [of mid])
    finally have "map_option (batch_upd e ps i) (row_by m_id i (messages (succeed_stmt s e p mid db))) =
        map_option (batch_upd e (p # ps) i) (row_by m_id i (messages db))"
      by (simp only: option.map_comp comp_def batch_upd_Cons)
    then show ?thesis by (simp add: List.map_filter_simps Some Cons.IH)
  qed
qed

lemma run_batch_none:
  "run_batch e k we wc fs n db = (db', None) \<Longrightarrow> db' = fold (\<lambda>f. f) fs db"
  by (auto simp: run_batch_def run_stmt_def dest: applied_if_ok split: if_splits option.splits)

lemma pg_BatchSucceed_row:
  assumes "pg_BatchSucceed s e ps db = (db', None)"
  shows "row_by m_id i (messages db') = map_option (batch_upd e ps i) (row_by m_id i (messages db))"
proof (cases "ps = []")
  case False
  with assms have "db' = fold (\<lambda>f. f)
      (List.map_filter (\<lambda>p. map_option (succeed_stmt s e p) (parsed e (bs_MessageID p))) ps) db"
    by (auto simp: pg_BatchSucceed_stmts split: option.splits intro: run_batch_none)
  then show ?thesis by (simp only: batch_stmts_row)
qed (use assms in \<open>simp add: pg_BatchSucceed_stmts option.map_ident\<close>)

lemma pg_world_batch_held:
  assumes "Some (\<lambda>ps. call (\<lambda>e. pg_BatchSucceed s e ps)) = Some batch" "world_ok s w" "batch ps w = (w', None)"
    "b \<in> set ps" "held pg_look w (bs_MessageID b) (bs_Attempt b) (bs_WorkerID b)"
  shows "status_of pg_look w' (bs_MessageID b) = Some StatusSuccess"
proof -
  note ok = world_okD [OF assms(2)]
  have c: "pg_BatchSucceed s (now_env w) ps (w_db w) = (w_db w', None)" "w_env w' = w_env w"
    using assms(1,3) by (auto simp: call_eq prod_eq_iff)
  obtain l where l: "pg_look w (bs_MessageID b) = Some l" "ls_status l = StatusHandling" "ls_attempt l = bs_Attempt b"
    using assms(5) by (auto simp: held_def split: option.splits)
  obtain i r where i: "bs_MessageID b = env_str (w_env w 0) i" "row_by m_id i (messages (w_db w)) = Some r" "l = lease_of r"
    "parsed (now_env w) (bs_MessageID b) = Some i" by (rule pg_look_SomeD [OF assms(2) l(1)])
  have "row_by m_id i (messages (w_db w')) = Some (succeed_set (env_now (now_env w)) r)"
    unfolding pg_BatchSucceed_row [OF c(1)] using i l assms(4) by (auto simp: lease_of_def batch_upd_def list_ex_iff)
  then show ?thesis
    using pg_look_str [of w' i] ok(4) c(2) i(1) by (simp add: status_of_def lease_of_def succeed_set_def)
qed

lemma pg_world_batch_frame:
  assumes "Some (\<lambda>ps. call (\<lambda>e. pg_BatchSucceed s e ps)) = Some batch" "world_ok s w" "batch ps w = (w', None)"
    "\<And>b. b \<in> set ps \<Longrightarrow> pg_look w (bs_MessageID b) \<noteq> None" "j \<notin> bs_MessageID ` set ps"
  shows "pg_look w' j = pg_look w j"
proof -
  have c: "pg_BatchSucceed s (now_env w) ps (w_db w) = (w_db w', None)" "w_env w' = w_env w"
    using assms(1,3) by (auto simp: call_eq prod_eq_iff)
  show ?thesis
  proof (rule pg_look_cong [OF world_okD(4) [OF assms(2)] c(2)])
    fix i assume i: "j = env_str (w_env w 0) i"
    have "parsed (now_env w) (bs_MessageID b) \<noteq> Some i" if b: "b \<in> set ps" for b
    proof -
      obtain l where "pg_look w (bs_MessageID b) = Some l" using assms(4) [OF b] by blast
      then obtain i' where "bs_MessageID b = env_str (w_env w 0) i'" "parsed (now_env w) (bs_MessageID b) = Some i'"
        by (rule pg_look_SomeD [OF assms(2)])
      with b assms(5) i show ?thesis by (metis image_eqI option.inject)
    qed
    then show "row_by m_id i (messages (w_db w')) = row_by m_id i (messages (w_db w))"
      unfolding pg_BatchSucceed_row [OF c(1)] by (cases "row_by m_id i (messages (w_db w))") (auto simp: batch_upd_def list_ex_iff)
  qed
qed

lemma pg_world_batch_inv:
  fixes w :: "('i::linorder) world"
  shows "Some (\<lambda>ps. call (\<lambda>e. pg_BatchSucceed s e ps)) = Some batch \<Longrightarrow> world_ok s w \<Longrightarrow> world_ok s (fst (batch ps w))"
  using pg_world_inv(3) by auto

lemmas pg_storage_simps = pg_storage_def Storage.simps

interpretation pg_consumer: consumer_storage "pg_storage s" pg_look "world_ok s" for s
  by (unfold_locales, unfold pg_storage_simps)
     ((rule pg_world_inv pg_claim_rows(1) pg_claim_held pg_claim_frame pg_world_succeed pg_world_batch_inv pg_world_batch_held pg_world_batch_frame
       pg_world_fail pg_world_release pg_world_extend; blast?; assumption)+)

end
