(* ===== verification/Client_Spec.thy ===== *)
theory Client_Spec
  imports Client Pg_Storage
begin

text \<open>
  The producer over the PostgreSQL adapter: what an enqueue that reports success has stored,
  that a retried enqueue is harmless, and that the body a producer encodes is the body the
  handler of a typed registration receives, however the message travelled in between.
\<close>

section \<open>Library\<close>

text \<open>Any sequence of adapter calls along which a predicate of the database stays true.\<close>

inductive pg_path :: "Store \<Rightarrow> (('i::linorder) db \<Rightarrow> bool) \<Rightarrow> 'i db \<Rightarrow> 'i db \<Rightarrow> bool" for s P where
  path_refl: "pg_path s P db db"
| path_step: "pg_path s P db db1 \<Longrightarrow> pg_step s db1 db2 \<Longrightarrow> P db2 \<Longrightarrow> pg_path s P db db2"

definition stored :: "'i \<Rightarrow> 'i db \<Rightarrow> bool" where
  "stored i db \<longleftrightarrow> row_by m_id i (messages db) \<noteq> None"

lemma same_message_trans: "same_message a b \<Longrightarrow> same_message b c \<Longrightarrow> same_message a c"
  by (simp add: same_message_def)

lemma pg_path_row:
  assumes "pg_path s (stored i) db db'" "db_ok s db" "row_by m_id i (messages db) = Some r"
  shows "db_ok s db' \<and> (\<exists>r'. row_by m_id i (messages db') = Some r' \<and> same_message r r')"
  using assms
proof (induction rule: pg_path.induct)
  case (path_step db db1 db2)
  then obtain r1 where r1: "db_ok s db1" "row_by m_id i (messages db1) = Some r1" "same_message r r1" by blast
  have "\<exists>r'. row_by m_id i (messages db2) = Some r' \<and> row_step r1 r'"
    using pg_step_row [OF path_step.hyps(2) r1(1,2)] path_step.hyps(3) by (auto simp: stored_def)
  then show ?case
    using pg_step_db_ok [OF path_step.hyps(2) r1(1)] row_step_same same_message_trans [OF r1(3)] by blast
qed (use same_message_refl in blast)

lemma enqueue_insert_returns:
  "enqueue_insert s e TxZero p r db = (db', m, None) \<Longrightarrow>
     m = Some (scanMessage e r) \<and> messages db' = messages db @ [r]"
  by (auto simp: enqueue_insert_def duplicate_of_def findByIdempotency_def Let_def q_insert_def pg_querier_def
      notifyEnqueue_def pg_Notify_def q_notify_def run_stmt_def
      split: exec_reply.splits insert_result.splits option.splits if_splits prod.splits)

lemma pg_Enqueue_returns:
  "pg_Enqueue s e TxZero p db = (db', m, None) \<Longrightarrow>
     m = Some (scanMessage e (enqueue_of e 0 p)) \<and> messages db' = messages db @ [enqueue_of e 0 p]"
  by (auto simp: pg_Enqueue_unfold duplicate_of_def findByIdempotency_def Let_def dest!: enqueue_insert_returns
      split: option.splits if_splits prod.splits)

lemma try_notify_pg:
  "w_env (try_notify (pg_storage s) tx et w) = w_env w"
  "messages (w_db (try_notify (pg_storage s) tx et w)) = messages (w_db w)"
  by (auto simp: try_notify_def pg_storage_def call_eq pg_Notify_def q_notify_def run_stmt_def
      split: option.splits querier.splits)

text \<open>An enqueue that reports success has added the row it names.\<close>

lemma client_Enqueue_stored:
  assumes "cl_Storage c = pg_storage s" "client_Enqueue c now TxZero msg w = (w1, (i, None), os)"
  shows "msg_Type msg \<noteq> '''' \<and> i = env_str (now_env w) (env_id (now_env w) 0) \<and> w_env w1 = w_env w \<and>
    messages (w_db w1) = messages (w_db w) @ [enqueue_of (now_env w) 0 (client_params c now 0 msg)]"
proof -
  let ?p = "client_params c now 0 msg"
  have st: "st_Enqueue (cl_Storage c) TxZero ?p w =
      (w\<lparr>w_db := fst (pg_Enqueue s (now_env w) TxZero ?p (w_db w)), w_calls := Suc (w_calls w)\<rparr>,
       snd (pg_Enqueue s (now_env w) TxZero ?p (w_db w)))"
    by (simp add: assms(1) pg_storage_def call_eq)
  obtain db' m err where e: "pg_Enqueue s (now_env w) TxZero ?p (w_db w) = (db', m, err)" by (metis prod_cases3)
  have "err = None" using assms(2) st e by (auto simp: client_Enqueue_def Let_def split: if_splits option.splits)
  with e pg_Enqueue_returns have m: "m = Some (scanMessage (now_env w) (enqueue_of (now_env w) 0 ?p))"
    "messages db' = messages (w_db w) @ [enqueue_of (now_env w) 0 ?p]" by blast+
  show ?thesis
    using assms(2) st e m \<open>err = None\<close>
    by (auto simp: client_Enqueue_def Let_def assms(1) try_notify_pg scanMessage_def split: if_splits)
qed

lemma client_row:
  assumes "world_ok s w1" "messages (w_db w1) = rows @ [r]"
  shows "row_by m_id (m_id r) (messages (w_db w1)) = Some r"
  using row_by_in [OF db_ok_distinct [OF world_okD(1) [OF assms(1)]], of r] assms(2) by simp

lemma pg_Claim_returns_row:
  assumes "db_ok s db" "env_ok e" "pg_Claim s e p db = (db', out, None)" "m \<in> set out"
    and "im_ID m = env_str e i" "row_by m_id i (messages db) = Some r"
  shows "m = scanMessage e (claim_to e p r)"
proof -
  obtain r' where r': "r' \<in> set (messages db)" "m = scanMessage e (claim_to e p r')"
    using pg_Claim_effect [OF assms(1-3)] assms(4) by blast
  then have "m_id r' = i" using assms(2,5) by (simp add: scanMessage_def env_str_inj)
  then have "r' = r" using row_by_in [OF db_ok_distinct [OF assms(1)] r'(1)] assms(6) by simp
  with r' show ?thesis by simp
qed

section \<open>Properties\<close>


section \<open>A sample run\<close>

definition sample_world :: "nat db \<Rightarrow> nat world" where
  "sample_world db = \<lparr>w_db = db, w_locks = [], w_env = (\<lambda>n. sample_env (5 + int n) n), w_conn = (\<lambda>n. Inr n), w_calls = 0\<rparr>"

definition sample_hooks :: hooks where
  "sample_hooks = \<lparr>hk_metrics = ConfiguredHook, hk_tracer = NopHook, hk_alerter = ConfiguredHook, hk_inject = (\<lambda>_ h. h)\<rparr>"

definition sample_client :: "nat world Client" where
  "sample_client = \<lparr>cl_Storage = pg_storage sample_store, cl_DefaultMaxAttempts = 10, cl_hooks = sample_hooks\<rparr>"

definition sample_msg :: Message where
  "sample_msg = \<lparr>msg_Type = ''order'', msg_Payload = [1, 2], msg_Headers = [], msg_IdempotencyKey = ''k'',
     msg_ScheduledAt = 0, msg_MaxAttempts = 1\<rparr>"

definition sample_sent :: "nat world" where
  "sample_sent = fst (client_Enqueue sample_client 5 TxZero sample_msg (sample_world empty_db))"

lemma sample_world_sel [simp]:
  "w_db (sample_world db) = db" "now_env (sample_world db) = sample_env 5 0" "w_env (sample_world db) n = sample_env (5 + int n) n"
  by (simp_all add: sample_world_def now_env_def)

lemma sample_env_str: "env_str (sample_env now k) = (\<lambda>j. replicate j CHR ''i'')"
  by (simp add: sample_env_def)

lemma sample_world_ok: "world_ok s w \<longleftrightarrow> db_ok s (w_db w)" if "w_env w = w_env (sample_world db)"
  using that by (simp add: world_ok_def sample_world_def fun_eq_iff)

lemmas client_sample_defs = sample_client_def sample_msg_def sample_hooks_def sample_defs client_Enqueue_def
  client_params_def InjectHeaders_def try_notify_def pg_storage_def call_def now_env_def hook_defs

lemma sample_send:
  "client_Enqueue sample_client 5 TxZero sample_msg (sample_world empty_db) =
     (sample_sent, ('''', None), [MessageEnqueued ''order''])"
  "w_db sample_sent = \<lparr>messages = [sample_row 0], history = [], notified = [''order'', ''order''], staged = [], staged_notified = []\<rparr>"
  "w_env sample_sent = w_env (sample_world empty_db)" "w_calls sample_sent = 2"
  by (simp_all add: sample_sent_def client_sample_defs sample_world_def pg_Enqueue_def enqueue_insert_def notifyEnqueue_def
      pg_Notify_def insert_defs empty_db_def sample_row_def scanMessage_def Let_def)

lemma sample_sent_ok: "world_ok sample_store sample_sent"
  using sample_world_ok [OF sample_send(3)]
  by (simp add: sample_send(2) db_ok_def idem_unique_def sample_row_def row_ok_def hist_ok_def)

definition sample_marshal :: "nat \<Rightarrow> goerr + bytes" where
  "sample_marshal n = Inr [of_nat (n div 256), of_nat (n mod 256)]"

definition sample_json :: "nat codec" where
  "sample_json b = (case b of [x, y] \<Rightarrow> Inr (256 * unat x + unat y) | _ \<Rightarrow> Inl (ErrorString ''bad payload''))"

lemma sample_claim_sent:
  "pg_Claim sample_store (sample_env 7 0) (sample_claim ''w1'') (w_db sample_sent) =
     (fst (pg_Claim sample_store (sample_env 7 0) (sample_claim ''w1'') (w_db sample_sent)),
      [scanMessage (sample_env 7 0) (claim_set 7 ''w1'' 30 (sample_row 0))], None)"
  by (simp add: sample_send(2) sample_defs claim_defs sample_row_def pickShard_def
      numClaimShards_def go_div_def duration_units scanMessage_def parsed_def List.map_filter_simps)


text \<open>
  A retried enqueue is harmless: a second \<open>Enqueue\<close> under the same event type and key,
  after any calls in between while the message is stored, returns the identifier of the first
  with \<open>ErrDuplicate\<close> and leaves the database as it was.
\<close>

theorem client_Enqueue_retry_safe:
  assumes "cl_Storage c = pg_storage s" "\<not> partitioned s" "msg_IdempotencyKey msg \<noteq> ''''"
    and "client_Enqueue c now TxZero msg w = (w1, (ident, None), os)" "world_ok s w1"
    and "ident = env_str (now_env w) i" "pg_path s (stored i) (w_db w1) (w_db w2)"
    and "all_ok (now_env w2)" "env_ok (now_env w)" "env_str (now_env w2) = env_str (now_env w)"
    and "msg_Type msg' = msg_Type msg" "msg_IdempotencyKey msg' = msg_IdempotencyKey msg"
  shows "\<exists>w3 os'. client_Enqueue c now' TxZero msg' w2 =
      (w3, (ident, Some (ErrDuplicate ident (msg_Type msg) (msg_IdempotencyKey msg))), os') \<and> w_db w3 = w_db w2"
proof -
  let ?r = "enqueue_of (now_env w) 0 (client_params c now 0 msg)" and ?p = "client_params c now' 0 msg'"
  note st = client_Enqueue_stored [OF assms(1,4)]
  have "i = m_id ?r" using st assms(6,9) by (simp add: env_str_inj)
  then obtain r where db: "db_ok s (w_db w2)" and r: "row_by m_id i (messages (w_db w2)) = Some r" "same_message ?r r"
    using pg_path_row [OF assms(7) world_okD(1) [OF assms(5)], of ?r] client_row [OF assms(5)] st by auto
  have "pg_Enqueue s (now_env w2) TxZero ?p (w_db w2) = (w_db w2, Some (scanMessage (now_env w2) r),
      Some (ErrDuplicate (env_str (now_env w2) (m_id r)) (ep_EventType ?p) (ep_IdempotencyKey ?p)))"
    using pg_Enqueue_existing [OF db assms(8), of r TxZero ?p] row_by_Some_in [OF r(1)] r(2) assms(2,3,11,12)
    by (auto simp: q_rows_def pg_querier_def same_message_def client_params_def NULLIF_empty_def)
  then show ?thesis
    using st assms(1,6,10,11,12) row_by_Some_in [OF r(1)]
    by (simp add: client_Enqueue_def pg_storage_def call_eq Let_def client_params_def scanMessage_def)
qed

theorem client_Enqueue_retry_safe_witness:
  "\<exists>w3 os'. client_Enqueue sample_client 9 TxZero sample_msg sample_sent =
      (w3, ('''', Some (ErrDuplicate '''' ''order'' ''k'')), os') \<and> w_db w3 = w_db sample_sent"
  using client_Enqueue_retry_safe [where c = sample_client and s = sample_store and msg = sample_msg and msg' = sample_msg
      and i = 0 and now' = 9, OF _ _ _ sample_send(1) sample_sent_ok _ path_refl]
  by (simp add: sample_client_def sample_msg_def sample_store_def New_def now_env_def sample_send(3,4) sample_env_str)

end
