(* ===== verification/Engine_Spec.thy ===== *)
theory Engine_Spec
  imports Engine Client_Spec "HOL-Library.Sublist"
begin

text \<open>
  What the engine's operations guarantee on their own: an attempt ends in the status that the
  handler's result calls for, a claimed batch is partitioned without loss, the flusher passes on
  every acknowledgement once and in order, and the delays stay in their bounds.
\<close>

section \<open>Settling an attempt\<close>

definition storage_alert :: "obs list \<Rightarrow> bool" where
  "storage_alert os \<longleftrightarrow> (\<exists>ev. OnError ev \<in> set os \<and> ev_Kind ev = ErrorKindStorage)"

lemma storage_alert_simps [simp]:
  "\<not> storage_alert []" "storage_alert (os @ os') \<longleftrightarrow> storage_alert os \<or> storage_alert os'"
  "\<not> storage_alert (metric hk (HandlerStarted et a))" "\<not> storage_alert (metric hk (HandlerCompleted et a d oc))"
  "\<not> storage_alert (metric hk (MessageDead et))" "\<not> storage_alert (trace_span hk (HandlerSpan i er))"
  "storage_alert (fireAlert hk ev) \<longleftrightarrow> hk_alerter hk = ConfiguredHook \<and> ev_Kind ev = ErrorKindStorage"
  by (auto simp: storage_alert_def hook_defs split: hook.splits)

lemma event_kind [simp]: "ev_Kind (message_event k m er) = k" "ev_Kind (core_event k er') = k"
  by (simp_all add: message_event_def core_event_def)

text \<open>The state a message must be left in, from the outcome of the attempt.\<close>

definition settled ::
  "attempt_env \<Rightarrow> handlerConfig \<Rightarrow> InboundMessage \<Rightarrow> goerr option \<Rightarrow> Outcome \<Rightarrow> lease option \<Rightarrow> bool" where
  "settled ae cfg m err outcome lo \<longleftrightarrow> (case lo of None \<Rightarrow> False | Some l \<Rightarrow>
     (case outcome of
        OutcomeSuccess \<Rightarrow> ls_status l = StatusSuccess
      | OutcomeCanceled \<Rightarrow> ls_status l \<in> {StatusCreated, StatusRetrying} \<and> ls_attempt l = im_Attempt m - 1
      | _ \<Rightarrow> ls_attempt l = im_Attempt m \<and>
          (if attempt_dead cfg m err outcome then ls_status l = StatusDead
           else ls_status l = StatusRetrying \<and> ls_due l = ae_now ae + retry_delay ae cfg m err)))"

definition ack_of :: "'w engine \<Rightarrow> InboundMessage \<Rightarrow> BatchSucceedParam" where
  "ack_of e m = \<lparr>bs_MessageID = im_ID m, bs_Attempt = im_Attempt m, bs_WorkerID = en_workerID e\<rparr>"

lemma ack_of_sel [simp]:
  "bs_MessageID (ack_of e m) = im_ID m" "bs_Attempt (ack_of e m) = im_Attempt m" "bs_WorkerID (ack_of e m) = en_workerID e"
  by (simp_all add: ack_of_def)

lemma commitOutcome_acks:
  "fst (snd (commitOutcome e ae m cfg err outcome w)) = (if outcome = OutcomeSuccess \<and> en_succeedCh e \<noteq> None then [ack_of e m] else [])"
  by (auto simp: commitOutcome_def ack_of_def Let_def split: Outcome.splits option.splits prod.splits)

lemma settled_success:
  "settled ae cfg m err OutcomeSuccess (look w i) \<longleftrightarrow> status_of look w i = Some StatusSuccess"
  by (auto simp: settled_def status_of_def split: option.splits)

text \<open>Lease extensions are invisible in the leases' status, attempt and holder.\<close>

definition extend_neutral ::
  "('w \<Rightarrow> bool) \<Rightarrow> ('w \<Rightarrow> message_id \<Rightarrow> lease option) \<Rightarrow> 'w \<Rightarrow> 'w \<times> bool \<times> obs list \<Rightarrow> bool" where
  "extend_neutral iv look w res \<longleftrightarrow> iv (fst res) \<and> look (fst res) = look w \<and> \<not> storage_alert (snd (snd res))"

context consumer_storage
begin

lemma extend_call: "inv w \<Longrightarrow> inv (fst (st_Extend st i wk u w)) \<and> look (fst (st_Extend st i wk u w)) = look w"
  using extend_inv extend_frame by (simp add: fun_eq_iff)

lemma extend_one:
  assumes "inv w" "\<And>w1. inv w1 \<Longrightarrow> extend_neutral inv look w1 (rest w1)"
  shows "extend_neutral inv look w (case st_Extend st i wk u w of (w1, ok, err) \<Rightarrow>
      (case err of
         Some er \<Rightarrow> (case rest w1 of (w2, lost, os) \<Rightarrow> (w2, lost, fireAlert hk (message_event ErrorKindLease m (Some er)) @ os))
       | None \<Rightarrow> if ok then rest w1 else (w1, True, fireAlert hk (message_event ErrorKindLease m (Some lease_lost)))))"
  using extend_call [OF assms(1), of i wk u] assms(2) [of "fst (st_Extend st i wk u w)"]
  by (auto simp: extend_neutral_def split_beta split: option.splits)

lemma extendLoop_neutral: "en_storage e = st \<Longrightarrow> inv w \<Longrightarrow> extend_neutral inv look w (extendLoop e m ts w)"
proof (induction ts arbitrary: w)
  case (Cons t ts)
  then show ?case using extend_one [OF Cons.prems(2) Cons.IH [OF Cons.prems(1)]] by simp
qed (simp add: extend_neutral_def)

lemma extend_round_neutral: "en_storage e = st \<Longrightarrow> inv w \<Longrightarrow> extend_neutral inv look w (extend_round e u ms w)"
proof (induction ms arbitrary: w)
  case (Cons m ms)
  then show ?case using extend_one [OF Cons.prems(2) Cons.IH [OF Cons.prems(1)]] by simp
qed (simp add: extend_neutral_def)

lemma extendBatchLoop_neutral: "en_storage e = st \<Longrightarrow> inv w \<Longrightarrow> extend_neutral inv look w (extendBatchLoop e ms ts w)"
proof (induction ts arbitrary: w)
  case (Cons t ts)
  obtain w1 lost os where r: "extend_round e (t + leaseOrDefault (ec_lease (en_cfg e))) ms w = (w1, lost, os)"
    by (metis prod_cases3)
  have "extend_neutral inv look w (w1, lost, os)" using extend_round_neutral [OF Cons.prems] r by metis
  with Cons.IH [OF Cons.prems(1), of w1] r show ?case
    by (cases lost) (auto simp: extend_neutral_def split: prod.splits)
qed (simp add: extend_neutral_def)

lemma extendLoop_frame:
  "en_storage e = st \<Longrightarrow> inv w \<Longrightarrow> extendLoop e m ts w = (w', lost, os) \<Longrightarrow> inv w' \<and> look w' = look w \<and> \<not> storage_alert os"
  using extendLoop_neutral [of e w m ts] by (simp add: extend_neutral_def)

lemma extendBatchLoop_frame:
  "en_storage e = st \<Longrightarrow> inv w \<Longrightarrow> extendBatchLoop e ms ts w = (w', lost, os) \<Longrightarrow> inv w' \<and> look w' = look w \<and> \<not> storage_alert os"
  using extendBatchLoop_neutral [of e w ms ts] by (simp add: extend_neutral_def)

lemma commit_settles:
  assumes "en_storage e = st" "hk_alerter (en_hooks e) = ConfiguredHook" "inv w"
    and "held look w (im_ID m) (im_Attempt m) (en_workerID e)"
    and "commitOutcome e ae m cfg err outcome w = (w', acks, os)" "\<not> storage_alert os"
  shows "inv w' \<and> (if acks = [] then settled ae cfg m err outcome (look w' (im_ID m)) \<and> only look (im_ID m) w w'
    else outcome = OutcomeSuccess \<and> acks = [ack_of e m] \<and> w' = w)"
proof (cases outcome)
  case OutcomeSuccess
  show ?thesis
  proof (cases "en_succeedCh e")
    case None
    obtain er where c: "st_Succeed st (im_ID m) (im_Attempt m) (en_workerID e) w = (w', er)" "acks = []" "er = None"
      using assms OutcomeSuccess None by (auto simp: commitOutcome_def split: prod.splits option.splits)
    with succeed_held [OF assms(3,4)] succeed_inv [OF assms(3), of "im_ID m" "im_Attempt m" "en_workerID e"] OutcomeSuccess
    show ?thesis by (auto simp: settled_def status_of_def)
  next
    case (Some c)
    with assms OutcomeSuccess show ?thesis by (auto simp: commitOutcome_def ack_of_def)
  qed
next
  case OutcomeCanceled
  obtain er where c: "st_ReleaseShutdown st (im_ID m) (im_Attempt m) (en_workerID e) ''worker shutdown'' w = (w', er)"
    "acks = []" "er = None"
    using assms OutcomeCanceled by (auto simp: commitOutcome_def split: prod.splits option.splits)
  with release_held [OF assms(3,4)] release_inv [OF assms(3), of "im_ID m" "im_Attempt m" "en_workerID e" "''worker shutdown''"]
    OutcomeCanceled
  show ?thesis by (fastforce simp: settled_def)
next
  case OutcomeRetry
  let ?fp = "fail_params e ae cfg m err OutcomeRetry"
  obtain er where c: "st_Fail st ?fp w = (w', er)" "acks = []" "er = None"
    using assms OutcomeRetry by (auto simp: commitOutcome_def Let_def split: prod.splits option.splits)
  have "held look w (fp_MessageID ?fp) (fp_Attempt ?fp) (fp_WorkerID ?fp)" using assms(4) by (simp add: fail_params_def Let_def)
  with fail_held [OF assms(3)] fail_inv [OF assms(3), of ?fp] c OutcomeRetry
  show ?thesis by (fastforce simp: settled_def fail_params_def Let_def)
next
  case OutcomeDead
  let ?fp = "fail_params e ae cfg m err OutcomeDead"
  obtain er where c: "st_Fail st ?fp w = (w', er)" "acks = []" "er = None"
    using assms OutcomeDead by (auto simp: commitOutcome_def Let_def split: prod.splits option.splits)
  have "held look w (fp_MessageID ?fp) (fp_Attempt ?fp) (fp_WorkerID ?fp)" using assms(4) by (simp add: fail_params_def Let_def)
  with fail_held [OF assms(3)] fail_inv [OF assms(3), of ?fp] c OutcomeDead
  show ?thesis by (fastforce simp: settled_def fail_params_def Let_def)
qed

lemma flush_settles:
  assumes "en_storage e = st" "hk_alerter (en_hooks e) = ConfiguredHook" "st_BatchSucceed st \<noteq> None" "inv w"
    and "held look w (im_ID m) (im_Attempt m) (en_workerID e)" "flush e [ack_of e m] w = (w', os)" "\<not> storage_alert os"
  shows "inv w' \<and> status_of look w' (im_ID m) = Some StatusSuccess \<and> only look (im_ID m) w w'"
proof -
  obtain batch where b: "st_BatchSucceed st = Some batch" using assms(3) by blast
  obtain er where c: "batch [ack_of e m] w = (w', er)" "er = None"
    using assms(1,2,6,7) b by (auto simp: flush_def split: prod.splits option.splits)
  have l: "look w (im_ID m) \<noteq> None" using assms(5) by (auto simp: held_def split: option.splits)
  show ?thesis
    using batch_inv [OF b assms(4), of "[ack_of e m]"] batch_held [OF b assms(4), of "[ack_of e m]" w' "ack_of e m"]
      batch_frame [OF b assms(4), of "[ack_of e m]" w'] c assms(5) l by (auto simp: only_def)
qed

lemma attempt_settles:
  assumes "en_storage e = st" "hk_alerter (en_hooks e) = ConfiguredHook" "en_succeedCh e \<noteq> None \<longrightarrow> st_BatchSucceed st \<noteq> None"
    and "inv w" "held look w (im_ID m) (im_Attempt m) (en_workerID e)"
    and "runHandler e ae m reg w = (w1, acks, os)" "flush e acks w1 = (w2, os')" "\<not> storage_alert (os @ os')"
  shows "let lost = fst (snd (extendLoop e m (ae_before ae) w)); err = safeInvoke (reg_handler reg) (attempt_ctx ae lost) m in
    settled ae (reg_cfg reg) m err (resolveOutcome (ae_parentErr ae) (ae_stopping ae) err) (look w2 (im_ID m)) \<and>
    only look (im_ID m) w w2"
proof -
  obtain wa lost oa where a: "extendLoop e m (ae_before ae) w = (wa, lost, oa)" by (metis prod_cases3)
  let ?err = "safeInvoke (reg_handler reg) (attempt_ctx ae lost) m"
  let ?oc = "resolveOutcome (ae_parentErr ae) (ae_stopping ae) ?err"
  obtain wb acks' ob where b: "commitOutcome e ae m (reg_cfg reg) ?err ?oc wa = (wb, acks', ob)" by (metis prod_cases3)
  obtain wc l3 oc where c: "extendLoop e m (if lost then [] else ae_after ae) wb = (wc, l3, oc)" by (metis prod_cases3)
  have r: "w1 = wc" "acks = acks'" "\<not> storage_alert ob" "\<not> storage_alert os'"
    using assms(6,8) a b c by (auto simp: runHandler_def Let_def)
  note fa = extendLoop_frame [OF assms(1,4) a]
  have ha: "held look wa (im_ID m) (im_Attempt m) (en_workerID e)" using assms(5) fa by (simp add: held_def)
  note cm = commit_settles [OF assms(1,2) conjunct1 [OF fa] ha b r(3)]
  note fc = extendLoop_frame [OF assms(1) conjunct1 [OF cm] c]
  have "settled ae (reg_cfg reg) m ?err ?oc (look w2 (im_ID m)) \<and> only look (im_ID m) w w2"
  proof (cases "acks = []")
    case True
    then have "w2 = w1" using assms(7) by (simp add: flush_def)
    with cm fc fa r True show ?thesis by (simp add: only_def)
  next
    case False
    have ch: "en_succeedCh e \<noteq> None" using commitOutcome_acks [of e ae m "reg_cfg reg" ?err ?oc wa] b r(2) False by (auto split: if_splits)
    have k: "?oc = OutcomeSuccess" "acks = [ack_of e m]" "look w1 = look w" using cm r False fc fa by auto
    have "held look w1 (im_ID m) (im_Attempt m) (en_workerID e)" "inv w1" using assms(5) k fc r(1) by (simp_all add: held_def)
    with flush_settles [OF assms(1,2) _ _ _ assms(7) [unfolded k(2)] r(4)] assms(3) ch k show ?thesis
      by (auto simp: settled_def status_of_def only_def)
  qed
  then show ?thesis unfolding Let_def a by simp
qed

text \<open>The same for a batch: one result, committed message by message.\<close>

lemma commit_all_settles:
  assumes "en_storage e = st" "hk_alerter (en_hooks e) = ConfiguredHook"
  shows "inv w \<Longrightarrow> distinct (map im_ID ms) \<Longrightarrow> \<forall>m\<in>set ms. held look w (im_ID m) (im_Attempt m) (en_workerID e) \<Longrightarrow>
    commit_all e aes i ms cfg err outcome w = (w', acks, os) \<Longrightarrow> \<not> storage_alert os \<Longrightarrow>
    inv w' \<and> (\<forall>j. j \<notin> im_ID ` set ms \<longrightarrow> look w' j = look w j) \<and>
    (if outcome = OutcomeSuccess \<and> en_succeedCh e \<noteq> None then acks = map (ack_of e) ms \<and> w' = w
     else acks = [] \<and> (\<forall>k<length ms. settled (aes (i + k)) cfg (ms ! k) err outcome (look w' (im_ID (ms ! k)))))"
proof (induction ms arbitrary: i w acks os)
  case (Cons m ms)
  obtain w1 a1 o1 where c: "commitOutcome e (aes i) m cfg err outcome w = (w1, a1, o1)" by (metis prod_cases3)
  obtain w2 a2 o2 where r: "commit_all e aes (Suc i) ms cfg err outcome w1 = (w2, a2, o2)" by (metis prod_cases3)
  have eq: "w' = w2" "acks = a1 @ a2" "\<not> storage_alert o1" "\<not> storage_alert o2"
    using Cons.prems(4,5) c r by auto
  have a1: "a1 = (if outcome = OutcomeSuccess \<and> en_succeedCh e \<noteq> None then [ack_of e m] else [])"
    using commitOutcome_acks [of e "aes i" m cfg err outcome w] c by simp
  have s1: "inv w1" "if a1 = [] then settled (aes i) cfg m err outcome (look w1 (im_ID m)) \<and> only look (im_ID m) w w1 else w1 = w"
    using commit_settles [OF assms Cons.prems(1) _ c eq(3)] Cons.prems(3) by (auto split: if_splits)
  have fr: "look w1 j = look w j" if "j \<noteq> im_ID m" for j using s1(2) that by (auto simp: only_def split: if_splits)
  have d: "distinct (map im_ID ms)" "im_ID m \<notin> im_ID ` set ms" using Cons.prems(2) by auto
  have held': "\<forall>m'\<in>set ms. held look w1 (im_ID m') (im_Attempt m') (en_workerID e)"
  proof
    fix m' assume m': "m' \<in> set ms"
    with d(2) have "im_ID m' \<noteq> im_ID m" by (metis image_eqI)
    with fr Cons.prems(3) m' show "held look w1 (im_ID m') (im_Attempt m') (en_workerID e)" by (simp add: held_def)
  qed
  note IH = Cons.IH [OF s1(1) d(1) held' r [folded eq(1)] eq(4)]
  have frame: "\<forall>j. j \<notin> im_ID ` set (m # ms) \<longrightarrow> look w' j = look w j" using IH fr by auto
  show ?case
  proof (cases "outcome = OutcomeSuccess \<and> en_succeedCh e \<noteq> None")
    case True
    with IH a1 s1 eq frame show ?thesis by auto
  next
    case False
    then have "settled (aes i) cfg m err outcome (look w' (im_ID m))" using a1 s1(2) IH d(2) by auto
    with False IH a1 eq frame show ?thesis by (auto simp: less_Suc_eq_0_disj nth_Cons split: nat.splits)
  qed
qed simp

lemma flush_all_settles:
  assumes "en_storage e = st" "hk_alerter (en_hooks e) = ConfiguredHook" "st_BatchSucceed st \<noteq> None" "inv w"
    and "\<forall>m\<in>set ms. held look w (im_ID m) (im_Attempt m) (en_workerID e)" "flush e (map (ack_of e) ms) w = (w', os)" "\<not> storage_alert os"
  shows "inv w' \<and> (\<forall>m\<in>set ms. status_of look w' (im_ID m) = Some StatusSuccess) \<and> (\<forall>j. j \<notin> im_ID ` set ms \<longrightarrow> look w' j = look w j)"
proof (cases "ms = []")
  case False
  obtain batch where b: "st_BatchSucceed st = Some batch" using assms(3) by blast
  let ?ps = "map (ack_of e) ms"
  obtain er where c: "batch ?ps w = (w', er)" "er = None"
    using assms(1,2,6,7) b False by (auto simp: flush_def split: prod.splits option.splits)
  have l: "look w (bs_MessageID p) \<noteq> None" if "p \<in> set ?ps" for p
    using assms(5) that by (auto simp: held_def split: option.splits)
  have "status_of look w' (im_ID m) = Some StatusSuccess" if "m \<in> set ms" for m
    using batch_held [OF b assms(4), of ?ps w' "ack_of e m"] c assms(5) that by simp
  moreover have "look w' j = look w j" if "j \<notin> im_ID ` set ms" for j
    using batch_frame [OF b assms(4), of ?ps w' j] c l that by (auto simp: image_image)
  ultimately show ?thesis using batch_inv [OF b assms(4), of ?ps] c by auto
qed (use assms(4,6) in \<open>simp add: flush_def\<close>)

lemma batch_settles:
  assumes "en_storage e = st" "hk_alerter (en_hooks e) = ConfiguredHook" "en_succeedCh e \<noteq> None \<longrightarrow> st_BatchSucceed st \<noteq> None"
    and "inv w" "distinct (map im_ID ms)" "\<forall>m\<in>set ms. held look w (im_ID m) (im_Attempt m) (en_workerID e)"
    and "runBatchHandler e aes ms reg w = (w1, acks, os)" "flush e acks w1 = (w2, os')" "\<not> storage_alert (os @ os')"
  shows "let lost = fst (snd (extendBatchLoop e ms (ae_before (aes 0)) w));
      err = safeInvokeBatch (reg_batchHandler reg) (attempt_ctx (aes 0) lost) ms;
      outcome = resolveOutcome (ae_parentErr (aes 0)) (ae_stopping (aes 0)) err in
    (\<forall>k<length ms. settled (aes k) (reg_cfg reg) (ms ! k) err outcome (look w2 (im_ID (ms ! k)))) \<and>
    (\<forall>j. j \<notin> im_ID ` set ms \<longrightarrow> look w2 j = look w j)"
proof -
  let ?ae = "aes 0"
  obtain wa lost oa where a: "extendBatchLoop e ms (ae_before ?ae) w = (wa, lost, oa)" by (metis prod_cases3)
  let ?err = "safeInvokeBatch (reg_batchHandler reg) (attempt_ctx ?ae lost) ms"
  let ?oc = "resolveOutcome (ae_parentErr ?ae) (ae_stopping ?ae) ?err"
  obtain wb acks' ob where b: "commit_all e aes 0 ms (reg_cfg reg) ?err ?oc wa = (wb, acks', ob)" by (metis prod_cases3)
  obtain wc l3 oc where c: "extendBatchLoop e ms (if lost then [] else ae_after ?ae) wb = (wc, l3, oc)" by (metis prod_cases3)
  have r: "w1 = wc" "acks = acks'" "\<not> storage_alert ob" "\<not> storage_alert os'"
    using assms(7,9) a b c by (auto simp: runBatchHandler_def Let_def)
  note fa = extendBatchLoop_frame [OF assms(1,4) a]
  have ha: "\<forall>m\<in>set ms. held look wa (im_ID m) (im_Attempt m) (en_workerID e)" using assms(6) fa by (simp add: held_def)
  note cm = commit_all_settles [OF assms(1,2) conjunct1 [OF fa] assms(5) ha b r(3)]
  note fc = extendBatchLoop_frame [OF assms(1) conjunct1 [OF cm] c]
  have "(\<forall>k<length ms. settled (aes k) (reg_cfg reg) (ms ! k) ?err ?oc (look w2 (im_ID (ms ! k)))) \<and>
    (\<forall>j. j \<notin> im_ID ` set ms \<longrightarrow> look w2 j = look w j)"
  proof (cases "?oc = OutcomeSuccess \<and> en_succeedCh e \<noteq> None")
    case False
    with cm r(2) have "acks = []" by auto
    then have "w2 = w1" using assms(8) by (simp add: flush_def)
    with cm fc fa r(1) False show ?thesis by auto
  next
    case True
    with cm r(2) have k: "acks = map (ack_of e) ms" "wb = wa" by auto
    have lk: "look w1 = look w" "inv w1" using k fc fa r(1) by auto
    then have "\<forall>m\<in>set ms. held look w1 (im_ID m) (im_Attempt m) (en_workerID e)" using assms(6) by (simp add: held_def)
    with flush_all_settles [OF assms(1,2) _ lk(2) _ assms(8) [unfolded k(1)] r(4)] assms(3) True lk(1) show ?thesis
      by (auto simp: settled_success)
  qed
  then show ?thesis unfolding Let_def a by simp
qed

end

section \<open>Partitioning a claim\<close>

definition is_batch :: "HandlerRegistry \<Rightarrow> string \<Rightarrow> bool" where
  "is_batch r et \<longleftrightarrow> (case lookup r et of None \<Rightarrow> False | Some reg \<Rightarrow> reg_batchHandler reg \<noteq> None)"

lemma map_get_set: "map_get et d (map_set k v m) = (if et = k then v else map_get et d m)"
  by (simp add: map_get_def)

lemma partition_singles:
  "fst (partition_msgs r ms groups) =
     map (\<lambda>m. case lookup r (im_Type m) of None \<Rightarrow> NoHandler m | Some reg \<Rightarrow> RunSingle m reg) (filter (\<lambda>m. \<not> is_batch r (im_Type m)) ms)"
  by (induction r ms groups rule: partition_msgs.induct) (auto simp: is_batch_def split: option.splits prod.splits)

lemma partition_groups:
  "map_get et [] (snd (partition_msgs r ms groups)) =
     map_get et [] groups @ filter (\<lambda>m. im_Type m = et \<and> is_batch r et) ms"
  by (induction r ms groups rule: partition_msgs.induct) (auto simp: is_batch_def map_get_set split: option.splits prod.splits)

lemma is_batch_lookup [simp]:
  "lookup r et = None \<Longrightarrow> \<not> is_batch r et" "lookup r et = Some reg \<Longrightarrow> is_batch r et = (reg_batchHandler reg \<noteq> None)"
  by (simp_all add: is_batch_def)

lemma partition_distinct: "distinct (map fst groups) \<Longrightarrow> distinct (map fst (snd (partition_msgs r ms groups)))"
  by (induction r ms groups rule: partition_msgs.induct) (auto split: option.splits prod.splits)

lemma partition_keys:
  "fst ` set (snd (partition_msgs r ms groups)) = fst ` set groups \<union> im_Type ` set (filter (\<lambda>m. is_batch r (im_Type m)) ms)"
proof (induction ms arbitrary: groups)
  case (Cons m ms)
  obtain ds gs where p: "partition_msgs r ms groups = (ds, gs)" by force
  with Cons.IH [of groups] Cons.IH show ?case
    by (cases "lookup r (im_Type m)") (simp_all split: option.splits if_splits)
qed simp

lemma map_get_in: "distinct (map fst gs) \<Longrightarrow> (et, g) \<in> set gs \<Longrightarrow> map_get et d gs = g"
  by (simp add: map_get_def)

text \<open>The groups: one per batch event type present, with its messages in claim order.\<close>

lemma partition_group:
  assumes "(et, g) \<in> set (snd (partition_msgs r ms []))"
  shows "g = filter (\<lambda>m. im_Type m = et) ms" "g \<noteq> []" "is_batch r et"
proof -
  let ?gs = "snd (partition_msgs r ms [])"
  have "et \<in> fst ` set ?gs" using assms by force
  then obtain m where m: "m \<in> set ms" "im_Type m = et" "is_batch r et" using partition_keys [of r ms "[]"] by auto
  have "g = filter (\<lambda>m. im_Type m = et \<and> is_batch r et) ms"
    using map_get_in [OF partition_distinct assms, of "[]"] partition_groups [of et r ms "[]"] by (simp add: map_get_def)
  with m show "g = filter (\<lambda>m. im_Type m = et) ms" "g \<noteq> []" "is_batch r et" by (auto simp: filter_empty_conv)
qed

lemma concat_chunks: "0 < n \<Longrightarrow> concat (chunks n xs) = xs"
  by (induction n xs rule: chunks.induct) (simp add: chunks.simps)

lemma chunks_each: "c \<in> set (chunks n xs) \<Longrightarrow> c \<noteq> [] \<and> length c \<le> n \<and> subseq c xs"
proof (induction n xs rule: chunks.induct)
  case (1 n xs)
  show ?case
  proof (cases "c = take n xs")
    case True
    with "1.prems" show ?thesis
      by (subst (asm) chunks.simps) (auto split: if_splits intro: prefix_imp_subseq take_is_prefix)
  next
    case False
    with "1.prems" have "xs \<noteq> []" "n \<noteq> 0" "c \<in> set (chunks n (drop n xs))"
      by (subst (asm) chunks.simps, simp split: if_splits)+
    with "1.IH" have "c \<noteq> [] \<and> length c \<le> n \<and> subseq c (drop n xs)" by simp
    then show ?thesis by (metis subseq_order.order_trans suffix_imp_subseq suffix_drop)
  qed
qed

lemma chunk_size_pos: "ms \<noteq> [] \<Longrightarrow> 0 < chunk_size reg ms"
  by (simp add: chunk_size_def Let_def)

lemma chunk_size_le: "0 < hc_maxBatchSize (reg_cfg reg) \<Longrightarrow> int (chunk_size reg ms) \<le> hc_maxBatchSize (reg_cfg reg)"
  by (simp add: chunk_size_def Let_def)

lemma dispatchBatches_msgs: "ms \<noteq> [] \<Longrightarrow> concat (map dispatch_msgs (dispatchBatches ms reg)) = ms"
  by (simp add: dispatchBatches_def comp_def concat_chunks [OF chunk_size_pos])

lemma mset_groups:
  assumes "distinct (map fst gs)" "\<forall>x\<in>set gs. snd x = filter (\<lambda>m. im_Type m = fst x) ms"
  shows "mset (concat (map snd gs)) = mset (filter (\<lambda>m. im_Type m \<in> fst ` set gs) ms)"
  using assms
proof (induction gs)
  case (Cons x gs)
  obtain et g where x: "x = (et, g)" by force
  have "mset (concat (map snd gs)) = mset (filter (\<lambda>m. im_Type m \<in> fst ` set gs) ms)" using Cons by simp
  moreover have "g = filter (\<lambda>m. im_Type m = et) ms" "et \<notin> fst ` set gs" using Cons.prems x by auto
  moreover have "mset (filter (\<lambda>m. im_Type m \<in> insert et (fst ` set gs)) ms) =
      mset (filter (\<lambda>m. im_Type m = et) ms) + mset (filter (\<lambda>m. im_Type m \<in> fst ` set gs) ms)"
    if "et \<notin> fst ` set gs" using that by (induction ms) auto
  ultimately show ?case by (simp add: x)
qed simp

lemma group_msgs:
  "lookup r et = Some reg \<Longrightarrow> g \<noteq> [] \<Longrightarrow> concat (map dispatch_msgs (dispatch_group r (et, g))) = g"
  by (simp add: dispatch_group_def dispatchBatches_msgs)

lemma groups_msgs:
  "\<forall>x\<in>set gs. snd x \<noteq> [] \<and> is_batch r (fst x) \<Longrightarrow>
     concat (map dispatch_msgs (concat (map (dispatch_group r) gs))) = concat (map snd gs)"
proof (induction gs)
  case (Cons x gs)
  then obtain reg where "lookup r (fst x) = Some reg" by (cases "lookup r (fst x)") auto
  with Cons group_msgs [of r "fst x" reg "snd x"] show ?case by simp
qed simp

text \<open>What a unit of work of \<open>pollOnce\<close> looks like.\<close>

definition dispatch_ok :: "HandlerRegistry \<Rightarrow> InboundMessage list \<Rightarrow> dispatch \<Rightarrow> bool" where
  "dispatch_ok r ms d \<longleftrightarrow> (case d of
       NoHandler m \<Rightarrow> lookup r (im_Type m) = None
     | RunSingle m reg \<Rightarrow> lookup r (im_Type m) = Some reg \<and> reg_batchHandler reg = None
     | RunBatch c reg \<Rightarrow> c \<noteq> [] \<and> subseq c ms \<and> reg_batchHandler reg \<noteq> None \<and>
         (\<forall>m\<in>set c. lookup r (im_Type m) = Some reg) \<and> (\<forall>m\<in>set c. im_Type m = im_Type (hd c)) \<and>
         (0 < hc_maxBatchSize (reg_cfg reg) \<longrightarrow> int (length c) \<le> hc_maxBatchSize (reg_cfg reg)))"

lemma group_ok:
  assumes "d \<in> set (dispatch_group r (et, filter (\<lambda>m. im_Type m = et) ms))" "is_batch r et"
  shows "dispatch_ok r ms d"
proof -
  let ?g = "filter (\<lambda>m. im_Type m = et) ms"
  obtain reg where reg: "lookup r et = Some reg" "reg_batchHandler reg \<noteq> None"
    using assms(2) by (cases "lookup r et") auto
  then obtain c where c: "d = RunBatch c reg" "c \<in> set (chunks (chunk_size reg ?g) ?g)"
    using assms(1) by (auto simp: dispatch_group_def dispatchBatches_def)
  from chunks_each [OF c(2)] have sub: "c \<noteq> []" "length c \<le> chunk_size reg ?g" "subseq c ?g" by auto
  have ty: "im_Type m = et" if "m \<in> set c" for m by (rule list_emb_set [OF sub(3) that]) simp
  then have "im_Type (hd c) = et" using sub(1) by simp
  moreover have "subseq c ms" using sub(3) subseq_filter_left subseq_order.order_trans by blast
  moreover have "int (length c) \<le> hc_maxBatchSize (reg_cfg reg)" if "0 < hc_maxBatchSize (reg_cfg reg)"
    using sub(2) chunk_size_le [OF that, of ?g] by linarith
  ultimately show ?thesis using c(1) reg sub(1) ty by (simp add: dispatch_ok_def)
qed

lemma plan_dispatch:
  assumes "\<And>gs. mset (ord gs) = mset gs"
  shows "mset (concat (map dispatch_msgs (plan ord r ms))) = mset ms \<and> (\<forall>d\<in>set (plan ord r ms). dispatch_ok r ms d)"
proof -
  obtain ds gs where p: "partition_msgs r ms [] = (ds, gs)" by force
  let ?batches = "concat (map (dispatch_group r) (ord gs))"
  have plan: "plan ord r ms = ds @ ?batches" by (simp add: plan_def p)
  have g: "snd x = filter (\<lambda>m. im_Type m = fst x) ms \<and> snd x \<noteq> [] \<and> is_batch r (fst x)" if "x \<in> set (ord gs)" for x
    using partition_group [of "fst x" "snd x" r ms] that p assms by (metis prod.collapse set_mset_mset snd_conv)
  have ds: "ds = map (\<lambda>m. case lookup r (im_Type m) of None \<Rightarrow> NoHandler m | Some reg \<Rightarrow> RunSingle m reg)
      (filter (\<lambda>m. \<not> is_batch r (im_Type m)) ms)" using partition_singles [of r ms "[]"] p by simp
  have same: "mset (map fst (ord gs)) = mset (map fst gs)" by (simp only: mset_map assms)
  have gs: "distinct (map fst (ord gs))" "fst ` set (ord gs) = im_Type ` set (filter (\<lambda>m. is_batch r (im_Type m)) ms)"
    using partition_distinct [of "[]" r ms] partition_keys [of r ms "[]"] p mset_eq_imp_distinct_iff [OF same]
      mset_eq_setD [OF assms] by simp_all
  have "concat (map dispatch_msgs ?batches) = concat (map snd (ord gs))" by (rule groups_msgs) (use g in blast)
  then have "mset (concat (map dispatch_msgs ?batches)) = mset (concat (map snd (ord gs)))" by (rule arg_cong)
  also have "\<dots> = mset (filter (\<lambda>m. im_Type m \<in> fst ` set (ord gs)) ms)"
    by (rule mset_groups [OF gs(1)]) (rule ballI, rule conjunct1 [OF g])
  also have "filter (\<lambda>m. im_Type m \<in> fst ` set (ord gs)) ms = filter (\<lambda>m. is_batch r (im_Type m)) ms"
    unfolding gs(2) by (intro filter_cong) auto
  finally have batches: "mset (concat (map dispatch_msgs ?batches)) = mset (filter (\<lambda>m. is_batch r (im_Type m)) ms)" .
  have singles: "concat (map dispatch_msgs ds) = filter (\<lambda>m. \<not> is_batch r (im_Type m)) ms"
    unfolding ds by (induction ms) (auto split: option.splits)
  have "mset (concat (map dispatch_msgs (plan ord r ms))) = mset ms"
    unfolding plan map_append concat_append mset_append batches singles
    by (simp only: mset_filter add.commute multiset_partition [symmetric])
  moreover have "dispatch_ok r ms d" if "d \<in> set ds" for d
    using that unfolding ds by (auto simp: dispatch_ok_def split: option.splits)
  moreover have "dispatch_ok r ms d" if "d \<in> set ?batches" for d
  proof -
    from that obtain x where x: "x \<in> set (ord gs)" "d \<in> set (dispatch_group r x)" by auto
    with g [OF x(1)] have "d \<in> set (dispatch_group r (fst x, filter (\<lambda>m. im_Type m = fst x) ms))"
      by (metis prod.collapse)
    then show ?thesis using g [OF x(1)] by (intro group_ok) auto
  qed
  ultimately show ?thesis unfolding plan by auto
qed

text \<open>
  C31. \<open>pollOnce\<close> dispatches every claimed message exactly once, whatever the iteration order
  of Go's map: alone if its type has a single-message handler, to the dead-letter path if it has
  none, and otherwise in a non-empty chunk of messages of its type, in claim order and of at
  most \<open>WithMaxBatchSize\<close>.
\<close>

theorem plan_spec:
  assumes "\<And>gs. mset (ord gs) = mset gs"
  shows "mset (concat (map dispatch_msgs (plan ord r ms))) = mset ms \<and> (\<forall>d\<in>set (plan ord r ms). dispatch_ok r ms d)"
  by (rule plan_dispatch [OF assms])

section \<open>A sample engine\<close>

definition sample_reg :: "Handler option \<Rightarrow> BatchHandler option \<Rightarrow> int \<Rightarrow> registration" where
  "sample_reg h bh n = \<lparr>reg_handler = h, reg_batchHandler = bh,
     reg_cfg = (default_handlerConfig exact_unit)\<lparr>hc_maxBatchSize := n\<rparr>\<rparr>"

definition sample_registry :: HandlerRegistry where
  "sample_registry = [(''order'', sample_reg (Some (\<lambda>_ _. Returned None)) None 0),
     (''mail'', sample_reg None (Some (\<lambda>_ _. Returned None)) 2)]"

definition sample_engine :: "nat world engine" where
  "sample_engine = newEngine \<lparr>ec_storage = pg_storage sample_store, ec_registry = sample_registry, ec_workerID = ''w1'',
     ec_pollInterval = 0, ec_pollMaxBackoff = 0, ec_batchSize = 0, ec_poolSize = 0, ec_lease = 0, ec_shutdownGrace = 0,
     ec_hooks = sample_hooks\<rparr>"

definition sample_ae :: attempt_env where
  "sample_ae = \<lparr>ae_float = exact_unit, ae_quote = (\<lambda>s. s), ae_draw = Fin 0, ae_now = 9, ae_duration = 1, ae_ctxErr = None,
     ae_parentErr = None, ae_stopping = False, ae_before = [], ae_after = []\<rparr>"

definition sample_inbound :: InboundMessage where
  "sample_inbound = scanMessage (sample_env 7 0) (claim_set 7 ''w1'' 30 (sample_row 0))"

abbreviation sample_held :: "nat world" where
  "sample_held \<equiv> sample_world sample_handling"

lemma sample_engine_sel [simp]:
  "en_storage sample_engine = pg_storage sample_store" "en_workerID sample_engine = ''w1''"
  "en_hooks sample_engine = sample_hooks" "en_succeedCh sample_engine = Some 400" "hk_alerter sample_hooks = ConfiguredHook"
  by (simp_all add: sample_engine_def newEngine_def Let_def pg_storage_def batchSizeOrDefault_def sample_hooks_def)

lemma sample_inbound_sel [simp]:
  "im_ID sample_inbound = ''''" "im_Type sample_inbound = ''order''" "im_Attempt sample_inbound = 1"
  "im_MaxAttempts sample_inbound = 1" "im_Payload sample_inbound = [1, 2]"
  by (simp_all add: sample_inbound_def scanMessage_def claim_set_def sample_row_def)

lemma sample_held_ok: "world_ok sample_store sample_held" "held pg_look sample_held '''' 1 ''w1''"
  using sample_world_ok [of sample_held sample_handling] pg_reachable_db_ok [OF sample_handling_reachable]
  by (simp_all add: held_def pg_look_def sample_handling_row lease_of_def)
     (simp_all add: claim_set_def sample_row_def)

section \<open>Properties of attempts\<close>


definition sample_run :: "Handler \<Rightarrow> nat world \<times> obs list" where
  "sample_run h = (case runHandler sample_engine sample_ae sample_inbound (sample_reg (Some h) None 0) sample_held of
     (w1, acks, os) \<Rightarrow> (case flush sample_engine acks w1 of (w2, os') \<Rightarrow> (w2, os @ os')))"




text \<open>
  C30. A payload that does not decode goes to the dead-letter queue at once: the typed handler
  is not called, and the message is DEAD after the first attempt, however many attempts remain.
\<close>

theorem typed_decode_failure_dead:
  assumes "en_storage e = pg_storage s" "hk_alerter (en_hooks e) = ConfiguredHook" "world_ok s w"
    and "held pg_look w (im_ID m) (im_Attempt m) (en_workerID e)"
    and "reg_handler reg = Some (wrapJSON json zero h)" "decode_body json zero m = Inl (ErrorString msg)"
    and "runHandler e ae m reg w = (w1, acks, os)" "\<not> storage_alert os"
  shows "acks = [] \<and> status_of pg_look w1 (im_ID m) = Some StatusDead"
proof -
  let ?err = "DeadLetter (Some (WrapError ''tickr: decode payload: '' (ErrorString msg)))"
  have inv: "safeInvoke (reg_handler reg) ctx m = ?err" for ctx
    by (simp add: assms(5,6) safeInvoke_def wrapJSON_def recovered_def)
  have oc: "resolveOutcome p stp ?err = OutcomeRetry" for p stp
    by (simp add: resolveOutcome_def DeadLetter_def errors_Is_def)
  have dead: "attempt_dead (reg_cfg reg) m ?err OutcomeRetry"
    by (auto simp: attempt_dead_def Let_def split: option.splits)
  have "acks = fst (snd (commitOutcome e ae m (reg_cfg reg) ?err OutcomeRetry (fst (extendLoop e m (ae_before ae) w))))"
    using assms(7) by (auto simp: runHandler_def inv oc Let_def split: prod.splits)
  then have acks: "acks = []" by (simp add: commitOutcome_acks)
  have "flush e acks w1 = (w1, [])" by (simp add: acks flush_def)
  from pg_consumer.attempt_settles [OF assms(1,2) _ assms(3,4,7) this] assms(8)
  show ?thesis by (auto simp: acks inv oc dead settled_def status_of_def pg_storage_def split: option.splits)
qed

theorem typed_decode_failure_dead_witness:
  "status_of pg_look (fst (sample_run (wrapJSON (\<lambda>_. Inl (ErrorString ''bad'')) (0::nat) (\<lambda>_ _ _. Returned None)))) ''''
     = Some StatusDead"
proof -
  let ?h = "wrapJSON (\<lambda>_. Inl (ErrorString ''bad'')) (0::nat) (\<lambda>_ _ _. Returned None)"
  obtain w1 acks os where r: "runHandler sample_engine sample_ae sample_inbound (sample_reg (Some ?h) None 0) sample_held = (w1, acks, os)"
    by (metis prod_cases3)
  have "snd (pg_Fail sample_store (sample_env 5 0) fp db) = None" for fp db by (simp add: pg_Fail_def Let_def)
  then have "\<not> storage_alert os"
    using r by (auto simp: runHandler_def sample_ae_def safeInvoke_def sample_reg_def recovered_def resolveOutcome_def
        wrapJSON_def decode_body_def DeadLetter_def errors_Is_def IsSkip_def commitOutcome_def Let_def pg_storage_def call_eq
        split: if_splits)
  then have "acks = []" "status_of pg_look w1 '''' = Some StatusDead"
    using typed_decode_failure_dead [OF sample_engine_sel(1) _ sample_held_ok(1) _ _ _ r, where msg = "''bad''"
      and json = "\<lambda>_. Inl (ErrorString ''bad'')" and zero = "0::nat"
      and h = "\<lambda>_ _ _. Returned None"] sample_held_ok(2)
    by (simp_all add: sample_reg_def decode_body_def)
  then show ?thesis by (simp add: sample_run_def r flush_def)
qed



section \<open>Properties of polling\<close>

lemma poll_delay_bounds:
  assumes "poll_interval e < 2 ^ 62" "max_backoff e < 2 ^ 62"
    and "min (poll_interval e) (max_backoff e) \<le> cur" "cur \<le> max (poll_interval e) (max_backoff e)"
  shows "min (poll_interval e) (max_backoff e) \<le> poll_delay e cur n \<and> poll_delay e cur n \<le> max (poll_interval e) (max_backoff e)"
proof -
  have pos: "0 < poll_interval e" "0 < max_backoff e"
    by (simp_all add: poll_interval_def max_backoff_def duration_units)
  then have "wrap64 (cur * 2) = cur * 2" using assms by (intro wrap64_id) (auto simp: max_def min_def split: if_splits)
  with assms pos show ?thesis by (auto simp: poll_delay_def Let_def max_def min_def)
qed

text \<open>
  The idle backoff stays in its bounds: starting from the poll interval, whatever is
  claimed and whether the timer or a notification ends each wait, every wait lies between the
  smaller and the larger of the poll interval and the maximal backoff, doubling included, as
  long as both are below \<open>2^62\<close> ns.
\<close>

theorem run_delays_bounded:
  assumes "poll_interval e < 2 ^ 62" "max_backoff e < 2 ^ 62"
  shows "\<forall>d\<in>set (run_delays e (poll_interval e) evs).
    min (poll_interval e) (max_backoff e) \<le> d \<and> d \<le> max (poll_interval e) (max_backoff e)"
proof -
  have "\<forall>d\<in>set (run_delays e cur evs). min (poll_interval e) (max_backoff e) \<le> d \<and> d \<le> max (poll_interval e) (max_backoff e)"
    if "min (poll_interval e) (max_backoff e) \<le> cur" "cur \<le> max (poll_interval e) (max_backoff e)" for cur
    using that
  proof (induction evs arbitrary: cur)
    case (Cons ev evs)
    obtain claimed wake where ev: "ev = (claimed, wake)" by force
    note b = poll_delay_bounds [OF assms Cons.prems, of claimed]
    with Cons.IH [of "poll_delay e cur claimed"] Cons.IH [of "poll_interval e"] show ?case
      by (cases wake) (simp_all add: ev Let_def)
  qed simp
  from this [of "poll_interval e"] show ?thesis by simp
qed

theorem run_delays_bounded_witness:
  "run_delays sample_engine (poll_interval sample_engine) [(0, TimerFired), (0, TimerFired), (0, Notified), (3, TimerFired)]
     = [200000000, 400000000, 800000000, 100000000] \<and>
   list_all (\<lambda>d. 100000000 \<le> d \<and> d \<le> 2000000000)
     (run_delays sample_engine (poll_interval sample_engine) [(0, TimerFired), (0, TimerFired), (0, Notified), (3, TimerFired)])"
  using run_delays_bounded [of sample_engine "[(0, TimerFired), (0, TimerFired), (0, Notified), (3, TimerFired)]"]
  by (simp add: sample_engine_def newEngine_def poll_interval_def max_backoff_def poll_delay_def wrap64_def duration_units Let_def)

section \<open>Properties of the flusher\<close>

fun received :: "flush_event list \<Rightarrow> BatchSucceedParam list" where
  "received [] = []"
| "received (Recv p # evs) = p # received evs"
| "received (Tick # evs) = received evs"
| "received (Closed # evs) = []"



theorem plan_spec_witness:
  "mset (concat (map dispatch_msgs (plan rev sample_registry
     [sample_inbound, sample_inbound\<lparr>im_Type := ''mail''\<rparr>, sample_inbound\<lparr>im_Type := ''x''\<rparr>]))) =
   {# sample_inbound, sample_inbound\<lparr>im_Type := ''mail''\<rparr>, sample_inbound\<lparr>im_Type := ''x''\<rparr> #}"
  using plan_spec [of rev sample_registry "[sample_inbound, sample_inbound\<lparr>im_Type := ''mail''\<rparr>, sample_inbound\<lparr>im_Type := ''x''\<rparr>]"]
  by simp

end
