(* ===== verification/Engine_Machine.thy ===== *)
theory Engine_Machine
  imports Engine_Spec
begin

text \<open>
  The goroutines of the engine (src/engine.go) as a step relation: the poll loop with its
  dispatcher, the handler goroutines, the flusher and the shutdown. A state has the engine's own
  fields (semaphores, stop flag), the channel \<open>succeedCh\<close>, the wait group, and as ghosts what was
  claimed, settled, posted and flushed so far. Steps of other processes change the world.
\<close>

section \<open>Semaphores\<close>

definition sem_full :: "semaphore \<Rightarrow> bool" where
  "sem_full s \<longleftrightarrow> sem_used s \<ge> sem_cap s"

definition sem_put :: "semaphore \<Rightarrow> semaphore" where
  "sem_put s = s\<lparr>sem_used := sem_used s + 1\<rparr>"

definition sem_get :: "semaphore \<Rightarrow> semaphore" where
  "sem_get s = s\<lparr>sem_used := sem_used s - 1\<rparr>"

definition get_semaphore :: "'w engine \<Rightarrow> string \<Rightarrow> int \<Rightarrow> 'w engine \<times> semaphore" where
  "get_semaphore e eventType capacity =
     (case map_of (en_perType e) eventType of
        Some sem \<Rightarrow> (e, sem)
      | None \<Rightarrow> (let sem = \<lparr>sem_cap = capacity, sem_used = 0\<rparr>
                 in (e\<lparr>en_perType := map_set eventType sem (en_perType e)\<rparr>, sem)))"

definition set_semaphore :: "string \<Rightarrow> semaphore \<Rightarrow> 'w engine \<Rightarrow> 'w engine" where
  "set_semaphore et sem e = e\<lparr>en_perType := map_set et sem (en_perType e)\<rparr>"

definition put_pool :: "'w engine \<Rightarrow> 'w engine" where
  "put_pool e = e\<lparr>en_pool := sem_put (en_pool e)\<rparr>"

definition get_pool :: "'w engine \<Rightarrow> 'w engine" where
  "get_pool e = e\<lparr>en_pool := sem_get (en_pool e)\<rparr>"

section \<open>States\<close>

datatype phase = Invoke "InboundMessage list" | Commit "InboundMessage list" "goerr option" Outcome

record task =
  tk_reg :: registration
  tk_type :: string
  tk_perType :: bool
  tk_phase :: phase

fun phase_msgs :: "phase \<Rightarrow> InboundMessage list" where
  "phase_msgs (Invoke ms) = ms"
| "phase_msgs (Commit ms err outcome) = ms"

text \<open>
  Where the poll loop is: before the next poll, at the select on the pool for the first of the
  remaining units, at the select on the semaphore of its type (holding a pool token), waiting in
  \<open>drain\<close>, or back from it.
\<close>

datatype pc = Idle | AtPool "dispatch list" | AtType "dispatch list" | Draining | Drained

fun pending :: "pc \<Rightarrow> dispatch list" where
  "pending (AtPool ds) = ds"
| "pending (AtType ds) = ds"
| "pending _ = []"

definition holds :: "pc \<Rightarrow> int" where
  "holds p = (case p of AtType ds \<Rightarrow> 1 | _ \<Rightarrow> 0)"

record 'w estate =
  x_eng :: "'w engine"
  x_world :: 'w
  x_pc :: pc
  x_tasks :: "task multiset"
  x_inflight :: int
  x_ch :: "BatchSucceedParam list"
  x_closed :: bool
  x_buf :: "BatchSucceedParam list"
  x_flusher :: bool
  x_cancelled :: bool
  x_claimed :: "InboundMessage list"
  x_done :: "InboundMessage list"
  x_posted :: "BatchSucceedParam list"
  x_flushed :: "BatchSucceedParam list"

definition engine_init :: "'w engineConfig \<Rightarrow> 'w \<Rightarrow> 'w estate" where
  "engine_init cfg w =
     \<lparr>x_eng = newEngine cfg, x_world = w, x_pc = Idle, x_tasks = {#}, x_inflight = 0, x_ch = [], x_closed = False,
      x_buf = [], x_flusher = (en_succeedCh (newEngine cfg) \<noteq> None), x_cancelled = False, x_claimed = [], x_done = [],
      x_posted = [], x_flushed = []\<rparr>"

text \<open>The registration and the messages of a unit that is dispatched to a handler.\<close>

fun runnable :: "dispatch \<Rightarrow> (InboundMessage list \<times> registration) option" where
  "runnable (NoHandler m) = None"
| "runnable (RunSingle m reg) = Some ([m], reg)"
| "runnable (RunBatch ms reg) = Some (ms, reg)"

definition unit_type :: "InboundMessage list \<Rightarrow> string" where
  "unit_type ms = im_Type (hd ms)"

definition spawn :: "InboundMessage list \<Rightarrow> registration \<Rightarrow> bool \<Rightarrow> 'w estate \<Rightarrow> 'w estate" where
  "spawn ms reg perType x =
     x\<lparr>x_inflight := x_inflight x + 1,
       x_tasks := add_mset \<lparr>tk_reg = reg, tk_type = unit_type ms, tk_perType = perType, tk_phase = Invoke ms\<rparr> (x_tasks x)\<rparr>"

text \<open>What the handler of a task returns, for some state of its context.\<close>

definition invoke_result :: "task \<Rightarrow> InboundMessage list \<Rightarrow> goerr option \<Rightarrow> goerr option" where
  "invoke_result t ms ctx =
     (if reg_batchHandler (tk_reg t) \<noteq> None then safeInvokeBatch (reg_batchHandler (tk_reg t)) ctx ms
      else safeInvoke (reg_handler (tk_reg t)) ctx (hd ms))"

definition finish_engine :: "task \<Rightarrow> 'w engine \<Rightarrow> 'w engine" where
  "finish_engine t e =
     get_pool (if tk_perType t
               then set_semaphore (tk_type t) (sem_get (snd (get_semaphore e (tk_type t) 0))) e else e)"

section \<open>Steps\<close>

datatype action =
    Poll | NextPoll | FailNoHandler | TakePool | TakeType | ReleaseUnit | InvokeHandler | CommitOne | Finish
  | FlusherRecv | FlusherTick | FlusherClose | CtxCancel | Drain | CloseCh | DrainDone | ExtendLease | Elsewhere

inductive estep :: "'w estate \<Rightarrow> action \<Rightarrow> 'w estate \<Rightarrow> bool" where
  step_Poll: "x_pc x = Idle \<Longrightarrow> (\<And>gs. mset (ordG gs) = mset gs) \<Longrightarrow>
    pollOnce (x_eng x) ordT ordG took (x_world x) = (w, ms, ds, os) \<Longrightarrow>
    estep x Poll (x\<lparr>x_world := w, x_pc := AtPool ds, x_claimed := x_claimed x @ ms\<rparr>)"
| step_Next: "x_pc x = AtPool [] \<Longrightarrow> estep x NextPoll (x\<lparr>x_pc := Idle\<rparr>)"
| step_NoHandler: "x_pc x = AtPool (NoHandler m # ds) \<Longrightarrow> failNoHandler (x_eng x) q m (x_world x) = (w, os) \<Longrightarrow>
    estep x FailNoHandler (x\<lparr>x_world := w, x_pc := AtPool ds, x_done := x_done x @ [m]\<rparr>)"
| step_Pool: "x_pc x = AtPool (d # ds) \<Longrightarrow> runnable d \<noteq> None \<Longrightarrow> \<not> sem_full (en_pool (x_eng x)) \<Longrightarrow>
    estep x TakePool (x\<lparr>x_eng := put_pool (x_eng x), x_pc := AtType (d # ds)\<rparr>)"
| step_PoolCancel: "x_pc x = AtPool (d # ds) \<Longrightarrow> runnable d = Some (ms, reg) \<Longrightarrow> x_cancelled x \<Longrightarrow>
    estep x ReleaseUnit (x\<lparr>x_world := release_all (x_eng x) ms (x_world x), x_pc := AtPool ds, x_done := x_done x @ ms\<rparr>)"
| step_NoLimit: "x_pc x = AtType (d # ds) \<Longrightarrow> runnable d = Some (ms, reg) \<Longrightarrow> hc_maxInflight (reg_cfg reg) \<le> 0 \<Longrightarrow>
    estep x TakeType (spawn ms reg False (x\<lparr>x_pc := AtPool ds\<rparr>))"
| step_Type: "x_pc x = AtType (d # ds) \<Longrightarrow> runnable d = Some (ms, reg) \<Longrightarrow> hc_maxInflight (reg_cfg reg) > 0 \<Longrightarrow>
    get_semaphore (x_eng x) (unit_type ms) (hc_maxInflight (reg_cfg reg)) = (e, sem) \<Longrightarrow> \<not> sem_full sem \<Longrightarrow>
    estep x TakeType (spawn ms reg True (x\<lparr>x_eng := set_semaphore (unit_type ms) (sem_put sem) e, x_pc := AtPool ds\<rparr>))"
| step_TypeCancel: "x_pc x = AtType (d # ds) \<Longrightarrow> runnable d = Some (ms, reg) \<Longrightarrow> hc_maxInflight (reg_cfg reg) > 0 \<Longrightarrow>
    x_cancelled x \<Longrightarrow> get_semaphore (x_eng x) (unit_type ms) (hc_maxInflight (reg_cfg reg)) = (e, sem) \<Longrightarrow>
    estep x ReleaseUnit (x\<lparr>x_eng := get_pool e, x_world := release_all e ms (x_world x), x_pc := AtPool ds,
      x_done := x_done x @ ms\<rparr>)"
| step_Invoke: "x_tasks x = add_mset t T \<Longrightarrow> tk_phase t = Invoke ms \<Longrightarrow> err = invoke_result t ms ctx \<Longrightarrow>
    estep x InvokeHandler (x\<lparr>x_tasks :=
      add_mset (t\<lparr>tk_phase := Commit ms err (resolveOutcome parentErr (en_stopping (x_eng x)) err)\<rparr>) T\<rparr>)"
| step_Commit: "x_tasks x = add_mset t T \<Longrightarrow> tk_phase t = Commit (m # ms) err outcome \<Longrightarrow>
    commitOutcome (x_eng x) ae m (reg_cfg (tk_reg t)) err outcome (x_world x) = (w, acks, os) \<Longrightarrow>
    (acks \<noteq> [] \<Longrightarrow> \<exists>cap. en_succeedCh (x_eng x) = Some cap \<and> int (length (x_ch x)) < cap) \<Longrightarrow>
    estep x CommitOne (x\<lparr>x_world := w, x_tasks := add_mset (t\<lparr>tk_phase := Commit ms err outcome\<rparr>) T,
      x_ch := x_ch x @ acks, x_posted := x_posted x @ acks, x_done := x_done x @ [m]\<rparr>)"
| step_Finish: "x_tasks x = add_mset t T \<Longrightarrow> tk_phase t = Commit [] err outcome \<Longrightarrow>
    estep x Finish (x\<lparr>x_tasks := T, x_inflight := x_inflight x - 1, x_eng := finish_engine t (x_eng x)\<rparr>)"
| step_Recv: "x_flusher x \<Longrightarrow> x_ch x = p # ps \<Longrightarrow> flusher_step (x_eng x) (Recv p) (x_buf x) (x_world x) = (buf, batch, w, os) \<Longrightarrow>
    estep x FlusherRecv (x\<lparr>x_ch := ps, x_buf := buf, x_world := w, x_flushed := x_flushed x @ batch\<rparr>)"
| step_Tick: "x_flusher x \<Longrightarrow> flusher_step (x_eng x) Tick (x_buf x) (x_world x) = (buf, batch, w, os) \<Longrightarrow>
    estep x FlusherTick (x\<lparr>x_buf := buf, x_world := w, x_flushed := x_flushed x @ batch\<rparr>)"
| step_FlushClose: "x_flusher x \<Longrightarrow> x_closed x \<Longrightarrow> x_ch x = [] \<Longrightarrow>
    flusher_step (x_eng x) Closed (x_buf x) (x_world x) = (buf, batch, w, os) \<Longrightarrow>
    estep x FlusherClose (x\<lparr>x_buf := buf, x_world := w, x_flushed := x_flushed x @ batch, x_flusher := False\<rparr>)"
| step_Cancel: "estep x CtxCancel (x\<lparr>x_cancelled := True\<rparr>)"
| step_Drain: "x_pc x = Idle \<Longrightarrow> x_cancelled x \<Longrightarrow>
    estep x Drain (x\<lparr>x_pc := Draining, x_eng := (x_eng x)\<lparr>en_stopping := True\<rparr>\<rparr>)"
| step_Close: "x_pc x = Draining \<Longrightarrow> x_inflight x = 0 \<Longrightarrow> en_succeedCh (x_eng x) \<noteq> None \<Longrightarrow> \<not> x_closed x \<Longrightarrow>
    estep x CloseCh (x\<lparr>x_closed := True\<rparr>)"
| step_Drained: "x_pc x = Draining \<Longrightarrow> x_inflight x = 0 \<Longrightarrow> (en_succeedCh (x_eng x) \<noteq> None \<Longrightarrow> x_closed x \<and> \<not> x_flusher x) \<Longrightarrow>
    estep x DrainDone (x\<lparr>x_pc := Drained\<rparr>)"
| step_Extend: "t \<in># x_tasks x \<Longrightarrow> m \<in> set (phase_msgs (tk_phase t)) \<Longrightarrow>
    st_Extend (en_storage (x_eng x)) (im_ID m) (en_workerID (x_eng x)) until (x_world x) = (w, ok, err) \<Longrightarrow>
    estep x ExtendLease (x\<lparr>x_world := w\<rparr>)"
| step_Other: "estep x Elsewhere (x\<lparr>x_world := w\<rparr>)"

inductive ereach :: "'w engineConfig \<Rightarrow> 'w estate \<Rightarrow> bool" for cfg where
  ereach_init: "ereach cfg (engine_init cfg w)"
| ereach_step: "ereach cfg x \<Longrightarrow> estep x a x' \<Longrightarrow> ereach cfg x'"

inductive_cases estepE: "estep x a x'"

section \<open>Invariant\<close>

definition type_count :: "string \<Rightarrow> task multiset \<Rightarrow> int" where
  "type_count et T = int (size (filter_mset (\<lambda>t. tk_perType t \<and> tk_type t = et) T))"

definition task_msgs :: "task multiset \<Rightarrow> InboundMessage multiset" where
  "task_msgs T = (\<Sum>t\<in>#T. mset (phase_msgs (tk_phase t)))"

definition type_limit :: "HandlerRegistry \<Rightarrow> string \<Rightarrow> int" where
  "type_limit r et = (case lookup r et of None \<Rightarrow> 0 | Some reg \<Rightarrow> hc_maxInflight (reg_cfg reg))"

text \<open>The semaphores count the tasks that run (and the token the dispatcher holds).\<close>

definition tokens_ok :: "'w estate \<Rightarrow> bool" where
  "tokens_ok x \<longleftrightarrow> x_inflight x = int (size (x_tasks x)) \<and>
     sem_used (en_pool (x_eng x)) = int (size (x_tasks x)) + holds (x_pc x) \<and>
     sem_used (en_pool (x_eng x)) \<le> sem_cap (en_pool (x_eng x)) \<and>
     (\<forall>et. case map_of (en_perType (x_eng x)) et of
        None \<Rightarrow> type_count et (x_tasks x) = 0
      | Some sem \<Rightarrow> sem_used sem = type_count et (x_tasks x) \<and> sem_used sem \<le> sem_cap sem \<and>
          sem_cap sem = type_limit (ec_registry (en_cfg (x_eng x))) et)"

definition units_ok :: "'w estate \<Rightarrow> bool" where
  "units_ok x \<longleftrightarrow>
     (\<forall>d\<in>set (pending (x_pc x)). \<forall>ms reg. runnable d = Some (ms, reg) \<longrightarrow>
        ms \<noteq> [] \<and> lookup (ec_registry (en_cfg (x_eng x))) (unit_type ms) = Some reg) \<and>
     (\<forall>ds. x_pc x = AtType ds \<longrightarrow> ds \<noteq> [] \<and> runnable (hd ds) \<noteq> None) \<and>
     (\<forall>t\<in>#x_tasks x. lookup (ec_registry (en_cfg (x_eng x))) (tk_type t) = Some (tk_reg t) \<and>
        tk_perType t = (0 < hc_maxInflight (reg_cfg (tk_reg t))))"

definition msgs_ok :: "'w estate \<Rightarrow> bool" where
  "msgs_ok x \<longleftrightarrow> mset (x_claimed x) =
     mset (concat (map dispatch_msgs (pending (x_pc x)))) + task_msgs (x_tasks x) + mset (x_done x)"

definition acks_ok :: "'w estate \<Rightarrow> bool" where
  "acks_ok x \<longleftrightarrow> x_posted x = x_flushed x @ x_buf x @ x_ch x"

text \<open>Nobody sends on the closed channel, and the flusher outlives every sender.\<close>

definition drain_cond ::
  "bool \<Rightarrow> bool \<Rightarrow> task multiset \<Rightarrow> pc \<Rightarrow> bool \<Rightarrow> bool \<Rightarrow> BatchSucceedParam list \<Rightarrow> BatchSucceedParam list
   \<Rightarrow> BatchSucceedParam list \<Rightarrow> bool" where
  "drain_cond has shut T p flusher cancelled posted ch buf \<longleftrightarrow>
     (shut \<longrightarrow> has \<and> T = {#} \<and> p \<in> {Draining, Drained}) \<and>
     (has \<and> \<not> flusher \<longrightarrow> shut \<and> ch = [] \<and> buf = []) \<and>
     (p = Drained \<longrightarrow> T = {#} \<and> (has \<longrightarrow> \<not> flusher)) \<and>
     (\<not> has \<longrightarrow> posted = []) \<and> (p \<in> {Draining, Drained} \<longrightarrow> cancelled)"

definition drain_ok :: "'w estate \<Rightarrow> bool" where
  "drain_ok x \<longleftrightarrow> drain_cond (en_succeedCh (x_eng x) \<noteq> None) (x_closed x) (x_tasks x) (x_pc x) (x_flusher x) (x_cancelled x)
     (x_posted x) (x_ch x) (x_buf x)"

definition engine_inv :: "'w engineConfig \<Rightarrow> 'w estate \<Rightarrow> bool" where
  "engine_inv cfg x \<longleftrightarrow> en_cfg (x_eng x) = en_cfg (newEngine cfg) \<and> en_succeedCh (x_eng x) = en_succeedCh (newEngine cfg) \<and>
     sem_cap (en_pool (x_eng x)) = ec_poolSize (en_cfg (newEngine cfg)) \<and>
     tokens_ok x \<and> units_ok x \<and> msgs_ok x \<and> acks_ok x \<and> drain_ok x"

section \<open>Preservation\<close>

lemmas sem_defs = sem_full_def sem_put_def sem_get_def put_pool_def get_pool_def set_semaphore_def

lemma get_semaphore_cases:
  assumes "get_semaphore e et cap = (e', sem)"
  obtains (old) "map_of (en_perType e) et = Some sem" "e' = e"
  | (new) "map_of (en_perType e) et = None" "sem = \<lparr>sem_cap = cap, sem_used = 0\<rparr>"
      "e' = e\<lparr>en_perType := map_set et sem (en_perType e)\<rparr>"
  using assms by (auto simp: get_semaphore_def Let_def split: option.splits)

lemma get_semaphore_cfg:
  "get_semaphore e et cap = (e', sem) \<Longrightarrow>
     en_cfg e' = en_cfg e \<and> en_succeedCh e' = en_succeedCh e \<and> en_pool e' = en_pool e \<and> en_stopping e' = en_stopping e"
  by (auto elim!: get_semaphore_cases)

lemma finish_engine_cfg:
  "en_cfg (finish_engine t e) = en_cfg e" "en_succeedCh (finish_engine t e) = en_succeedCh e"
  "en_pool (finish_engine t e) = sem_get (en_pool e)" "en_stopping (finish_engine t e) = en_stopping e"
  by (simp_all add: finish_engine_def sem_defs)

lemma step_cfg:
  "estep x a x' \<Longrightarrow> en_cfg (x_eng x') = en_cfg (x_eng x) \<and> en_succeedCh (x_eng x') = en_succeedCh (x_eng x) \<and>
     sem_cap (en_pool (x_eng x')) = sem_cap (en_pool (x_eng x))"
  by (induction rule: estep.induct)
     (auto simp: spawn_def finish_engine_cfg sem_defs dest: get_semaphore_cfg)

lemma dispatch_ok_runnable:
  assumes "dispatch_ok r ms d" "runnable d = Some (ms', reg)"
  shows "ms' \<noteq> [] \<and> lookup r (unit_type ms') = Some reg"
proof (cases d)
  case (RunBatch c reg')
  have "c \<noteq> []" "ms' = c" "reg = reg'" "\<forall>m\<in>set c. lookup r (im_Type m) = Some reg'"
    using assms unfolding dispatch_ok_def RunBatch dispatch.case runnable.simps by blast+
  then show ?thesis unfolding unit_type_def by (metis hd_in_set)
qed (use assms in \<open>auto simp: dispatch_ok_def unit_type_def\<close>)

lemma pollOnce_units:
  assumes "\<And>gs. mset (ordG gs) = mset gs" "pollOnce e ordT ordG took w = (w', ms, ds, os)"
  shows "mset (concat (map dispatch_msgs ds)) = mset ms \<and>
    (\<forall>d\<in>set ds. \<forall>ms reg. runnable d = Some (ms, reg) \<longrightarrow> ms \<noteq> [] \<and> lookup (ec_registry (en_cfg e)) (unit_type ms) = Some reg)"
proof -
  let ?r = "ec_registry (en_cfg e)"
  have ds: "ms = [] \<and> ds = [] \<or> ds = plan ordG ?r ms"
    using assms(2) by (auto simp: pollOnce_def Let_def split: if_splits prod.splits option.splits)
  have plan: "mset (concat (map dispatch_msgs (plan ordG ?r ms))) = mset ms \<and> (\<forall>d\<in>set (plan ordG ?r ms). dispatch_ok ?r ms d)"
    by (rule plan_dispatch [OF assms(1)])
  from ds show ?thesis
  proof
    assume "ds = plan ordG ?r ms"
    with plan have "mset (concat (map dispatch_msgs ds)) = mset ms" "\<forall>d\<in>set ds. dispatch_ok ?r ms d" by simp_all
    then show ?thesis using dispatch_ok_runnable by blast
  qed simp
qed

lemma units_step:
  assumes "estep x a x'" "units_ok x"
  shows "units_ok x'"
  using assms(1)
proof cases
  case (step_Poll ordG ordT took w ms ds os)
  with pollOnce_units [OF step_Poll(4,5)] assms(2) show ?thesis by (simp add: units_ok_def)
next
  case (step_Type d ds ms reg e sem)
  with assms(2) get_semaphore_cfg [OF step_Type(6)] show ?thesis by (auto simp: units_ok_def spawn_def sem_defs)
next
  case (step_TypeCancel d ds ms reg e sem)
  with assms(2) get_semaphore_cfg [OF step_TypeCancel(7)] show ?thesis by (auto simp: units_ok_def sem_defs)
qed (use assms(2) in \<open>auto simp: units_ok_def spawn_def sem_defs finish_engine_cfg\<close>)

lemma task_msgs_simps [simp]:
  "task_msgs {#} = {#}" "task_msgs (add_mset t T) = mset (phase_msgs (tk_phase t)) + task_msgs T"
  by (simp_all add: task_msgs_def)

lemma runnable_msgs: "runnable d = Some (ms, reg) \<Longrightarrow> dispatch_msgs d = ms"
  by (cases d) auto

lemma msgs_step:
  assumes "estep x a x'" "msgs_ok x"
  shows "msgs_ok x'"
  using assms(1)
proof cases
  case (step_Poll ordG ordT took w ms ds os)
  with pollOnce_units [OF step_Poll(4,5)] assms(2) show ?thesis by (simp add: msgs_ok_def)
qed (use assms(2) in \<open>auto simp: msgs_ok_def spawn_def dest!: runnable_msgs\<close>)

lemma flusher_step_acks: "flusher_step e ev buf w = (buf', batch, w', os) \<Longrightarrow> batch @ buf' = buf @ received [ev]"
  by (cases ev) (auto simp: Let_def split: if_splits prod.splits)

lemma acks_step:
  assumes "estep x a x'" "acks_ok x"
  shows "acks_ok x'"
  using assms(1)
proof cases
  case (step_Recv p ps buf batch w os)
  with assms(2) flusher_step_acks [OF step_Recv(5)] show ?thesis by (simp add: acks_ok_def)
next
  case (step_Tick buf batch w os)
  with assms(2) flusher_step_acks [OF step_Tick(4)] show ?thesis by (simp add: acks_ok_def)
next
  case (step_FlushClose buf batch w os)
  with assms(2) flusher_step_acks [OF step_FlushClose(6)] show ?thesis by (simp add: acks_ok_def)
qed (use assms(2) in \<open>auto simp: acks_ok_def spawn_def\<close>)

lemma type_count_simps [simp]:
  "type_count et {#} = 0"
  "type_count et (add_mset t T) = (if tk_perType t \<and> tk_type t = et then 1 else 0) + type_count et T"
  by (simp_all add: type_count_def)

lemma type_count_nonneg [simp]: "0 \<le> type_count et T"
  by (simp add: type_count_def)

lemma type_count_phase [simp]: "type_count et (add_mset (t\<lparr>tk_phase := p\<rparr>) T) = type_count et (add_mset t T)"
  by simp

lemma holds_simps [simp]:
  "holds Idle = 0" "holds (AtPool ds) = 0" "holds (AtType ds) = 1" "holds Draining = 0" "holds Drained = 0"
  by (simp_all add: holds_def)

text \<open>The per-type part of the token invariant, for one event type and for the map of semaphores.\<close>

definition sem_ok :: "HandlerRegistry \<Rightarrow> task multiset \<Rightarrow> string \<Rightarrow> semaphore option \<Rightarrow> bool" where
  "sem_ok r T et so \<longleftrightarrow> (case so of
        None \<Rightarrow> type_count et T = 0
      | Some sem \<Rightarrow> sem_used sem = type_count et T \<and> sem_used sem \<le> sem_cap sem \<and> sem_cap sem = type_limit r et)"

lemma sem_ok_simps [simp]:
  "sem_ok r T et None \<longleftrightarrow> type_count et T = 0"
  "sem_ok r T et (Some sem) \<longleftrightarrow> sem_used sem = type_count et T \<and> sem_used sem \<le> sem_cap sem \<and> sem_cap sem = type_limit r et"
  by (simp_all add: sem_ok_def)

lemma sem_ok_cong: "type_count et T' = type_count et T \<Longrightarrow> sem_ok r T' et so = sem_ok r T et so"
  by (cases so) simp_all

definition sems_ok :: "HandlerRegistry \<Rightarrow> (string \<rightharpoonup> semaphore) \<Rightarrow> task multiset \<Rightarrow> bool" where
  "sems_ok r sems T \<longleftrightarrow> (\<forall>et. sem_ok r T et (sems et))"

lemma tokens_ok_sems:
  "tokens_ok x \<longleftrightarrow> x_inflight x = int (size (x_tasks x)) \<and>
     sem_used (en_pool (x_eng x)) = int (size (x_tasks x)) + holds (x_pc x) \<and>
     sem_used (en_pool (x_eng x)) \<le> sem_cap (en_pool (x_eng x)) \<and>
     sems_ok (ec_registry (en_cfg (x_eng x))) (map_of (en_perType (x_eng x))) (x_tasks x)"
  by (simp add: tokens_ok_def sems_ok_def sem_ok_def)

lemma sems_ok_cong: "(\<And>et. type_count et T' = type_count et T) \<Longrightarrow> sems_ok r sems T' = sems_ok r sems T"
  unfolding sems_ok_def using sem_ok_cong by metis

lemma sems_ok_upd:
  assumes "sems_ok r sems T" "sem_ok r T' et (Some sem)" "\<And>et'. et' \<noteq> et \<Longrightarrow> type_count et' T' = type_count et' T"
  shows "sems_ok r (sems(et \<mapsto> sem)) T'"
  unfolding sems_ok_def
proof
  fix et'
  show "sem_ok r T' et' ((sems(et \<mapsto> sem)) et')"
  proof (cases "et' = et")
    case False
    with assms(1) sem_ok_cong [OF assms(3) [OF False]] show ?thesis by (simp add: sems_ok_def)
  qed (use assms(2) in simp)
qed

lemma sems_ok_new: "sems_ok r sems T \<Longrightarrow> sems et = None \<Longrightarrow> 0 \<le> type_limit r et \<Longrightarrow>
    sems_ok r (sems(et \<mapsto> \<lparr>sem_cap = type_limit r et, sem_used = 0\<rparr>)) T"
  by (rule sems_ok_upd) (auto simp: sems_ok_def dest: spec [of _ et])

lemma sems_ok_put:
  assumes "sems_ok r sems T" "sems et = Some sem" "\<not> sem_full sem" "tk_perType t" "tk_type t = et"
  shows "sems_ok r (sems(et \<mapsto> sem_put sem)) (add_mset t T)"
proof (rule sems_ok_upd [OF assms(1)])
  have "sem_ok r T et (Some sem)" using assms(1,2) by (metis sems_ok_def)
  with assms(3-5) show "sem_ok r (add_mset t T) et (Some (sem_put sem))" by (simp add: sem_put_def sem_full_def)
qed (use assms(5) in auto)

lemma sems_ok_get:
  assumes "sems_ok r sems (add_mset t T)" "tk_perType t" "sems (tk_type t) = Some sem"
  shows "sems_ok r (sems(tk_type t \<mapsto> sem_get sem)) T"
proof (rule sems_ok_upd [OF assms(1)])
  have "sem_ok r (add_mset t T) (tk_type t) (Some sem)" using assms(1,3) by (metis sems_ok_def)
  with assms(2) show "sem_ok r T (tk_type t) (Some (sem_get sem))" by (simp add: sem_get_def)
qed auto

lemma sems_ok_Some:
  assumes "sems_ok r sems (add_mset t T)" "tk_perType t"
  obtains sem where "sems (tk_type t) = Some sem"
proof (cases "sems (tk_type t)")
  case None
  then have "type_count (tk_type t) (add_mset t T) = 0" using assms(1) by (metis sem_ok_simps(1) sems_ok_def)
  then have "1 + type_count (tk_type t) T = 0" using assms(2) by simp
  then show ?thesis using type_count_nonneg [of "tk_type t" T] by linarith
qed

lemma tokens_step:
  assumes "estep x a x'" "tokens_ok x" "units_ok x"
  shows "tokens_ok x'"
  using assms(1)
proof cases
  case (step_Type d ds ms reg e sem)
  let ?r = "ec_registry (en_cfg (x_eng x))" and ?et = "unit_type ms"
  let ?t = "\<lparr>tk_reg = reg, tk_type = ?et, tk_perType = True, tk_phase = Invoke ms\<rparr>"
  have lim: "type_limit ?r ?et = hc_maxInflight (reg_cfg reg)"
    using assms(3) step_Type(3,4) by (simp add: units_ok_def type_limit_def)
  have ok: "sems_ok ?r (map_of (en_perType (x_eng x))) (x_tasks x)" using assms(2) by (simp add: tokens_ok_sems)
  have "sems_ok ?r (map_of (en_perType e)) (x_tasks x) \<and> map_of (en_perType e) ?et = Some sem"
    using step_Type(6)
  proof (cases rule: get_semaphore_cases)
    case new
    with sems_ok_new [OF ok new(1)] lim step_Type(5) show ?thesis by simp
  qed (use ok in simp)
  then have "sems_ok ?r ((map_of (en_perType e))(?et \<mapsto> sem_put sem)) (add_mset ?t (x_tasks x))"
    using step_Type(7) by (intro sems_ok_put) simp_all
  with step_Type get_semaphore_cfg [OF step_Type(6)] assms(2) show ?thesis
    by (simp add: tokens_ok_sems spawn_def sem_defs)
next
  case (step_TypeCancel d ds ms reg e sem)
  let ?r = "ec_registry (en_cfg (x_eng x))" and ?et = "unit_type ms"
  have lim: "type_limit ?r ?et = hc_maxInflight (reg_cfg reg)"
    using assms(3) step_TypeCancel(3,4) by (simp add: units_ok_def type_limit_def)
  have ok: "sems_ok ?r (map_of (en_perType (x_eng x))) (x_tasks x)" using assms(2) by (simp add: tokens_ok_sems)
  have "sems_ok ?r (map_of (en_perType e)) (x_tasks x)"
    using step_TypeCancel(7)
  proof (cases rule: get_semaphore_cases)
    case new
    with sems_ok_new [OF ok new(1)] lim step_TypeCancel(5) show ?thesis by simp
  qed (use ok in simp)
  with step_TypeCancel get_semaphore_cfg [OF step_TypeCancel(7)] assms(2) show ?thesis
    by (simp add: tokens_ok_sems sem_defs)
next
  case (step_NoLimit d ds ms reg)
  let ?t = "\<lparr>tk_reg = reg, tk_type = unit_type ms, tk_perType = False, tk_phase = Invoke ms\<rparr>"
  have "sems_ok r sems (add_mset ?t T) = sems_ok r sems T" for r sems T by (rule sems_ok_cong) simp
  with step_NoLimit assms(2) show ?thesis by (simp add: tokens_ok_sems spawn_def)
next
  case (step_Invoke t T ms err ctx parentErr)
  have "sems_ok r sems (add_mset (t\<lparr>tk_phase := p\<rparr>) T) = sems_ok r sems (add_mset t T)" for r sems p
    by (rule sems_ok_cong) simp
  with step_Invoke assms(2) show ?thesis by (simp add: tokens_ok_sems)
next
  case (step_Commit t T m ms err outcome ae w acks os)
  have "sems_ok r sems (add_mset (t\<lparr>tk_phase := p\<rparr>) T) = sems_ok r sems (add_mset t T)" for r sems p
    by (rule sems_ok_cong) simp
  with step_Commit assms(2) show ?thesis by (simp add: tokens_ok_sems)
next
  case (step_Finish t T err outcome)
  let ?r = "ec_registry (en_cfg (x_eng x))"
  have ok: "sems_ok ?r (map_of (en_perType (x_eng x))) (add_mset t T)"
    using assms(2) step_Finish(3) by (simp add: tokens_ok_sems)
  have "sems_ok ?r (map_of (en_perType (finish_engine t (x_eng x)))) T"
  proof (cases "tk_perType t")
    case True
    then obtain sem where sem: "map_of (en_perType (x_eng x)) (tk_type t) = Some sem" by (rule sems_ok_Some [OF ok])
    from sems_ok_get [OF ok True this] True sem show ?thesis by (simp add: finish_engine_def sem_defs get_semaphore_def)
  next
    case False
    have "sems_ok ?r sems (add_mset t T) = sems_ok ?r sems T" for sems by (rule sems_ok_cong) (simp add: False)
    with ok False show ?thesis by (simp add: finish_engine_def sem_defs)
  qed
  with step_Finish assms(2) show ?thesis by (simp add: tokens_ok_sems finish_engine_cfg sem_get_def)
qed (use assms(2) in \<open>auto simp: tokens_ok_sems sem_defs\<close>)

lemma drain_cond_run:
  assumes "drain_cond has shut T p flusher cancelled posted ch buf" "p \<notin> {Draining, Drained}" "p' \<notin> {Draining, Drained}"
    "\<not> has \<Longrightarrow> posted' = []"
  shows "drain_cond has shut T' p' flusher cancelled' posted' ch' buf'"
  using assms unfolding drain_cond_def by blast

lemma drain_cond_tasks:
  assumes "drain_cond has shut (add_mset t T) p flusher cancelled posted ch buf" "\<not> has \<Longrightarrow> posted' = []"
  shows "drain_cond has shut T' p flusher cancelled posted' ch' buf'"
  using assms unfolding drain_cond_def by (metis add_mset_not_empty)

lemma drain_cond_flusher:
  assumes "drain_cond has shut T p True cancelled posted ch buf"
  shows "drain_cond has shut T p True cancelled posted ch' buf'"
  using assms unfolding drain_cond_def by blast

lemma drain_cond_shutdown:
  "drain_cond has True T p fl c posted [] buf \<Longrightarrow> drain_cond has True T p False c posted [] []"
  "drain_cond has shut T p fl c posted ch buf \<Longrightarrow> drain_cond has shut T p fl True posted ch buf"
  "drain_cond has shut T Idle fl c posted ch buf \<Longrightarrow> c \<Longrightarrow> drain_cond has shut T Draining fl c posted ch buf"
  "drain_cond has shut {#} Draining fl c posted ch buf \<Longrightarrow> has \<Longrightarrow> drain_cond has True {#} Draining fl c posted ch buf"
  "drain_cond has shut {#} Draining fl c posted ch buf \<Longrightarrow> (has \<Longrightarrow> shut \<and> \<not> fl) \<Longrightarrow> drain_cond has shut {#} Drained fl c posted ch buf"
  unfolding drain_cond_def by blast+

lemma drain_ok_run:
  assumes "drain_ok x" "x_pc x \<notin> {Draining, Drained}" "x_pc x' \<notin> {Draining, Drained}" "x_closed x' = x_closed x"
    "x_flusher x' = x_flusher x" "x_posted x' = x_posted x" "en_succeedCh (x_eng x') = en_succeedCh (x_eng x)"
  shows "drain_ok x'"
proof -
  have "en_succeedCh (x_eng x) = None \<Longrightarrow> x_posted x = []" using assms(1) unfolding drain_ok_def drain_cond_def by metis
  then show ?thesis unfolding drain_ok_def assms(4-7)
    by (intro drain_cond_run [OF assms(1) [unfolded drain_ok_def] assms(2,3)]) blast
qed

lemma drain_ok_tasks:
  assumes "drain_ok x" "x_tasks x = add_mset t T" "x_pc x' = x_pc x" "x_closed x' = x_closed x" "x_flusher x' = x_flusher x"
    "x_cancelled x' = x_cancelled x" "en_succeedCh (x_eng x') = en_succeedCh (x_eng x)"
    "en_succeedCh (x_eng x) = None \<Longrightarrow> x_posted x' = x_posted x"
  shows "drain_ok x'"
proof -
  have "en_succeedCh (x_eng x) = None \<Longrightarrow> x_posted x' = []"
    using assms(1,8) unfolding drain_ok_def drain_cond_def by metis
  then show ?thesis unfolding drain_ok_def assms(3-7)
    by (intro drain_cond_tasks [OF assms(1) [unfolded drain_ok_def assms(2)]]) blast
qed

lemma drain_step:
  assumes "estep x a x'" "drain_ok x" "tokens_ok x"
  shows "drain_ok x'"
proof -
  note ok = assms(2) [unfolded drain_ok_def]
  have none: "x_inflight x = 0 \<Longrightarrow> x_tasks x = {#}" using assms(3) by (simp add: tokens_ok_def)
  from assms(1) show ?thesis
  proof cases
    case (step_Type d ds ms reg e sem)
    then show ?thesis by (intro drain_ok_run [OF assms(2)]) (simp_all add: spawn_def sem_defs get_semaphore_cfg [OF step_Type(6)])
  next
    case (step_TypeCancel d ds ms reg e sem)
    then show ?thesis by (intro drain_ok_run [OF assms(2)]) (simp_all add: sem_defs get_semaphore_cfg [OF step_TypeCancel(7)])
  next
    case (step_Commit t T m ms err outcome ae w acks os)
    have "en_succeedCh (x_eng x) = None \<Longrightarrow> acks = []"
      using commitOutcome_acks [of "x_eng x" ae m "reg_cfg (tk_reg t)" err outcome "x_world x"] step_Commit(5) by simp
    with step_Commit(2) show ?thesis by (intro drain_ok_tasks [OF assms(2) step_Commit(3)]) simp_all
  next
    case (step_Invoke t T ms err ctx parentErr)
    from step_Invoke(2) show ?thesis by (intro drain_ok_tasks [OF assms(2) step_Invoke(3)]) simp_all
  next
    case (step_Finish t T err outcome)
    from step_Finish(2) show ?thesis by (intro drain_ok_tasks [OF assms(2) step_Finish(3)]) (simp_all add: finish_engine_cfg)
  next
    case (step_FlushClose buf batch w os)
    then have "buf = []" by (auto simp: Let_def split: prod.splits)
    with step_FlushClose(2,4,5) ok show ?thesis using drain_cond_shutdown(1) by (simp add: drain_ok_def)
  next
    case step_Recv
    from step_Recv(2,3) ok show ?thesis using drain_cond_flusher by (simp add: drain_ok_def)
  next
    case step_Tick
    from step_Tick(2,3) ok show ?thesis using drain_cond_flusher by (simp add: drain_ok_def)
  next
    case step_Drain
    from step_Drain(2-4) ok show ?thesis by (simp add: drain_ok_def drain_cond_shutdown(3))
  next
    case step_Close
    from step_Close(2-6) ok none show ?thesis by (simp add: drain_ok_def drain_cond_shutdown(4))
  next
    case step_Drained
    from step_Drained(2-5) ok none show ?thesis by (simp add: drain_ok_def drain_cond_shutdown(5))
  next
    case step_Cancel
    from step_Cancel(2) ok show ?thesis by (simp add: drain_ok_def drain_cond_shutdown(2))
  next
    case step_Extend
    from step_Extend(2) ok show ?thesis by (simp add: drain_ok_def)
  next
    case step_Other
    from step_Other(2) ok show ?thesis by (simp add: drain_ok_def)
  qed (rule drain_ok_run [OF assms(2)]; simp add: spawn_def sem_defs)+
qed

lemma ereach_inv: "ereach cfg x \<Longrightarrow> engine_inv cfg x"
proof (induction rule: ereach.induct)
  case (ereach_init w)
  then show ?case
    by (auto simp: engine_inv_def engine_init_def newEngine_def tokens_ok_def units_ok_def msgs_ok_def acks_ok_def drain_ok_def drain_cond_def Let_def)
next
  case (ereach_step x a x')
  then show ?case
    using step_cfg [OF ereach_step(2)] tokens_step [OF ereach_step(2)] units_step [OF ereach_step(2)] msgs_step [OF ereach_step(2)]
      acks_step [OF ereach_step(2)] drain_step [OF ereach_step(2)]
    by (simp add: engine_inv_def)
qed

section \<open>Progress\<close>

text \<open>
  The engine's own work, as opposed to new polls, timer ticks, heartbeats, the cancellation and
  what other processes do.
\<close>

definition internal :: "action \<Rightarrow> bool" where
  "internal a \<longleftrightarrow> a \<notin> {Poll, FlusherTick, CtxCancel, ExtendLease, Elsewhere}"

definition eprogress :: "'w estate \<Rightarrow> 'w estate \<Rightarrow> bool" where
  "eprogress x x' \<longleftrightarrow> (\<exists>a. internal a \<and> estep x a x')"

fun phase_weight :: "phase \<Rightarrow> nat" where
  "phase_weight (Invoke ms) = 3 + 4 * length ms"
| "phase_weight (Commit ms err outcome) = 2 + 4 * length ms"

definition unit_weight :: "dispatch \<Rightarrow> nat" where
  "unit_weight d = 8 + 4 * length (dispatch_msgs d)"

fun pc_weight :: "pc \<Rightarrow> nat" where
  "pc_weight Idle = 3"
| "pc_weight (AtPool ds) = 4 + sum_list (map unit_weight ds)"
| "pc_weight (AtType ds) = 3 + sum_list (map unit_weight ds)"
| "pc_weight Draining = 2"
| "pc_weight Drained = 0"

definition work :: "'w estate \<Rightarrow> nat" where
  "work x = pc_weight (x_pc x) + (\<Sum>t\<in>#x_tasks x. phase_weight (tk_phase t)) + 2 * length (x_ch x)
     + (if x_closed x then 0 else 1) + (if x_flusher x then 1 else 0)"

lemma runnable_weight: "runnable d = Some (ms, reg) \<Longrightarrow> unit_weight d = 8 + 4 * length ms"
  by (simp add: unit_weight_def runnable_msgs)

lemma commit_acks_length: "commitOutcome e ae m cfg err outcome w = (w', acks, os) \<Longrightarrow> length acks \<le> 1"
  using commitOutcome_acks [of e ae m cfg err outcome w] by (simp split: if_splits)

lemma work_decreases:
  assumes "estep x a x'" "internal a"
  shows "work x' < work x"
  using assms(1)
proof cases
  case (step_Commit t T m ms err outcome ae w acks os)
  with commit_acks_length [OF step_Commit(5)] show ?thesis by (simp add: work_def)
next
  case (step_Recv p ps buf batch w os)
  from step_Recv(2,4) show ?thesis by (simp add: work_def)
next
  case (step_FlushClose buf batch w os)
  from step_FlushClose(2,3) show ?thesis by (simp add: work_def)
qed (use assms(2) in \<open>simp_all add: work_def spawn_def internal_def unit_weight_def runnable_msgs\<close>)

lemma progress_keeps:
  assumes "estep x a x'" "internal a"
  shows "x_claimed x' = x_claimed x \<and> x_cancelled x' = x_cancelled x"
  using assms by cases (simp_all add: spawn_def internal_def)

lemma task_progress:
  assumes "x_tasks x = add_mset t T" "drain_ok x" "\<And>cap. en_succeedCh (x_eng x) = Some cap \<Longrightarrow> 0 < cap"
  shows "\<exists>x'. eprogress x x'"
proof (cases "tk_phase t")
  case (Invoke ms)
  from step_Invoke [OF assms(1) this refl] show ?thesis by (auto simp: eprogress_def internal_def)
next
  case (Commit ms err outcome)
  show ?thesis
  proof (cases ms)
    case Nil
    with step_Finish [OF assms(1)] Commit show ?thesis by (auto simp: eprogress_def internal_def)
  next
    case (Cons m ms')
    obtain w acks os where c: "commitOutcome (x_eng x) undefined m (reg_cfg (tk_reg t)) err outcome (x_world x) = (w, acks, os)"
      by (metis prod_cases3)
    note step = step_Commit [OF assms(1) Commit [unfolded Cons] c]
    show ?thesis
    proof (cases "acks \<noteq> [] \<longrightarrow> (\<exists>cap. en_succeedCh (x_eng x) = Some cap \<and> int (length (x_ch x)) < cap)")
      case True
      with step show ?thesis by (auto simp: eprogress_def internal_def)
    next
      case False
      then have "en_succeedCh (x_eng x) \<noteq> None"
        using commitOutcome_acks [of "x_eng x" undefined m "reg_cfg (tk_reg t)" err outcome "x_world x"] c by (simp split: if_splits)
      then obtain cap where cap: "en_succeedCh (x_eng x) = Some cap" by blast
      with False assms(3) obtain p ps where ch: "x_ch x = p # ps" by (cases "x_ch x") auto
      have fl: "x_flusher x" using assms(1,2) cap ch unfolding drain_ok_def drain_cond_def by (metis list.distinct(1) option.distinct(1))
      obtain buf batch w' os' where "flusher_step (x_eng x) (Recv p) (x_buf x) (x_world x) = (buf, batch, w', os')"
        by (metis prod_cases4)
      from step_Recv [OF fl ch this] show ?thesis by (auto simp: eprogress_def internal_def)
    qed
  qed
qed

lemma dispatch_progress:
  assumes "x_pc x = AtPool (d # ds) \<or> x_pc x = AtType (d # ds)" "tokens_ok x" "units_ok x" "x_tasks x = {#}"
    "0 < sem_cap (en_pool (x_eng x))"
  shows "\<exists>x'. eprogress x x'"
proof (cases "runnable d")
  case None
  then obtain m where d: "d = NoHandler m" by (cases d) auto
  have pc: "x_pc x = AtPool (NoHandler m # ds)"
    using assms(1,3) None d unfolding units_ok_def by (metis list.sel(1))
  obtain w os where "failNoHandler (x_eng x) undefined m (x_world x) = (w, os)" by force
  from step_NoHandler [OF pc this] show ?thesis by (auto simp: eprogress_def internal_def)
next
  case (Some a)
  obtain ms reg where r: "runnable d = Some (ms, reg)" using Some by (cases a) auto
  from assms(1) show ?thesis
  proof
    assume pc: "x_pc x = AtPool (d # ds)"
    have "\<not> sem_full (en_pool (x_eng x))" using assms(2,4,5) pc by (simp add: tokens_ok_def sem_full_def)
    from step_Pool [OF pc _ this] r show ?thesis by (auto simp: eprogress_def internal_def)
  next
    assume pc: "x_pc x = AtType (d # ds)"
    show ?thesis
    proof (cases "hc_maxInflight (reg_cfg reg) \<le> 0")
      case True
      from step_NoLimit [OF pc r True] show ?thesis by (auto simp: eprogress_def internal_def)
    next
      case False
      then have pos: "0 < hc_maxInflight (reg_cfg reg)" by simp
      obtain e sem where g: "get_semaphore (x_eng x) (unit_type ms) (hc_maxInflight (reg_cfg reg)) = (e, sem)" by force
      have lim: "type_limit (ec_registry (en_cfg (x_eng x))) (unit_type ms) = hc_maxInflight (reg_cfg reg)"
        using assms(3) pc r by (simp add: units_ok_def type_limit_def)
      have "sem_ok (ec_registry (en_cfg (x_eng x))) {#} (unit_type ms) (map_of (en_perType (x_eng x)) (unit_type ms))"
        using assms(2,4) unfolding tokens_ok_sems sems_ok_def by metis
      with g lim pos have "\<not> sem_full sem" by (cases rule: get_semaphore_cases) (auto simp: sem_full_def)
      from step_Type [OF pc r pos g this] show ?thesis by (auto simp: eprogress_def internal_def)
    qed
  qed
qed

text \<open>No reachable state is stuck: the engine can always go on unless it waits for the next poll or is done.\<close>

lemma engine_not_stuck:
  assumes "engine_inv cfg x"
  shows "(\<exists>x'. eprogress x x') \<or> x_tasks x = {#} \<and> (x_pc x = Drained \<or> x_pc x = Idle \<and> \<not> x_cancelled x)"
proof (cases "x_tasks x = {#}")
  case False
  then obtain t T where "x_tasks x = add_mset t T" by (meson multiset_cases)
  moreover have "0 < cap" if "en_succeedCh (x_eng x) = Some cap" for cap
  proof -
    have "en_succeedCh (newEngine cfg) = Some cap" using assms that by (simp add: engine_inv_def)
    then show ?thesis by (auto simp: newEngine_def batchSizeOrDefault_def Let_def split: if_splits)
  qed
  ultimately show ?thesis using task_progress assms by (metis engine_inv_def)
next
  case True
  have cap: "0 < sem_cap (en_pool (x_eng x))" using assms by (simp add: engine_inv_def newEngine_def Let_def)
  have infl: "x_inflight x = 0" using assms True by (simp add: engine_inv_def tokens_ok_def)
  have ok: "tokens_ok x" "units_ok x" "drain_ok x" using assms by (simp_all add: engine_inv_def)
  show ?thesis
  proof (cases "x_pc x")
    case Idle
    with step_Drain [OF Idle] True show ?thesis by (auto simp: eprogress_def internal_def)
  next
    case (AtPool ds)
    show ?thesis
    proof (cases ds)
      case Nil
      with step_Next AtPool show ?thesis by (auto simp: eprogress_def internal_def)
    next
      case (Cons d ds')
      with dispatch_progress [OF _ ok(1,2) True cap] AtPool show ?thesis by blast
    qed
  next
    case (AtType ds)
    then obtain d ds' where "ds = d # ds'" using ok(2) unfolding units_ok_def by (metis list.exhaust)
    with dispatch_progress [OF _ ok(1,2) True cap] AtType show ?thesis by blast
  next
    case Draining
    show ?thesis
    proof (cases "en_succeedCh (x_eng x) \<noteq> None \<longrightarrow> x_closed x \<and> \<not> x_flusher x")
      case True
      with step_Drained [OF Draining infl] show ?thesis by (auto simp: eprogress_def internal_def)
    next
      case False
      show ?thesis
      proof (cases "x_closed x")
        case c: True
        with False have fl: "x_flusher x" by blast
        show ?thesis
        proof (cases "x_ch x")
          case Nil
          obtain buf batch w os where "flusher_step (x_eng x) Closed (x_buf x) (x_world x) = (buf, batch, w, os)" by (metis prod_cases4)
          from step_FlushClose [OF fl c Nil this] show ?thesis by (auto simp: eprogress_def internal_def)
        next
          case (Cons p ps)
          obtain buf batch w os where "flusher_step (x_eng x) (Recv p) (x_buf x) (x_world x) = (buf, batch, w, os)" by (metis prod_cases4)
          from step_Recv [OF fl Cons this] show ?thesis by (auto simp: eprogress_def internal_def)
        qed
      next
        case c: False
        with False step_Close [OF Draining infl] show ?thesis by (auto simp: eprogress_def internal_def)
      qed
    qed
  qed (use True in simp)
qed

lemma cancelled_drains:
  assumes "ereach cfg x" "x_cancelled x"
  shows "\<exists>x'. eprogress\<^sup>*\<^sup>* x x' \<and> x_pc x' = Drained \<and> mset (x_done x') = mset (x_claimed x) \<and> ereach cfg x'"
  using assms
proof (induction "work x" arbitrary: x rule: less_induct)
  case less
  show ?case
  proof (cases "\<exists>x'. eprogress x x'")
    case True
    then obtain a y where y: "internal a" "estep x a y" by (auto simp: eprogress_def)
    note k = progress_keeps [OF y(2,1)]
    obtain x' where x': "eprogress\<^sup>*\<^sup>* y x'" "x_pc x' = Drained" "mset (x_done x') = mset (x_claimed y)" "ereach cfg x'"
      using less.hyps [OF work_decreases [OF y(2,1)] ereach_step [OF less.prems(1) y(2)]] k less.prems(2) by auto
    have "eprogress x y" using y by (auto simp: eprogress_def)
    with x' k show ?thesis by (metis converse_rtranclp_into_rtranclp)
  next
    case False
    with engine_not_stuck [OF ereach_inv [OF less.prems(1)]] less.prems(2) have "x_pc x = Drained" "x_tasks x = {#}" by auto
    moreover from this have "mset (x_done x) = mset (x_claimed x)"
      using ereach_inv [OF less.prems(1)] by (simp add: engine_inv_def msgs_ok_def)
    ultimately show ?thesis using less.prems(1) by blast
  qed
qed

section \<open>Properties\<close>

text \<open>
  C28. The concurrency limits hold in every reachable state: at most \<open>PoolSize\<close> handlers run, at
  most \<open>WithMaxInflight\<close> of a limited event type, the wait group counts exactly the running ones,
  and once \<open>succeedCh\<close> is closed no handler is left that could send on it.
\<close>

theorem engine_concurrency:
  assumes "ereach cfg x"
  shows "int (size (x_tasks x)) \<le> ec_poolSize (en_cfg (newEngine cfg)) \<and> x_inflight x = int (size (x_tasks x)) \<and>
    (\<forall>et reg. lookup (ec_registry cfg) et = Some reg \<longrightarrow> 0 < hc_maxInflight (reg_cfg reg) \<longrightarrow>
       int (size (filter_mset (\<lambda>t. tk_type t = et) (x_tasks x))) \<le> hc_maxInflight (reg_cfg reg)) \<and>
    (x_closed x \<longrightarrow> x_tasks x = {#})"
proof -
  note inv = ereach_inv [OF assms]
  have reg: "ec_registry (en_cfg (x_eng x)) = ec_registry cfg" using inv by (simp add: engine_inv_def newEngine_def Let_def)
  have ok: "tokens_ok x" "units_ok x" "drain_ok x" using inv by (simp_all add: engine_inv_def)
  have "int (size (filter_mset (\<lambda>t. tk_type t = et) (x_tasks x))) \<le> hc_maxInflight (reg_cfg rg)"
    if l: "lookup (ec_registry cfg) et = Some rg" "0 < hc_maxInflight (reg_cfg rg)" for et rg
  proof -
    have "filter_mset (\<lambda>t. tk_type t = et) (x_tasks x) = filter_mset (\<lambda>t. tk_perType t \<and> tk_type t = et) (x_tasks x)"
      using ok(2) l by (intro filter_mset_cong) (auto simp: units_ok_def reg)
    moreover have "sem_ok (ec_registry cfg) (x_tasks x) et (map_of (en_perType (x_eng x)) et)"
      using ok(1) unfolding tokens_ok_sems sems_ok_def reg by metis
    then have "type_count et (x_tasks x) \<le> hc_maxInflight (reg_cfg rg)"
      using l by (cases "map_of (en_perType (x_eng x)) et") (auto simp: type_limit_def)
    ultimately show ?thesis by (simp only: type_count_def)
  qed
  moreover have "int (size (x_tasks x)) \<le> ec_poolSize (en_cfg (newEngine cfg))"
    using inv ok(1) by (cases "x_pc x") (auto simp: engine_inv_def tokens_ok_def)
  ultimately show ?thesis using ok by (auto simp: tokens_ok_def drain_ok_def drain_cond_def)
qed


text \<open>
  C27. The engine's own work terminates: there is no infinite run of dispatching, invoking,
  committing, flushing and draining steps, under any scheduling of the goroutines; only new polls
  bring new work.
\<close>

theorem engine_work_terminates: "wf {(x', x). eprogress x x'}"
  by (rule wf_subset [OF wf_measure [of work]]) (auto simp: eprogress_def work_decreases)


section \<open>A sample run\<close>

definition sample_config :: "nat world engineConfig" where
  "sample_config = \<lparr>ec_storage = pg_storage sample_store, ec_registry = sample_registry, ec_workerID = ''w1'',
     ec_pollInterval = 0, ec_pollMaxBackoff = 0, ec_batchSize = 0, ec_poolSize = 0, ec_lease = 0, ec_shutdownGrace = 0,
     ec_hooks = sample_hooks\<rparr>"

lemma sample_config_newEngine: "newEngine sample_config = sample_engine"
  by (simp add: sample_config_def sample_engine_def)

text \<open>The state after the first poll, which claims the one message of the sample database.\<close>

definition sample_polled :: "nat world estate" where
  "sample_polled = (case pollOnce sample_engine (\<lambda>xs. xs) (\<lambda>gs. gs) 1 sample_sent of (w, ms, ds, os) \<Rightarrow>
     (engine_init sample_config sample_sent)\<lparr>x_world := w, x_pc := AtPool ds, x_claimed := ms\<rparr>)"

lemma sample_polled_reach: "ereach sample_config sample_polled"
  using ereach_step [OF ereach_init step_Poll [where ordG = "\<lambda>gs. gs" and ordT = "\<lambda>xs. xs" and took = 1
        and x = "engine_init sample_config sample_sent"], OF _ refl]
  by (simp add: sample_polled_def engine_init_def sample_config_newEngine split: prod.splits)

lemma sample_polled_claimed: "x_claimed sample_polled = [sample_inbound]"
proof -
  let ?p = "\<lparr>cp_WorkerID = ''w1'', cp_Batch = 100, cp_Lease = 30 * Second, cp_EventTypes = [''order'', ''mail'']\<rparr>"
  have "snd (pg_Claim sample_store (sample_env 7 2) ?p (w_db sample_sent)) = ([sample_inbound], None)"
    by (simp add: sample_send(2) sample_defs claim_defs sample_row_def pickShard_def sample_inbound_def sample_env_def
        numClaimShards_def go_div_def duration_units scanMessage_def parsed_def List.map_filter_simps)
  then obtain db where "pg_Claim sample_store (sample_env 7 2) ?p (w_db sample_sent) = (db, [sample_inbound], None)"
    by (metis prod.collapse)
  then show ?thesis
    by (simp add: sample_polled_def pollOnce_def EventTypes_def sample_send sample_engine_def sample_registry_def claim_params_def
        newEngine_def Let_def batchSizeOrDefault_def leaseOrDefault_def pg_storage_def call_def now_env_def)
qed

lemma sample_cancelled_reach: "ereach sample_config (sample_polled\<lparr>x_cancelled := True\<rparr>)"
  by (rule ereach_step [OF sample_polled_reach step_Cancel])

theorem engine_concurrency_witness:
  "int (size (x_tasks sample_polled)) \<le> 32"
  using engine_concurrency [OF sample_polled_reach] by (simp add: sample_config_def newEngine_def)



end
