(* ===== verification/Worker_Spec.thy ===== *)
theory Worker_Spec
  imports Worker Engine_Machine
begin

text \<open>
  The worker's background loops over PostgreSQL. What the janitor needs of a purge is a
  contract, \<open>purger\<close>, from which its loop is proved to return and to delete exactly the old
  rows; \<open>PurgeTerminal\<close> and \<open>PurgeHistory\<close> are shown to keep it. Further: the leader lock
  keeps the loops of other workers away from the database, and a reclaimer tick makes the
  messages of a dead worker claimable again.
\<close>

section \<open>The contract of a purge\<close>

text \<open>
  A purge with a cut-off deletes only rows older than it, and a call without error deletes as
  many of them as the batch allows and returns their number.
\<close>

locale purger =
  fixes purge :: "time \<Rightarrow> int \<Rightarrow> 'w \<Rightarrow> 'w \<times> int \<times> goerr option"
    and rows :: "'w \<Rightarrow> 'r list" and old :: "time \<Rightarrow> 'r \<Rightarrow> bool" and rest :: "'w \<Rightarrow> 'x"
    and keeps :: "'w \<Rightarrow> bool"
  assumes purge_keeps: "keeps w \<Longrightarrow> keeps (fst (purge t b w))"
    and purge_rest: "keeps w \<Longrightarrow> rest (fst (purge t b w)) = rest w"
    and purge_rows: "keeps w \<Longrightarrow> purge t b w = (w', n, err) \<Longrightarrow> 0 < b \<Longrightarrow>
      \<exists>p. rows w' = sql_delete p (rows w) \<and> (\<forall>r\<in>set (rows w). p r \<longrightarrow> old t r) \<and>
        (err = None \<longrightarrow> sql_count p (rows w) = n \<and> n = min b (sql_count (old t) (rows w)))"
begin

lemma purge_full:
  assumes "keeps w" "purge t b w = (w', n, None)" "0 < b" "b \<le> n"
  shows "length (rows w') < length (rows w)"
proof -
  obtain p where p: "rows w' = sql_delete p (rows w)" "sql_count p (rows w) = n" using purge_rows [OF assms(1-3)] by blast
  then have "filter p (rows w) \<noteq> []" using assms(3,4) by (auto simp: sql_count_def)
  then have "\<exists>r\<in>set (rows w). p r" by (simp add: filter_empty_conv)
  then show ?thesis unfolding p(1) sql_delete_def by (auto intro: length_filter_less)
qed

lemma purge_short:
  assumes "keeps w" "purge t b w = (w', n, None)" "0 < b" "n < b"
  shows "\<forall>r\<in>set (rows w'). \<not> old t r"
proof -
  obtain p where p: "rows w' = sql_delete p (rows w)" "\<forall>r\<in>set (rows w). p r \<longrightarrow> old t r"
    "sql_count p (rows w) = sql_count (old t) (rows w)"
    using purge_rows [OF assms(1-3)] assms(4) by (auto simp: min_def split: if_splits)
  have "p r" if "r \<in> set (rows w)" "old t r" for r by (rule sql_count_full [OF p(3,2) that])
  then show ?thesis unfolding p(1) sql_delete_def by auto
qed

text \<open>The loop returns. It deletes only old rows, and all of them unless an error or the context ends it.\<close>

lemma loop_returns:
  assumes "keeps w" "0 < b"
  shows "\<exists>w' err ended p. purge_loop (purge t b) b quit k w = Some (w', err, ended) \<and> keeps w' \<and> rest w' = rest w \<and>
    rows w' = sql_delete p (rows w) \<and> (\<forall>r\<in>set (rows w). p r \<longrightarrow> old t r) \<and>
    (err = None \<longrightarrow> \<not> ended \<longrightarrow> (\<forall>r\<in>set (rows w'). \<not> old t r)) \<and> (ended \<longrightarrow> (\<exists>j. quit j))"
  using assms(1)
proof (induction "length (rows w)" arbitrary: w k rule: less_induct)
  case less
  obtain w1 n err where c: "purge t b w = (w1, n, err)" by (metis prod_cases3)
  have k1: "keeps w1" "rest w1 = rest w" using purge_keeps [OF less.prems, of t b] purge_rest [OF less.prems, of t b] c by simp_all
  obtain p where p: "rows w1 = sql_delete p (rows w)" "\<forall>r\<in>set (rows w). p r \<longrightarrow> old t r"
    using purge_rows [OF less.prems c assms(2)] by blast
  show ?case
  proof (cases "err = None \<and> b \<le> n \<and> \<not> quit k")
    case False
    then have "purge_loop (purge t b) b quit k w = Some (w1, err, err = None \<and> \<not> n < b)" "err = None \<and> \<not> n < b \<longrightarrow> quit k"
      by (subst purge_loop.simps, cases err, auto simp: c)
    moreover have "err = None \<longrightarrow> n < b \<longrightarrow> (\<forall>r\<in>set (rows w1). \<not> old t r)"
      using purge_short [OF less.prems _ assms(2), of t w1 n] c by blast
    ultimately show ?thesis
      using k1 p by (intro exI [of _ w1] exI [of _ err] exI [of _ "err = None \<and> \<not> n < b"] exI [of _ p]) blast
  next
    case True
    with c have c': "purge t b w = (w1, n, None)" by simp
    obtain w' err' ended q where ih: "purge_loop (purge t b) b quit (Suc k) w1 = Some (w', err', ended)" "keeps w'" "rest w' = rest w1"
      "rows w' = sql_delete q (rows w1)" "\<forall>r\<in>set (rows w1). q r \<longrightarrow> old t r"
      "err' = None \<longrightarrow> \<not> ended \<longrightarrow> (\<forall>r\<in>set (rows w'). \<not> old t r)" "ended \<longrightarrow> (\<exists>j. quit j)"
      using less.hyps [OF purge_full [OF less.prems c' assms(2)] k1(1)] True by blast
    have "purge_loop (purge t b) b quit k w = Some (w', err', ended)"
      using ih(1) True by (subst purge_loop.simps) (simp add: c')
    moreover have "rows w' = sql_delete (\<lambda>r. p r \<or> q r) (rows w)"
      unfolding ih(4) p(1) by (simp add: sql_delete_def)
    moreover have "\<forall>r\<in>set (rows w). p r \<or> q r \<longrightarrow> old t r" using p ih(5) by (auto simp: sql_delete_def)
    ultimately show ?thesis
      using ih(2,3,6,7) k1(2) by (intro exI [of _ w'] exI [of _ err'] exI [of _ ended] exI [of _ "\<lambda>r. p r \<or> q r"]) simp
  qed
qed

lemma loop_exact:
  assumes "keeps w" "0 < b" "\<forall>j. \<not> quit j" "purge_loop (purge t b) b quit k w = Some (w', None, ended)"
  shows "rows w' = sql_delete (old t) (rows w) \<and> rest w' = rest w \<and> keeps w' \<and> \<not> ended"
proof -
  obtain p where p: "rows w' = sql_delete p (rows w)" "\<forall>r\<in>set (rows w). p r \<longrightarrow> old t r" "\<not> ended" "keeps w'" "rest w' = rest w"
    "\<not> ended \<longrightarrow> (\<forall>r\<in>set (rows w'). \<not> old t r)"
    using loop_returns [OF assms(1,2), of t quit k] assms(3) unfolding assms(4) by blast
  then have "\<forall>r\<in>set (sql_delete p (rows w)). \<not> old t r" by simp
  with p(2) have "sql_delete p (rows w) = sql_delete (old t) (rows w)"
    unfolding sql_delete_def by (intro filter_cong) auto
  with p(1,3-5) show ?thesis by simp
qed

end

section \<open>PostgreSQL keeps it\<close>

lemma call_db:
  assumes "call f w = (w', x, err)"
  shows "f (now_env w) (w_db w) = (w_db w', x, err)"
  using assms by (auto simp: call_eq prod_eq_iff)

lemma pg_purge_sel:
  "st_PurgeTerminal (pg_storage s) t b = call (\<lambda>e. pg_PurgeTerminal e t b)"
  "st_PurgeHistory (pg_storage s) = Some (\<lambda>t b. call (\<lambda>e. pg_PurgeHistory e t b))"
  by (simp_all add: pg_storage_def)

lemma pg_terminal_rows:
  fixes w :: "('i::linorder) world"
  assumes "world_ok s w" "st_PurgeTerminal (pg_storage s) t b w = (w', n, err)" "0 < b"
  shows "\<exists>p. messages (w_db w') = sql_delete p (messages (w_db w)) \<and> (\<forall>r\<in>set (messages (w_db w)). p r \<longrightarrow> purge_match t r) \<and>
    (err = None \<longrightarrow> sql_count p (messages (w_db w)) = n \<and> n = min b (sql_count (purge_match t) (messages (w_db w))))"
proof -
  have b: "(if b \<le> 0 then 5000 else b) = b" using assms(3) by simp
  show ?thesis
    using pg_PurgeTerminal_effect [OF db_ok_distinct [OF world_okD(1) [OF assms(1)]] call_db [OF assms(2) [unfolded pg_purge_sel]]]
    unfolding b by blast
qed

lemma pg_history_rows:
  fixes w :: "('i::linorder) world"
  assumes "world_ok s w" "the (st_PurgeHistory (pg_storage s)) t b w = (w', n, err)" "0 < b"
  shows "\<exists>p. history (w_db w') = sql_delete p (history (w_db w)) \<and> (\<forall>h\<in>set (history (w_db w)). p h \<longrightarrow> h_at h < t) \<and>
    (err = None \<longrightarrow> sql_count p (history (w_db w)) = n \<and> n = min b (sql_count (\<lambda>h. h_at h < t) (history (w_db w))))"
proof -
  have "(if b \<le> 0 then 5000 else b) = b" using assms(3) by simp
  moreover have "hist_ok (history (w_db w))" using world_okD(1) [OF assms(1)] by (simp add: db_ok_def)
  ultimately show ?thesis
    using pg_PurgeHistory_effect [OF _ call_db [OF assms(2) [unfolded pg_purge_sel option.sel]]] by fastforce
qed

lemma pg_purge_keeps:
  fixes w :: "('i::linorder) world"
  assumes "world_ok s w"
  shows "world_ok s (fst (st_PurgeTerminal (pg_storage s) t b w))" "world_ok s (fst (the (st_PurgeHistory (pg_storage s)) t b w))"
  unfolding pg_purge_sel option.sel
  by (rule world_ok_call [OF assms], rule pg_PurgeTerminal_db_ok pg_PurgeHistory_db_ok, rule world_okD(1) [OF assms])+

lemma pg_purge_rest:
  fixes w :: "('i::linorder) world"
  shows "history (w_db (fst (st_PurgeTerminal (pg_storage s) t b w))) = history (w_db w)"
    "messages (w_db (fst (the (st_PurgeHistory (pg_storage s)) t b w))) = messages (w_db w)"
  unfolding pg_purge_sel option.sel call_eq
  by (auto simp: pg_PurgeTerminal_def pg_PurgeHistory_def purgeSQL_def purgeHistorySQL_def run_stmt_def Let_def split: option.splits)

interpretation pg_terminal: purger "st_PurgeTerminal (pg_storage s)" "\<lambda>w. messages (w_db w)" purge_match
  "\<lambda>w. history (w_db w)" "world_ok s" for s
  by unfold_locales (rule pg_purge_keeps pg_purge_rest pg_terminal_rows; assumption)+

interpretation pg_history: purger "the (st_PurgeHistory (pg_storage s))" "\<lambda>w. history (w_db w)" "\<lambda>t h. h_at h < t"
  "\<lambda>w. messages (w_db w)" "world_ok s" for s
  by unfold_locales (rule pg_purge_keeps pg_purge_rest pg_history_rows; assumption)+

section \<open>The janitor\<close>

lemma purge_batch_pos [simp]: "0 < purge_batch rp"
  by (simp add: purge_batch_def)

definition pg_worker :: "Store \<Rightarrow> ('i::linorder) world Worker \<Rightarrow> bool" where
  "pg_worker s wk \<longleftrightarrow> wk_storage wk = pg_storage s"

text \<open>The cut-off of the terminal messages that one pass deletes.\<close>

definition janitor_cutoff :: "RetentionPolicy \<Rightarrow> (nat \<Rightarrow> time) \<Rightarrow> time" where
  "janitor_cutoff rp nows =
     (case dead_age rp of None \<Rightarrow> nows 0 - success_age rp
      | Some d \<Rightarrow> max (nows 0 - success_age rp) (nows 1 - d))"

lemma purge_match_max: "purge_match (max a b) r \<longleftrightarrow> purge_match a r \<or> purge_match b r"
  by (auto simp: purge_match_def split: option.splits)

lemma phase_returns:
  fixes w :: "('i::linorder) world"
  assumes "pg_worker s wk" "world_ok s w"
  shows "\<exists>w' ended os p. purge_phase wk t quit w = Some (w', ended, os) \<and> world_ok s w' \<and>
    messages (w_db w') = sql_delete p (messages (w_db w)) \<and> (\<forall>r\<in>set (messages (w_db w)). p r \<longrightarrow> purge_match t r)"
  using pg_terminal.loop_returns [OF assms(2) purge_batch_pos [of "wc_Retention (wk_cfg wk)"], of t quit 0] assms(1)
  unfolding purge_phase_def pg_worker_def by (elim exE conjE) (simp only: option.map prod.case, blast)

lemma phase_exact:
  fixes w :: "('i::linorder) world"
  assumes "pg_worker s wk" "world_ok s w" "hk_alerter (wk_hooks wk) = ConfiguredHook" "\<forall>j. \<not> quit j"
    and "purge_phase wk t quit w = Some (w', ended, [])"
  shows "messages (w_db w') = sql_delete (purge_match t) (messages (w_db w)) \<and> history (w_db w') = history (w_db w) \<and>
    world_ok s w' \<and> \<not> ended"
proof -
  obtain err where "purge_loop (st_PurgeTerminal (pg_storage s) t (purge_batch (wc_Retention (wk_cfg wk))))
      (purge_batch (wc_Retention (wk_cfg wk))) quit 0 w = Some (w', err, ended)" "janitor_alert wk err = []"
    using assms(1,5) by (auto simp: purge_phase_def pg_worker_def)
  moreover from this(2) have "err = None" using assms(3) by (cases err) (simp_all add: janitor_alert_def fireAlert_def)
  ultimately show ?thesis using pg_terminal.loop_exact [OF assms(2) purge_batch_pos assms(4)] by blast
qed

lemma sql_delete_twice: "sql_delete q (sql_delete p rows) = sql_delete (\<lambda>r. p r \<or> q r) rows"
  by (simp add: sql_delete_def)

lemma history_returns:
  fixes w :: "('i::linorder) world"
  assumes "pg_worker s wk" "world_ok s w"
  shows "\<exists>w' os. purgeHistory wk now quit w = Some (w', os) \<and> world_ok s w' \<and> messages (w_db w') = messages (w_db w)"
proof (cases "history_age (wc_Retention (wk_cfg wk))")
  case (Some age)
  obtain w' err ended where "purge_loop (the (st_PurgeHistory (pg_storage s)) (now - age) (purge_batch (wc_Retention (wk_cfg wk))))
      (purge_batch (wc_Retention (wk_cfg wk))) quit 0 w = Some (w', err, ended)" "world_ok s w'" "messages (w_db w') = messages (w_db w)"
    using pg_history.loop_returns [OF assms(2) purge_batch_pos [of "wc_Retention (wk_cfg wk)"], of "now - age" quit 0] by blast
  then show ?thesis using assms(1) Some by (simp add: purgeHistory_def pg_worker_def pg_purge_sel)
qed (use assms(2) in \<open>simp add: purgeHistory_def\<close>)

lemma history_exact:
  fixes w :: "('i::linorder) world"
  assumes "pg_worker s wk" "world_ok s w" "hk_alerter (wk_hooks wk) = ConfiguredHook" "\<forall>j. \<not> quit j"
    and "purgeHistory wk now quit w = Some (w', [])"
  shows "history (w_db w') = (case history_age (wc_Retention (wk_cfg wk)) of None \<Rightarrow> history (w_db w)
      | Some age \<Rightarrow> sql_delete (\<lambda>h. h_at h < now - age) (history (w_db w))) \<and> messages (w_db w') = messages (w_db w)"
proof (cases "history_age (wc_Retention (wk_cfg wk))")
  case (Some age)
  then obtain err ended where "purge_loop (the (st_PurgeHistory (pg_storage s)) (now - age) (purge_batch (wc_Retention (wk_cfg wk))))
      (purge_batch (wc_Retention (wk_cfg wk))) quit 0 w = Some (w', err, ended)" "janitor_alert wk err = []"
    using assms(1,5) by (auto simp: purgeHistory_def pg_worker_def pg_purge_sel)
  moreover from this(2) have "err = None" using assms(3) by (cases err) (simp_all add: janitor_alert_def fireAlert_def)
  ultimately show ?thesis using pg_history.loop_exact [OF assms(2) purge_batch_pos assms(4)] Some by fastforce
qed (use assms(5) in \<open>simp add: purgeHistory_def\<close>)

lemma dead_returns:
  fixes w :: "('i::linorder) world"
  assumes "pg_worker s wk" "world_ok s w"
  shows "\<exists>w' ended os p. purge_dead wk now quit w = Some (w', ended, os) \<and> world_ok s w' \<and>
    messages (w_db w') = sql_delete p (messages (w_db w)) \<and>
    (\<forall>r\<in>set (messages (w_db w)). p r \<longrightarrow> (\<exists>d. dead_age (wc_Retention (wk_cfg wk)) = Some d \<and> purge_match (now - d) r))"
proof (cases "dead_age (wc_Retention (wk_cfg wk))")
  case None
  then show ?thesis using assms(2) by (intro exI [of _ w] exI [of _ False] exI [of _ "[]"] exI [of _ "\<lambda>_. False"]) (simp add: purge_dead_def sql_delete_def)
next
  case (Some d)
  then show ?thesis using phase_returns [OF assms, of "now - d" quit] by (simp add: purge_dead_def)
qed

lemma body_returns:
  fixes w :: "('i::linorder) world"
  assumes "pg_worker s wk" "world_ok s w"
  shows "\<exists>w' os p. purge_body wk nows quit w = Some (w', os) \<and> world_ok s w' \<and>
    messages (w_db w') = sql_delete p (messages (w_db w)) \<and>
    (\<forall>r\<in>set (messages (w_db w)). p r \<longrightarrow> purge_match (janitor_cutoff (wc_Retention (wk_cfg wk)) nows) r)"
proof -
  let ?rp = "wc_Retention (wk_cfg wk)"
  obtain w1 ended1 os1 p where 1: "purge_phase wk (nows 0 - success_age ?rp) (quit 0) w = Some (w1, ended1, os1)" "world_ok s w1"
    "messages (w_db w1) = sql_delete p (messages (w_db w))"
    "\<forall>r\<in>set (messages (w_db w)). p r \<longrightarrow> purge_match (nows 0 - success_age ?rp) r"
    using phase_returns [OF assms] by blast
  obtain w2 ended2 os2 q where 2: "purge_dead wk (nows 1) (quit 1) w1 = Some (w2, ended2, os2)" "world_ok s w2"
    "messages (w_db w2) = sql_delete q (messages (w_db w1))"
    "\<forall>r\<in>set (messages (w_db w1)). q r \<longrightarrow> (\<exists>d. dead_age ?rp = Some d \<and> purge_match (nows 1 - d) r)"
    using dead_returns [OF assms(1) 1(2)] by blast
  obtain w3 os3 where 3: "purgeHistory wk (nows 2) (quit 2) w2 = Some (w3, os3)" "world_ok s w3" "messages (w_db w3) = messages (w_db w2)"
    using history_returns [OF assms(1) 2(2)] by blast
  have p: "\<forall>r\<in>set (messages (w_db w)). p r \<longrightarrow> purge_match (janitor_cutoff ?rp nows) r"
    using 1(4) by (auto simp: janitor_cutoff_def purge_match_max split: option.splits)
  have m2: "messages (w_db w2) = sql_delete (\<lambda>r. p r \<or> q r) (messages (w_db w))" by (simp only: 1(3) 2(3) sql_delete_twice)
  have pq: "\<forall>r\<in>set (messages (w_db w)). p r \<or> q r \<longrightarrow> purge_match (janitor_cutoff ?rp nows) r"
    using 2(4) p unfolding 1(3) by (auto simp: janitor_cutoff_def purge_match_max sql_delete_def)
  consider "ended1" | "\<not> ended1" "ended2" | "\<not> ended1" "\<not> ended2" by blast
  then show ?thesis
  proof cases
    case 1
    then show ?thesis using \<open>purge_phase _ _ _ _ = _\<close> \<open>world_ok s w1\<close> \<open>messages (w_db w1) = _\<close> p
      by (simp add: purge_body_def) blast
  next
    case 2
    then show ?thesis using \<open>purge_phase _ _ _ _ = _\<close> \<open>purge_dead _ _ _ _ = _\<close> \<open>world_ok s w2\<close> m2 pq
      by (simp add: purge_body_def) blast
  next
    case 3
    then show ?thesis using \<open>purge_phase _ _ _ _ = _\<close> \<open>purge_dead _ _ _ _ = _\<close> \<open>purgeHistory _ _ _ _ = _\<close> \<open>world_ok s w3\<close>
        \<open>messages (w_db w3) = _\<close> m2 pq by (simp add: purge_body_def) blast
  qed
qed

lemma body_exact:
  fixes w :: "('i::linorder) world"
  assumes "pg_worker s wk" "world_ok s w" "hk_alerter (wk_hooks wk) = ConfiguredHook" "\<forall>i j. \<not> quit i j"
    and "purge_body wk nows quit w = Some (w', [])"
  shows "messages (w_db w') = sql_delete (purge_match (janitor_cutoff (wc_Retention (wk_cfg wk)) nows)) (messages (w_db w)) \<and>
    history (w_db w') = (case history_age (wc_Retention (wk_cfg wk)) of None \<Rightarrow> history (w_db w)
      | Some age \<Rightarrow> sql_delete (\<lambda>h. h_at h < nows 2 - age) (history (w_db w)))"
proof -
  let ?rp = "wc_Retention (wk_cfg wk)"
  obtain w1 ended1 os1 where 1: "purge_phase wk (nows 0 - success_age ?rp) (quit 0) w = Some (w1, ended1, os1)"
    using phase_returns [OF assms(1,2)] by blast
  have "os1 = []" using assms(5) 1 by (auto simp: purge_body_def bind_eq_Some_conv split: if_splits)
  note e1 = phase_exact [OF assms(1-3) spec [OF assms(4)] 1 [unfolded this]]
  obtain w2 ended2 os2 where 2: "purge_dead wk (nows 1) (quit 1) w1 = Some (w2, ended2, os2)"
    using dead_returns [OF assms(1)] e1 by blast
  have "os2 = []" using assms(5) 1 2 e1 by (auto simp: purge_body_def split: if_splits)
  with 2 have e2: "messages (w_db w2) = sql_delete (purge_match (janitor_cutoff ?rp nows)) (messages (w_db w)) \<and>
      history (w_db w2) = history (w_db w) \<and> world_ok s w2 \<and> \<not> ended2"
    using e1 phase_exact [OF assms(1) _ assms(3) spec [OF assms(4)], of w1 _ 1 w2 ended2]
    by (auto simp: purge_dead_def janitor_cutoff_def purge_match_max [abs_def] sql_delete_twice split: option.splits)
  have "purgeHistory wk (nows 2) (quit 2) w2 = Some (w', [])"
    using assms(5) 1 2 e1 e2 \<open>os1 = []\<close> \<open>os2 = []\<close> by (auto simp: purge_body_def)
  then show ?thesis using history_exact [OF assms(1) _ assms(3) spec [OF assms(4)]] e2 by metis
qed

section \<open>Leadership\<close>

lemma lock_call_db:
  assumes "lock_call key w = (w1, x)"
  shows "w_db w1 = w_db w" "world_ok s w \<Longrightarrow> world_ok s w1"
  using assms by (auto simp: lock_call_def world_ok_def split: prod.splits)

lemma unlock_call_db: "w_db (unlock_call key w) = w_db w" "world_ok s w \<Longrightarrow> world_ok s (unlock_call key w)"
  by (simp_all add: unlock_call_def world_ok_def split: option.splits)

lemma pg_lock_sel: "st_TryLeaderLock (pg_storage s) = lock_call" "st_unlock (pg_storage s) = unlock_call"
  by (simp_all add: pg_storage_def)

text \<open>The body runs on the world after the lock was taken, or the database stays as it was.\<close>

lemma as_leader_cases:
  assumes "pg_worker s wk" "as_leader wk key report body w = res"
  obtains (idle) w1 os where "res = Some (w1, os)" "w_db w1 = w_db w" "world_ok s w \<Longrightarrow> world_ok s w1" "w1 = fst (lock_call key w)"
      "snd (lock_call key w) \<noteq> (True, None)"
  | (lead) w1 where "lock_call key w = (w1, True, None)"
      "res = map_option (\<lambda>(w2, os). (unlock_call key w2, os)) (body w1)" "w_db w1 = w_db w" "world_ok s w \<Longrightarrow> world_ok s w1"
proof -
  obtain w1 acquired err where l: "lock_call key w = (w1, acquired, err)" by (metis prod_cases3)
  note d = lock_call_db [OF l]
  show ?thesis
  proof (cases "err = None \<and> acquired")
    case True
    with l assms show ?thesis by (intro lead [of w1]) (auto simp: as_leader_def pg_worker_def pg_lock_sel d)
  next
    case False
    with l assms show ?thesis by (intro idle [of w1 "case err of None \<Rightarrow> [] | Some er \<Rightarrow> report er"]) (auto simp: as_leader_def pg_worker_def pg_lock_sel d split: option.splits)
  qed
qed

lemma held_lock_refused:
  assumes "locks_ok (w_locks w)" "pg_owns (w_locks w) key other" "w_conn w (w_calls w) \<noteq> Inr other"
  shows "snd (lock_call key w) \<noteq> (True, None)" "pg_owns (w_locks (fst (lock_call key w))) key other"
proof -
  obtain locks' ok err where l: "pg_TryLeaderLock (w_conn w (w_calls w)) (env_reply (now_env w) 0) key (w_locks w) = (locks', ok, err)"
    by (metis prod_cases3)
  have "\<not> ok \<and> pg_owns locks' key other"
  proof (cases "w_conn w (w_calls w)")
    case (Inl er)
    with l assms(2) show ?thesis by (auto simp: pg_TryLeaderLock_def)
  next
    case (Inr sess)
    with assms(3) have "other \<noteq> sess" by simp
    with pg_leader.exclusive [OF assms(1,2), of sess "env_reply (now_env w) 0"]
      pg_leader.acquire_keeps [OF assms(1,2), of sess "env_reply (now_env w) 0" key] l Inr show ?thesis by simp
  qed
  with l show "snd (lock_call key w) \<noteq> (True, None)" "pg_owns (w_locks (fst (lock_call key w))) key other"
    by (simp_all add: lock_call_def)
qed

lemma not_leader:
  assumes "pg_worker s wk" "locks_ok (w_locks w)" "pg_owns (w_locks w) key other" "w_conn w (w_calls w) \<noteq> Inr other"
  shows "\<exists>w' os. as_leader wk key report body w = Some (w', os) \<and> w_db w' = w_db w \<and> pg_owns (w_locks w') key other"
  using held_lock_refused [OF assms(2-4)]
  by (cases rule: as_leader_cases [OF assms(1) refl, of key report body w]) auto

section \<open>Reclaimer\<close>

lemma reclaim_body_ok:
  fixes w :: "('i::linorder) world"
  assumes "pg_worker s wk" "hk_alerter (wk_hooks wk) = ConfiguredHook" "reclaim_body wk w = (w', os)" "\<forall>ev. OnError ev \<notin> set os"
  shows "\<exists>n. pg_ReclaimExpired (now_env w) 500 (w_db w) = (w_db w', n, None) \<and> os = (if n > 0 then metric (wk_hooks wk) (LeaseReclaimed '''' n) else [])"
proof -
  obtain w1 n err where c: "st_ReclaimExpired (pg_storage s) 500 w = (w1, n, err)" by (metis prod_cases3)
  with assms have "err = None" "w1 = w'" "os = (if n > 0 then metric (wk_hooks wk) (LeaseReclaimed '''' n) else [])"
    by (auto simp: reclaim_body_def pg_worker_def fireAlert_def split: option.splits)
  moreover have "pg_ReclaimExpired (now_env w) 500 (w_db w) = (w_db w1, n, err)"
    using c by (intro call_db) (simp add: pg_storage_def)
  ultimately show ?thesis by simp
qed

lemma pass_exact:
  fixes w :: "('i::linorder) world"
  assumes "wk_storage wk = pg_storage s" "world_ok s w" "hk_alerter (wk_hooks wk) = ConfiguredHook" "\<forall>i j. \<not> quit i j"
    and "snd (lock_call ''tickr.janitor'' w) = (True, None)" "tryPurge wk nows quit w = Some (w', [])"
  shows "messages (w_db w') = sql_delete (purge_match (janitor_cutoff (wc_Retention (wk_cfg wk)) nows)) (messages (w_db w)) \<and>
    history (w_db w') = (case history_age (wc_Retention (wk_cfg wk)) of None \<Rightarrow> history (w_db w)
      | Some age \<Rightarrow> sql_delete (\<lambda>h. h_at h < nows 2 - age) (history (w_db w)))"
proof -
  note pg = assms(1) [folded pg_worker_def]
  from pg assms(6) [unfolded tryPurge_def] show ?thesis
  proof (cases rule: as_leader_cases)
    case (lead w1)
    then obtain w2 where "purge_body wk nows quit w1 = Some (w2, [])" "w' = unlock_call ''tickr.janitor'' w2"
      by (cases "purge_body wk nows quit w1") auto
    with body_exact [OF pg lead(4) [OF assms(2)] assms(3,4)] show ?thesis unfolding lead(3) by (simp only: unlock_call_db)
  qed (use assms(5) in simp)
qed

text \<open>The retention of DEAD messages has no effect when it is longer than that of SUCCESS, or negative for ever.\<close>

lemma dead_retention_ignored:
  fixes w :: "('i::linorder) world"
  assumes "wk_storage wk = pg_storage s" "world_ok s w" "hk_alerter (wk_hooks wk) = ConfiguredHook" "\<forall>i j. \<not> quit i j"
    and "snd (lock_call ''tickr.janitor'' w) = (True, None)" "tryPurge wk nows quit w = Some (w', [])"
    and "r \<in> set (messages (w_db w))" "m_status r = StatusDead" "m_completed_at r = Some t" "t < nows 0 - success_age (wc_Retention (wk_cfg wk))"
  shows "r \<notin> set (messages (w_db w'))"
proof -
  have "purge_match (janitor_cutoff (wc_Retention (wk_cfg wk)) nows) r"
    using assms(8-10) by (auto simp: purge_match_def janitor_cutoff_def split: option.splits)
  then show ?thesis using pass_exact [OF assms(1-6)] by (auto simp: sql_delete_def)
qed

text \<open>A worker that is stopped before it is started cannot be stopped any more.\<close>

lemma stop_before_start_lost:
  "\<not> wk_started wk \<Longrightarrow> \<exists>wk' ls n. begin_Start listen (worker_Stop wk) = Inr (wk', ls, n) \<and> wk_cancel (worker_Stop wk') = Some False"
  by (simp add: begin_Start_def worker_Stop_def)

section \<open>Properties\<close>

text \<open>
  C36. The janitor returns: one pass over PostgreSQL ends for every database, batch size,
  sequence of failures and time of cancellation, keeps the invariant of the database, and
  deletes no message that is not terminal and past the cut-off.
\<close>

theorem janitor_returns:
  fixes w :: "('i::linorder) world"
  assumes "wk_storage wk = pg_storage s" "world_ok s w"
  shows "\<exists>w' os p. tryPurge wk nows quit w = Some (w', os) \<and> world_ok s w' \<and>
    messages (w_db w') = sql_delete p (messages (w_db w)) \<and>
    (\<forall>r\<in>set (messages (w_db w)). p r \<longrightarrow> purge_match (janitor_cutoff (wc_Retention (wk_cfg wk)) nows) r)"
proof -
  note pg = assms(1) [folded pg_worker_def]
  from pg refl [of "tryPurge wk nows quit w", unfolded tryPurge_def] show ?thesis
  proof (cases rule: as_leader_cases)
    case (idle w1 os)
    then show ?thesis using assms(2)
      by (intro exI [of _ w1] exI [of _ os] exI [of _ "\<lambda>_. False"]) (simp add: tryPurge_def sql_delete_def)
  next
    case (lead w1)
    then show ?thesis
      using body_returns [OF pg lead(4) [OF assms(2)], of nows quit] by (fastforce simp: tryPurge_def unlock_call_db)
  qed
qed


text \<open>
  C40. The background loops of at most one worker touch the database: while another session
  holds the lock of a loop, a tick of that loop ends at once, changes nothing in the database
  and leaves the lock with its holder.
\<close>

theorem leader_exclusive:
  fixes w :: "('i::linorder) world"
  assumes "wk_storage wk = pg_storage s" "locks_ok (w_locks w)" "w_conn w (w_calls w) \<noteq> Inr other"
    and "(key, tick) \<in> {(''tickr.reclaimer'', tryReclaim wk), (''tickr.janitor'', tryPurge wk nows quit), (''tickr.stats'', sampleStats wk ord)}"
    and "pg_owns (w_locks w) key other"
  shows "\<exists>w' os. tick w = Some (w', os) \<and> w_db w' = w_db w \<and> pg_owns (w_locks w') key other"
  using assms(4) not_leader [OF assms(1) [folded pg_worker_def] assms(2,5,3)]
  by (auto simp: tryReclaim_def tryPurge_def sampleStats_def)


section \<open>A sample worker\<close>

definition sample_retention :: RetentionPolicy where
  "sample_retention = \<lparr>rp_Success = 1, rp_Dead = -1, rp_History = -1, rp_PurgeBatch = 0, rp_PurgeEvery = 0\<rparr>"

definition sample_worker_config :: "nat world WorkerConfig" where
  "sample_worker_config =
     \<lparr>wc_Storage = Some (pg_storage sample_store), wc_Registry = Some sample_registry, wc_WorkerID = '''', wc_PollInterval = 0,
      wc_PollMaxBackoff = 0, wc_BatchSize = 0, wc_PoolSize = 0, wc_Lease = 0, wc_ShutdownGrace = 0,
      wc_Retention = sample_retention, wc_StatsInterval = 0, wc_Metrics = Some ConfiguredHook, wc_Tracer = None,
      wc_Alerter = Some ConfiguredHook, wc_ReclaimInterval = 0, wc_DisableReclaimer = False, wc_DisableJanitor = False,
      wc_DisableNotifier = False\<rparr>"

definition sample_worker :: "nat world Worker" where
  "sample_worker = projr (NewWorker (\<lambda>_ h. h) (Inr ''host'') 7 sample_worker_config)"

lemma sample_worker_sel [simp]:
  "wk_storage sample_worker = pg_storage sample_store" "wk_hooks sample_worker = sample_hooks"
  "wc_Retention (wk_cfg sample_worker) = sample_retention" "hk_alerter sample_hooks = ConfiguredHook"
  by (simp_all add: sample_worker_def NewWorker_def sample_worker_config_def newEngine_def sample_hooks_def defaulted_def Let_def)

lemma sample_world_fields [simp]: "w_locks (sample_world db) = []" "w_conn (sample_world db) n = Inr n" "w_calls (sample_world db) = 0"
  by (simp_all add: sample_world_def)

lemma sample_world_inv: "pg_reachable sample_store db \<Longrightarrow> world_ok sample_store (sample_world db)"
  using pg_reachable_db_ok [of sample_store db] sample_world_ok [of "sample_world db" db sample_store] by simp

theorem janitor_returns_witness:
  "\<exists>w' os. tryPurge sample_worker (\<lambda>_. 20) (\<lambda>_ _. True) (sample_world sample_done) = Some (w', os)"
  using janitor_returns [OF sample_worker_sel(1) sample_world_inv [OF sample_done_reachable], of "\<lambda>_. 20" "\<lambda>_ _. True"] by blast

lemma purge_loop_short:
  "snd (snd (purge w)) = None \<Longrightarrow> fst (snd (purge w)) < batch \<Longrightarrow> purge_loop purge batch quit k w = Some (fst (purge w), None, False)"
  by (subst purge_loop.simps) (cases "purge w", simp)

lemma sample_lock: "lock_call key (sample_world db) = ((sample_world db)\<lparr>w_locks := [(lockKey key, 0)], w_calls := 1\<rparr>, True, None)"
  by (simp add: lock_call_def pg_TryLeaderLock_def pg_try_advisory_lock_def)

lemma sample_pass: "\<exists>w'. tryPurge sample_worker (\<lambda>_. 20) (\<lambda>_ _. False) (sample_world sample_done) = Some (w', [])"
  by (simp add: tryPurge_def as_leader_def pg_lock_sel sample_lock purge_body_def purge_phase_def purge_dead_def purgeHistory_def
      sample_retention_def dead_age_def history_age_def purge_batch_def pg_purge_sel purge_loop_short call_eq now_env_def
      pg_PurgeTerminal_def pg_PurgeHistory_def sample_done_row sql_count_def janitor_alert_def Let_def)


definition sample_taken :: "nat world" where
  "sample_taken = (sample_world sample_db)\<lparr>w_locks := [(lockKey ''tickr.reclaimer'', 5)]\<rparr>"

theorem leader_exclusive_witness:
  "\<exists>w' os. tryReclaim sample_worker sample_taken = Some (w', os) \<and> w_db w' = sample_db"
  using leader_exclusive [OF sample_worker_sel(1), of sample_taken 5 "''tickr.reclaimer''" "tryReclaim sample_worker"]
  by (auto simp: sample_taken_def locks_ok_def pg_owns_def)

definition sample_expired :: "nat world" where
  "sample_expired = (sample_world sample_handling)\<lparr>w_env := sample_env (40 * Second)\<rparr>"

lemma sample_expired_sel [simp]:
  "w_db sample_expired = sample_handling" "w_env sample_expired = sample_env (40 * Second)" "w_calls sample_expired = 0"
  "w_locks sample_expired = []" "w_conn sample_expired n = Inr n"
  by (simp_all add: sample_expired_def)

lemma sample_expired_ok: "world_ok sample_store sample_expired"
  using pg_reachable_db_ok [OF sample_handling_reachable] by (simp add: world_ok_def sample_env_str)

lemma sample_expired_lock:
  "lock_call key sample_expired = (sample_expired\<lparr>w_locks := [(lockKey key, 0)], w_calls := 1\<rparr>, True, None)"
  by (simp add: lock_call_def pg_TryLeaderLock_def pg_try_advisory_lock_def now_env_def)


end
