(* ===== verification/My_Store.thy ===== *)
theory My_Store
  imports Pg_Admin "HOL-Library.List_Lexorder" "HOL-Library.Char_ord"
begin

text \<open>
  The MySQL adapter (src/storage/mysql/mysql.go). It writes the same two tables, with the text
  of the identifier as primary key. Text columns compare under the collation of the database,
  which by default ignores case and accents: the parameter \<open>coll\<close> maps a text to its
  comparison key. A completion is a transaction of an update, a history row whose error is
  ignored, and a commit; any error before the commit rolls back. An affected-rows count is the
  number of rows the \<open>WHERE\<close> clause selects, since every such update changes
  \<open>updated_at\<close>.
\<close>

type_synonym my_db = "string db"
type_synonym my_env = "string env"

section \<open>Transactions and history\<close>

definition my_execer :: "Tx \<Rightarrow> querier" where
  "my_execer tx =
     (if Tx_IsZero tx then PoolQuerier
      else case tx of TxNative \<Rightarrow> TxQuerier | _ \<Rightarrow> PoolQuerier)"

definition my_commit :: "my_env \<Rightarrow> nat \<Rightarrow> my_db \<Rightarrow> my_db \<Rightarrow> my_db \<times> goerr option" where
  "my_commit e k db db' = (run_stmt (env_reply e k) (\<lambda>_. db') db, reply_err (env_reply e k))"

definition my_next_seq :: "(string \<Rightarrow> string) \<Rightarrow> string \<Rightarrow> string hist_row list \<Rightarrow> int" where
  "my_next_seq coll mid hist =
     COALESCE (sql_max (map h_seq (filter (\<lambda>h. coll (h_message_id h) = coll mid) hist))) 0 + 1"

definition my_appendHistory ::
  "(string \<Rightarrow> string) \<Rightarrow> my_env \<Rightarrow> nat \<Rightarrow> message_id \<Rightarrow> Status \<Rightarrow> Status \<Rightarrow> int \<Rightarrow> string \<Rightarrow> string \<Rightarrow> my_db \<Rightarrow> my_db" where
  "my_appendHistory coll e k ident from to att errStr workerID db =
     run_stmt (env_reply e k)
       (\<lambda>db. db\<lparr>history := history db @
          [mk_hist ident (my_next_seq coll ident (history db)) (Some from) to att (NULLIF_empty errStr) (Some workerID) (env_now e)]\<rparr>)
       db"

text \<open>
  The transaction of a completion: statement 0 is the begin, 1 the update, 2 the history row,
  3 the commit.
\<close>

definition my_completion ::
  "my_env \<Rightarrow> (goerr \<Rightarrow> goerr) \<Rightarrow> (goerr \<Rightarrow> goerr) \<Rightarrow> (string msg_row \<Rightarrow> bool) \<Rightarrow> (string msg_row \<Rightarrow> string msg_row)
   \<Rightarrow> (my_db \<Rightarrow> my_db) \<Rightarrow> my_db \<Rightarrow> my_db \<times> goerr option" where
  "my_completion e beginErr updateErr guard upd hist db =
     (case reply_err (env_reply e 0) of Some er \<Rightarrow> (db, Some (beginErr er))
      | None \<Rightarrow>
        (case reply_err (env_reply e 1) of Some er \<Rightarrow> (db, Some (updateErr er))
         | None \<Rightarrow> my_commit e 3 db (hist (db\<lparr>messages := sql_update guard upd (messages db)\<rparr>))))"

section \<open>Row scanning\<close>

definition my_scanMessage :: "string msg_row \<Rightarrow> InboundMessage" where
  "my_scanMessage r =
     \<lparr>im_ID = m_id r, im_Type = m_event_type r, im_Payload = m_payload r,
      im_Headers = decodeHeaders (m_headers r), im_IdempotencyKey = opt_str (m_idempotency_key r),
      im_Attempt = m_attempt r, im_MaxAttempts = m_max_attempts r, im_EnqueuedAt = m_created_at r,
      im_ScheduledAt = m_process_at r, im_LastError = opt_str (m_last_error r), im_Status = None\<rparr>"

section \<open>Enqueue\<close>

definition my_enqueue_row :: "my_env \<Rightarrow> nat \<Rightarrow> EnqueueParams \<Rightarrow> string msg_row" where
  "my_enqueue_row e k p =
     \<lparr>m_id = env_id e k, m_event_type = ep_EventType p, m_payload = ep_Payload p,
      m_headers = encodeHeaders (ep_Headers p), m_idempotency_key = NULLIF_empty (ep_IdempotencyKey p),
      m_status = StatusCreated, m_attempt = 0,
      m_max_attempts = (if ep_MaxAttempts p \<le> 0 then 10 else ep_MaxAttempts p),
      m_process_at = (if IsZero (ep_ProcessAt p) then env_clock e else ep_ProcessAt p),
      m_shard = pickShard e k, m_claimed_until = None, m_claimed_by = None, m_last_error = None,
      m_created_at = env_now e, m_updated_at = env_now e, m_completed_at = None\<rparr>"

text \<open>A row clashes with another in the primary key or in the unique index on type and key, where NULLs differ.\<close>

definition my_clash :: "(string \<Rightarrow> string) \<Rightarrow> string msg_row \<Rightarrow> string msg_row \<Rightarrow> bool" where
  "my_clash coll r r' \<longleftrightarrow> coll (m_id r') = coll (m_id r) \<or>
     m_idempotency_key r \<noteq> None \<and> map_option coll (m_idempotency_key r') = map_option coll (m_idempotency_key r) \<and>
     coll (m_event_type r') = coll (m_event_type r)"

text \<open>The server's error number by which the adapter recognises a clash; the driver's text is not looked at.\<close>

definition mysqlErrDupEntry :: int where
  "mysqlErrDupEntry = 1062"

definition dup_entry :: goerr where
  "dup_entry = MySQLError mysqlErrDupEntry ''Duplicate entry''"

definition isDuplicateErr :: "goerr option \<Rightarrow> bool" where
  "isDuplicateErr err = list_ex (\<lambda>e. case e of MySQLError n _ \<Rightarrow> n = mysqlErrDupEntry | _ \<Rightarrow> False) (errors_chain err)"

definition my_insert ::
  "(string \<Rightarrow> string) \<Rightarrow> exec_reply \<Rightarrow> querier \<Rightarrow> string msg_row \<Rightarrow> my_db \<Rightarrow> my_db \<times> goerr option" where
  "my_insert coll rep q r db =
     (if \<not> applied rep then (db, reply_err rep)
      else if list_ex (my_clash coll r) (q_rows q db)
      then (db, case reply_err rep of None \<Rightarrow> Some dup_entry | Some er \<Rightarrow> Some er)
      else (q_insert q r db, reply_err rep))"

definition my_findByIdempotency ::
  "(string \<Rightarrow> string) \<Rightarrow> my_env \<Rightarrow> nat \<Rightarrow> querier \<Rightarrow> string \<Rightarrow> string \<Rightarrow> my_db \<Rightarrow> InboundMessage option \<times> goerr option" where
  "my_findByIdempotency coll e k q et key db =
     (let wrap = WrapError ''tickr/mysql: fetch by idempotency key: '' in
      case reply_err (env_reply e k) of Some er \<Rightarrow> (None, Some (wrap er))
      | None \<Rightarrow>
        (case find (\<lambda>r. coll (m_event_type r) = coll et \<and> map_option coll (m_idempotency_key r) = Some (coll key)) (q_rows q db) of
           None \<Rightarrow> (None, Some (wrap ErrNoRows))
         | Some r \<Rightarrow> (Some (my_scanMessage r), None)))"

definition my_findByID ::
  "(string \<Rightarrow> string) \<Rightarrow> my_env \<Rightarrow> nat \<Rightarrow> querier \<Rightarrow> message_id \<Rightarrow> my_db \<Rightarrow> InboundMessage option \<times> goerr option" where
  "my_findByID coll e k q ident db =
     (case reply_err (env_reply e k) of Some er \<Rightarrow> (None, Some er)
      | None \<Rightarrow>
        (case find (\<lambda>r. coll (m_id r) = coll ident) (q_rows q db) of
           None \<Rightarrow> (None, Some ErrNoRows)
         | Some r \<Rightarrow> (Some (my_scanMessage r), None)))"

text \<open>
  \<open>k\<close> numbers the message within the call: its identifier and shard are the \<open>k\<close>-th drawn, its
  statements \<open>3k\<close> the insert, \<open>3k + 1\<close> the look-up by key and \<open>3k + 2\<close> the look-up by identifier.
\<close>

definition my_Enqueue ::
  "(string \<Rightarrow> string) \<Rightarrow> my_env \<Rightarrow> nat \<Rightarrow> Tx \<Rightarrow> EnqueueParams \<Rightarrow> my_db \<Rightarrow> my_db \<times> InboundMessage option \<times> goerr option" where
  "my_Enqueue coll e k tx p db =
     (let ex = my_execer tx; r = my_enqueue_row e k p in
      case my_insert coll (env_reply e (3 * k)) ex r db of (db', err) \<Rightarrow>
        (case err of
           Some er \<Rightarrow>
             if isDuplicateErr err \<and> ep_IdempotencyKey p \<noteq> '''' then
               (case my_findByIdempotency coll e (3 * k + 1) ex (ep_EventType p) (ep_IdempotencyKey p) db' of
                  (Some m, None) \<Rightarrow> (db', Some m, Some (ErrDuplicate (im_ID m) (ep_EventType p) (ep_IdempotencyKey p)))
                | (_, ferr) \<Rightarrow> (db', None, ferr))
             else (db', None, Some (WrapError ''tickr/mysql: enqueue: '' er))
         | None \<Rightarrow> (db', my_findByID coll e (3 * k + 2) ex (m_id r) db')))"

fun my_EnqueueBatch ::
  "(string \<Rightarrow> string) \<Rightarrow> my_env \<Rightarrow> nat \<Rightarrow> Tx \<Rightarrow> EnqueueParams list \<Rightarrow> my_db \<Rightarrow> my_db \<times> InboundMessage option list \<times> goerr option" where
  "my_EnqueueBatch coll e k tx [] db = (db, [], None)"
| "my_EnqueueBatch coll e k tx (p # ps) db =
     (case my_Enqueue coll e k tx p db of (db1, m, err) \<Rightarrow>
      case my_EnqueueBatch coll e (Suc k) tx ps db1 of (db2, out, err') \<Rightarrow>
        if err \<noteq> None \<and> \<not> IsDuplicate err then (db2, None # out, err) else (db2, m # out, err'))"

section \<open>Claim\<close>

definition my_claim_eligible ::
  "(string \<Rightarrow> string) \<Rightarrow> my_env \<Rightarrow> string list \<Rightarrow> int option \<Rightarrow> string msg_row \<Rightarrow> bool" where
  "my_claim_eligible coll e ets shard r \<longleftrightarrow>
     (m_status r = StatusCreated \<or> m_status r = StatusRetrying) \<and>
     (case shard of None \<Rightarrow> True | Some sh \<Rightarrow> m_shard r = sh) \<and>
     coll (m_event_type r) \<in> coll ` set ets \<and> m_process_at r \<le> env_clock e"

definition my_claim_ids ::
  "(string \<Rightarrow> string) \<Rightarrow> my_env \<Rightarrow> string list \<Rightarrow> int \<Rightarrow> int option \<Rightarrow> my_db \<Rightarrow> string list" where
  "my_claim_ids coll e ets batch shard db =
     map m_id (order_limit (\<lambda>r. (m_process_at r, coll (m_id r))) batch
       (filter (\<lambda>r. my_claim_eligible coll e ets shard r \<and> \<not> env_locked e (m_id r)) (messages db)))"

definition selectClaimIDs ::
  "(string \<Rightarrow> string) \<Rightarrow> my_env \<Rightarrow> nat \<Rightarrow> string list \<Rightarrow> int \<Rightarrow> int option \<Rightarrow> my_db \<Rightarrow> goerr + string list" where
  "selectClaimIDs coll e k ets batch shard db =
     (case env_reply e k of
        ExecFail er \<Rightarrow> Inl (WrapError ''tickr/mysql: claim select: '' er)
      | ExecLost er \<Rightarrow> Inl er
      | ExecOk \<Rightarrow> Inr (my_claim_ids coll e ets batch shard db))"

definition my_claim_set :: "my_env \<Rightarrow> string \<Rightarrow> duration \<Rightarrow> string msg_row \<Rightarrow> string msg_row" where
  "my_claim_set e workerID lease r =
     r\<lparr>m_status := StatusHandling, m_attempt := m_attempt r + 1, m_claimed_by := Some workerID,
       m_claimed_until := Some (env_clock e + lease), m_updated_at := env_now e\<rparr>"

definition id_in :: "(string \<Rightarrow> string) \<Rightarrow> string list \<Rightarrow> string msg_row \<Rightarrow> bool" where
  "id_in coll ids r \<longleftrightarrow> coll (m_id r) \<in> coll ` set ids"

fun my_claim_history ::
  "(string \<Rightarrow> string) \<Rightarrow> my_env \<Rightarrow> nat \<Rightarrow> string \<Rightarrow> InboundMessage list \<Rightarrow> my_db \<Rightarrow> my_db" where
  "my_claim_history coll e k workerID [] db = db"
| "my_claim_history coll e k workerID (m # ms) db =
     my_claim_history coll e (Suc k) workerID ms
       (my_appendHistory coll e k (im_ID m) StatusHandling StatusHandling (im_Attempt m) '''' workerID db)"

text \<open>
  The part of \<open>Claim\<close> after the identifiers are known. Statement 3 is the update, 4 the fetch,
  5 the commit, from 6 on the history rows. The loop over the fetched rows does not ask for its
  error: a result set that breaks off, here after a number of rows drawn at random, is taken
  for a complete one.
\<close>

definition my_claim_update ::
  "(string \<Rightarrow> string) \<Rightarrow> my_env \<Rightarrow> ClaimParams \<Rightarrow> string list \<Rightarrow> my_db \<Rightarrow> my_db \<times> InboundMessage list \<times> goerr option" where
  "my_claim_update coll e p ids db =
     (case reply_err (env_reply e 3) of Some er \<Rightarrow> (db, [], Some (WrapError ''tickr/mysql: claim update: '' er))
      | None \<Rightarrow>
        (let rows = sql_update (id_in coll ids) (my_claim_set e (cp_WorkerID p) (cp_Lease p)) (messages db);
             fetched = map my_scanMessage (filter (id_in coll ids) rows) in
         case env_reply e 4 of ExecFail er \<Rightarrow> (db, [], Some (WrapError ''tickr/mysql: claim fetch: '' er))
         | rep \<Rightarrow>
           (let out = (case rep of ExecOk \<Rightarrow> fetched | _ \<Rightarrow> take (env_rand e 1) fetched) in
            case my_commit e 5 db (my_claim_history coll e 6 (cp_WorkerID p) out (db\<lparr>messages := rows\<rparr>)) of
              (db', Some er) \<Rightarrow> (db', [], Some (WrapError ''tickr/mysql: claim commit: '' er))
            | (db', None) \<Rightarrow> (db', out, None))))"

definition my_Claim ::
  "(string \<Rightarrow> string) \<Rightarrow> my_env \<Rightarrow> ClaimParams \<Rightarrow> my_db \<Rightarrow> my_db \<times> InboundMessage list \<times> goerr option" where
  "my_Claim coll e p db =
     (let batch = (if cp_Batch p \<le> 0 then 100 else cp_Batch p);
          finish = (\<lambda>ids. if ids = [] then (fst (my_commit e 5 db db), [], snd (my_commit e 5 db db))
                          else my_claim_update coll e p ids db) in
      if cp_EventTypes p = [] then (db, [], None)
      else case reply_err (env_reply e 0) of Some er \<Rightarrow> (db, [], Some (WrapError ''tickr/mysql: begin claim tx: '' er))
      | None \<Rightarrow>
        (case selectClaimIDs coll e 1 (cp_EventTypes p) batch (Some (pickShard e 0)) db of
           Inl er \<Rightarrow> (db, [], Some er)
         | Inr ids \<Rightarrow>
             if ids = [] then
               (case selectClaimIDs coll e 2 (cp_EventTypes p) batch None db of
                  Inl er \<Rightarrow> (db, [], Some er)
                | Inr ids' \<Rightarrow> finish ids')
             else finish ids))"

section \<open>Succeed, Fail, Release, Extend\<close>

definition my_holds :: "(string \<Rightarrow> string) \<Rightarrow> message_id \<Rightarrow> string \<Rightarrow> string msg_row \<Rightarrow> bool" where
  "my_holds coll ident workerID r \<longleftrightarrow> coll (m_id r) = coll ident \<and> m_status r = StatusHandling \<and>
     map_option coll (m_claimed_by r) = Some (coll workerID)"

definition my_holds_attempt :: "(string \<Rightarrow> string) \<Rightarrow> message_id \<Rightarrow> int \<Rightarrow> string msg_row \<Rightarrow> bool" where
  "my_holds_attempt coll ident att r \<longleftrightarrow> coll (m_id r) = coll ident \<and> m_status r = StatusHandling \<and> m_attempt r = att"

definition my_succeed_set :: "time \<Rightarrow> string msg_row \<Rightarrow> string msg_row" where
  "my_succeed_set now r = r\<lparr>m_status := StatusSuccess, m_completed_at := Some now, m_updated_at := now\<rparr>"

text \<open>The loop of \<open>BatchSucceed\<close>: statement \<open>k\<close> is the update, \<open>k + 1\<close> the history row of the first entry.\<close>

fun my_batch_updates ::
  "(string \<Rightarrow> string) \<Rightarrow> my_env \<Rightarrow> nat \<Rightarrow> BatchSucceedParam list \<Rightarrow> my_db \<Rightarrow> my_db \<times> goerr option" where
  "my_batch_updates coll e k [] db = (db, None)"
| "my_batch_updates coll e k (p # ps) db =
     (case reply_err (env_reply e k) of
        Some er \<Rightarrow> (db, Some (WrapError ''tickr/mysql: batch succeed update: '' er))
      | None \<Rightarrow>
        my_batch_updates coll e (k + 2) ps
          (my_appendHistory coll e (k + 1) (bs_MessageID p) StatusHandling StatusSuccess (bs_Attempt p) '''' (bs_WorkerID p)
             (db\<lparr>messages := sql_update (my_holds_attempt coll (bs_MessageID p) (bs_Attempt p)) (my_succeed_set (env_now e)) (messages db)\<rparr>)))"

definition my_BatchSucceed ::
  "(string \<Rightarrow> string) \<Rightarrow> my_env \<Rightarrow> BatchSucceedParam list \<Rightarrow> my_db \<Rightarrow> my_db \<times> goerr option" where
  "my_BatchSucceed coll e params db =
     (if params = [] then (db, None)
      else case reply_err (env_reply e 0) of Some er \<Rightarrow> (db, Some (WrapError ''tickr/mysql: batch succeed begin: '' er))
      | None \<Rightarrow>
        (case my_batch_updates coll e 2 params db of
           (db', Some er) \<Rightarrow> (db, Some er)
         | (db', None) \<Rightarrow> my_commit e 1 db db'))"

definition my_Succeed ::
  "(string \<Rightarrow> string) \<Rightarrow> my_env \<Rightarrow> message_id \<Rightarrow> int \<Rightarrow> string \<Rightarrow> my_db \<Rightarrow> my_db \<times> goerr option" where
  "my_Succeed coll e ident att workerID =
     my_completion e (WrapError ''tickr/mysql: succeed begin: '') (WrapError ''tickr/mysql: succeed update: '')
       (my_holds coll ident workerID) (my_succeed_set (env_now e))
       (my_appendHistory coll e 2 ident StatusHandling StatusSuccess att '''' workerID)"

definition my_dead_set :: "time \<Rightarrow> string \<Rightarrow> string msg_row \<Rightarrow> string msg_row" where
  "my_dead_set now errStr r =
     r\<lparr>m_status := StatusDead, m_completed_at := Some now, m_last_error := Some errStr, m_updated_at := now\<rparr>"

definition my_retry_set :: "time \<Rightarrow> time \<Rightarrow> string \<Rightarrow> string msg_row \<Rightarrow> string msg_row" where
  "my_retry_set now nextRetryAt errStr r =
     r\<lparr>m_status := StatusRetrying, m_process_at := nextRetryAt, m_last_error := Some errStr,
       m_claimed_by := None, m_claimed_until := None, m_updated_at := now\<rparr>"

definition my_Fail :: "(string \<Rightarrow> string) \<Rightarrow> my_env \<Rightarrow> FailParams \<Rightarrow> my_db \<Rightarrow> my_db \<times> goerr option" where
  "my_Fail coll e p =
     (if fp_Dead p then
        my_completion e (WrapError ''tickr/mysql: fail begin: '') (WrapError ''tickr/mysql: fail->dead: '')
          (my_holds coll (fp_MessageID p) (fp_WorkerID p)) (my_dead_set (env_now e) (fp_Err p))
          (my_appendHistory coll e 2 (fp_MessageID p) StatusHandling StatusDead (fp_Attempt p) (fp_Err p) (fp_WorkerID p))
      else
        my_completion e (WrapError ''tickr/mysql: fail begin: '') (WrapError ''tickr/mysql: fail->retry: '')
          (my_holds coll (fp_MessageID p) (fp_WorkerID p)) (my_retry_set (env_now e) (fp_NextRetryAt p) (fp_Err p))
          (my_appendHistory coll e 2 (fp_MessageID p) StatusHandling StatusRetrying (fp_Attempt p) (fp_Err p) (fp_WorkerID p)))"

definition my_release_set :: "time \<Rightarrow> string msg_row \<Rightarrow> string msg_row" where
  "my_release_set now r =
     r\<lparr>m_status := if m_attempt r > 1 then StatusRetrying else StatusCreated, m_attempt := max (m_attempt r - 1) 0,
       m_claimed_by := None, m_claimed_until := None, m_updated_at := now\<rparr>"

definition my_ReleaseShutdown ::
  "(string \<Rightarrow> string) \<Rightarrow> my_env \<Rightarrow> message_id \<Rightarrow> int \<Rightarrow> string \<Rightarrow> string \<Rightarrow> my_db \<Rightarrow> my_db \<times> goerr option" where
  "my_ReleaseShutdown coll e ident att workerID reason =
     my_completion e (\<lambda>er. er) (WrapError ''tickr/mysql: release-shutdown: '')
       (my_holds coll ident workerID) (my_release_set (env_now e))
       (my_appendHistory coll e 2 ident StatusHandling StatusRetrying att reason workerID)"

definition my_Extend ::
  "(string \<Rightarrow> string) \<Rightarrow> my_env \<Rightarrow> message_id \<Rightarrow> string \<Rightarrow> time \<Rightarrow> my_db \<Rightarrow> my_db \<times> bool \<times> goerr option" where
  "my_Extend coll e ident workerID until db =
     (let db' = run_stmt (env_reply e 0) (\<lambda>db. db\<lparr>messages := sql_update (my_holds coll ident workerID)
            (\<lambda>r. r\<lparr>m_claimed_until := Some until, m_updated_at := env_now e\<rparr>) (messages db)\<rparr>) db in
      case reply_err (env_reply e 0) of
        Some er \<Rightarrow> (db', False, Some (WrapError ''tickr/mysql: extend: '' er))
      | None \<Rightarrow> (db', sql_count (my_holds coll ident workerID) (messages db) > 0, None))"

section \<open>History, dead letters, requeue\<close>

definition my_scanTransition :: "string hist_row \<Rightarrow> Transition" where
  "my_scanTransition h =
     \<lparr>tr_MessageID = h_message_id h, tr_Seq = h_seq h, tr_From = h_from_status h, tr_To = h_to_status h,
      tr_Attempt = h_attempt h, tr_Error = opt_str (h_error h), tr_WorkerID = opt_str (h_worker_id h), tr_At = h_at h\<rparr>"

definition my_History :: "(string \<Rightarrow> string) \<Rightarrow> my_env \<Rightarrow> message_id \<Rightarrow> my_db \<Rightarrow> Transition list \<times> goerr option" where
  "my_History coll e ident db =
     (case env_reply e 0 of
        ExecFail er \<Rightarrow> ([], Some (WrapError ''tickr/mysql: history: '' er))
      | rep \<Rightarrow>
        (let all = map my_scanTransition (sort_key h_seq (filter (\<lambda>h. coll (h_message_id h) = coll ident) (history db)))
         in case reply_err rep of None \<Rightarrow> (all, None) | Some er \<Rightarrow> (take (env_rand e 0) all, Some er)))"

definition my_dead_match :: "(string \<Rightarrow> string) \<Rightarrow> string \<Rightarrow> time \<Rightarrow> string msg_row \<Rightarrow> bool" where
  "my_dead_match coll et after r \<longleftrightarrow>
     m_status r = StatusDead \<and> (et = '''' \<or> coll (m_event_type r) = coll et) \<and>
     (case m_completed_at r of None \<Rightarrow> False | Some t \<Rightarrow> t \<ge> after)"

definition my_ListDead ::
  "(string \<Rightarrow> string) \<Rightarrow> my_env \<Rightarrow> string \<Rightarrow> time \<Rightarrow> int \<Rightarrow> my_db \<Rightarrow> InboundMessage list \<times> goerr option" where
  "my_ListDead coll e et after limit db =
     (let n = (if limit \<le> 0 then 50 else limit) in
      case env_reply e 0 of
        ExecFail er \<Rightarrow> ([], Some (WrapError ''tickr/mysql: list dead: '' er))
      | rep \<Rightarrow>
        (let all = map my_scanMessage
           (order_limit (\<lambda>r. - COALESCE (m_completed_at r) 0) n (filter (my_dead_match coll et after) (messages db)))
         in case reply_err rep of None \<Rightarrow> (all, None) | Some er \<Rightarrow> (take (env_rand e 0) all, Some er)))"

definition my_requeue_set :: "time \<Rightarrow> time \<Rightarrow> string msg_row \<Rightarrow> string msg_row" where
  "my_requeue_set now processAt r =
     r\<lparr>m_status := StatusCreated, m_attempt := 0, m_claimed_by := None, m_claimed_until := None,
       m_completed_at := None, m_process_at := processAt, m_last_error := None, m_updated_at := now\<rparr>"

definition my_Requeue :: "(string \<Rightarrow> string) \<Rightarrow> my_env \<Rightarrow> message_id \<Rightarrow> time \<Rightarrow> my_db \<Rightarrow> my_db \<times> goerr option" where
  "my_Requeue coll e ident processAt =
     my_completion e (\<lambda>er. er) (WrapError ''tickr/mysql: requeue: '')
       (\<lambda>r. coll (m_id r) = coll ident \<and> m_status r = StatusDead) (my_requeue_set (env_now e) processAt)
       (my_appendHistory coll e 2 ident StatusDead StatusCreated 0 ''admin requeue'' '''')"

section \<open>Reclaimer, purger, stats\<close>

definition my_reclaim_set :: "time \<Rightarrow> string msg_row \<Rightarrow> string msg_row" where
  "my_reclaim_set now r =
     r\<lparr>m_status := StatusRetrying, m_process_at := now, m_claimed_by := None, m_claimed_until := None,
       m_last_error := Some (COALESCE (m_last_error r) ''lease expired''), m_updated_at := now\<rparr>"

definition my_ReclaimExpired :: "my_env \<Rightarrow> int \<Rightarrow> my_db \<Rightarrow> my_db \<times> int \<times> goerr option" where
  "my_ReclaimExpired e limit db =
     (let n = (if limit \<le> 0 then 500 else limit);
          ids = env_choice e (nat n) (map m_id (filter (lease_expired (env_now e)) (messages db)));
          db' = run_stmt (env_reply e 0)
            (\<lambda>db. db\<lparr>messages := sql_update (\<lambda>r. m_id r \<in> set ids) (my_reclaim_set (env_now e)) (messages db)\<rparr>) db
      in case reply_err (env_reply e 0) of
           Some er \<Rightarrow> (db', 0, Some (WrapError ''tickr/mysql: reclaim: '' er))
         | None \<Rightarrow> (db', sql_count (\<lambda>r. m_id r \<in> set ids) (messages db), None))"

definition my_PurgeTerminal :: "my_env \<Rightarrow> time \<Rightarrow> int \<Rightarrow> my_db \<Rightarrow> my_db \<times> int \<times> goerr option" where
  "my_PurgeTerminal e before limit db =
     (let n = (if limit \<le> 0 then 5000 else limit);
          ids = env_choice e (nat n) (map m_id (filter (purge_match before) (messages db)));
          db' = run_stmt (env_reply e 0) (\<lambda>db. db\<lparr>messages := sql_delete (\<lambda>r. m_id r \<in> set ids) (messages db)\<rparr>) db
      in case reply_err (env_reply e 0) of
           Some er \<Rightarrow> (db', 0, Some (WrapError ''tickr/mysql: purge: '' er))
         | None \<Rightarrow> (db', sql_count (\<lambda>r. m_id r \<in> set ids) (messages db), None))"

definition my_PurgeHistory :: "my_env \<Rightarrow> time \<Rightarrow> int \<Rightarrow> my_db \<Rightarrow> my_db \<times> int \<times> goerr option" where
  "my_PurgeHistory e before limit db =
     (let n = (if limit \<le> 0 then 5000 else limit);
          keys = map hist_key (order_limit h_at n (filter (\<lambda>h. h_at h < before) (history db)));
          db' = run_stmt (env_reply e 0) (\<lambda>db. db\<lparr>history := sql_delete (\<lambda>h. hist_key h \<in> set keys) (history db)\<rparr>) db
      in case reply_err (env_reply e 0) of
           Some er \<Rightarrow> (db', 0, Some (WrapError ''tickr/mysql: purge history: '' er))
         | None \<Rightarrow> (db', sql_count (\<lambda>h. hist_key h \<in> set keys) (history db), None))"

text \<open>One group per comparison key and status, shown with the type of its first row.\<close>

definition my_statsSQL :: "(string \<Rightarrow> string) \<Rightarrow> string msg_row list \<Rightarrow> (string \<times> Status \<times> int) list" where
  "my_statsSQL coll rows =
     map (\<lambda>(ck, st). (let grp = filter (\<lambda>r. coll (m_event_type r) = ck \<and> m_status r = st) rows
                      in (m_event_type (hd grp), st, int (length grp))))
       (remdups (map (\<lambda>r. (coll (m_event_type r), m_status r)) rows))"

definition my_Stats :: "(string \<Rightarrow> string) \<Rightarrow> my_env \<Rightarrow> my_db \<Rightarrow> Stats \<times> goerr option" where
  "my_Stats coll e db =
     (let init = \<lparr>ByStatus = [], ByEventType = [], SampledAt = env_clock e\<rparr> in
      case env_reply e 0 of
        ExecFail er \<Rightarrow> (\<lparr>ByStatus = [], ByEventType = [], SampledAt = 0\<rparr>, Some (WrapError ''tickr/mysql: stats: '' er))
      | ExecLost er \<Rightarrow> (fold stats_row (take (env_rand e 0) (my_statsSQL coll (messages db))) init, Some er)
      | ExecOk \<Rightarrow> (fold stats_row (my_statsSQL coll (messages db)) init, None))"

section \<open>Leader lock\<close>

text \<open>
  Named locks held, as pairs of the comparison key of the name and the session. A session may
  take a lock it holds again; the lock of another session is refused at once.
\<close>

type_synonym named_locks = "(string \<times> nat) list"

definition my_lock_name :: "(string \<Rightarrow> string) \<Rightarrow> string \<Rightarrow> string" where
  "my_lock_name coll key = coll (''tickr:'' @ key)"

definition my_TryLeaderLock ::
  "(string \<Rightarrow> string) \<Rightarrow> goerr + nat \<Rightarrow> exec_reply \<Rightarrow> string \<Rightarrow> named_locks \<Rightarrow> named_locks \<times> bool \<times> goerr option" where
  "my_TryLeaderLock coll conn rep key locks =
     (case conn of Inl er \<Rightarrow> (locks, False, Some (WrapError ''tickr/mysql: acquire conn: '' er))
      | Inr sess \<Rightarrow>
        (case rep of
           ExecFail er \<Rightarrow> (locks, False, Some (WrapError ''tickr/mysql: get_lock: '' er))
         | ExecLost er \<Rightarrow> (filter (\<lambda>(k, s). s \<noteq> sess) locks, False, Some (WrapError ''tickr/mysql: get_lock: '' er))
         | ExecOk \<Rightarrow>
             if list_ex (\<lambda>(k, s). k = my_lock_name coll key \<and> s \<noteq> sess) locks then (locks, False, None)
             else ((my_lock_name coll key, sess) # locks, True, None)))"

definition my_unlock :: "(string \<Rightarrow> string) \<Rightarrow> nat \<Rightarrow> exec_reply \<Rightarrow> string \<Rightarrow> named_locks \<Rightarrow> named_locks" where
  "my_unlock coll sess rep key locks = run_stmt rep (remove1 (my_lock_name coll key, sess)) locks"

end
