(* ===== verification/My_Machine.thy ===== *)
theory My_Machine
  imports My_Store Pg_Machine
begin

text \<open>
  The MySQL adapter as a state machine: what a statement may do to a row, the invariant of the
  two tables (unlike PostgreSQL's, a finished message keeps its last leaseholder, and unique
  means unique under the collation), one preservation lemma per method, and the invariant of
  the reachable databases by rule induction.
\<close>

section \<open>What a statement may do to a row\<close>

inductive my_row_step :: "string msg_row \<Rightarrow> string msg_row \<Rightarrow> bool" where
  my_same: "my_row_step r r"
| my_claim: "m_status r = StatusCreated \<or> m_status r = StatusRetrying \<Longrightarrow> my_row_step r (my_claim_set e workerID lease r)"
| my_succeed: "m_status r = StatusHandling \<Longrightarrow> my_row_step r (my_succeed_set now r)"
| my_retry: "m_status r = StatusHandling \<Longrightarrow> my_row_step r (my_retry_set now nextRetryAt errStr r)"
| my_dead: "m_status r = StatusHandling \<Longrightarrow> my_row_step r (my_dead_set now errStr r)"
| my_release: "m_status r = StatusHandling \<Longrightarrow> my_row_step r (my_release_set now r)"
| my_extend: "m_status r = StatusHandling \<Longrightarrow> my_row_step r (r\<lparr>m_claimed_until := Some until, m_updated_at := now\<rparr>)"
| my_reclaim: "m_status r = StatusHandling \<Longrightarrow> my_row_step r (my_reclaim_set now r)"
| my_requeue: "m_status r = StatusDead \<Longrightarrow> my_row_step r (my_requeue_set now processAt r)"

lemmas my_set_defs = my_claim_set_def my_succeed_set_def my_retry_set_def my_dead_set_def
  my_release_set_def my_reclaim_set_def my_requeue_set_def

definition my_row_ok :: "string msg_row \<Rightarrow> bool" where
  "my_row_ok r \<longleftrightarrow>
     m_status r \<noteq> StatusFailed \<and>
     (m_status r = StatusHandling \<longrightarrow> m_claimed_by r \<noteq> None \<and> m_claimed_until r \<noteq> None) \<and>
     (m_status r = StatusCreated \<or> m_status r = StatusRetrying \<longrightarrow> m_claimed_by r = None \<and> m_claimed_until r = None) \<and>
     (m_completed_at r \<noteq> None \<longleftrightarrow> Terminal (m_status r)) \<and>
     0 \<le> m_attempt r \<and>
     (m_status r = StatusCreated \<longrightarrow> m_attempt r = 0) \<and>
     (m_status r = StatusHandling \<or> Terminal (m_status r) \<longrightarrow> 1 \<le> m_attempt r) \<and>
     1 \<le> m_max_attempts r \<and> 0 \<le> m_shard r \<and> m_shard r < 16 \<and> m_idempotency_key r \<noteq> Some ''''"

lemma my_row_step_ok: "my_row_step r r' \<Longrightarrow> my_row_ok r \<Longrightarrow> my_row_ok r'"
  by (induction rule: my_row_step.induct) (auto simp: my_row_ok_def my_set_defs)

lemma my_row_step_same: "my_row_step r r' \<Longrightarrow> same_message r r'"
  by (induction rule: my_row_step.induct) (auto simp: my_set_defs same_message_def)

section \<open>Invariant\<close>

text \<open>Rows and history entries with their text columns replaced by the comparison keys.\<close>

definition keyed :: "(string \<Rightarrow> string) \<Rightarrow> string msg_row \<Rightarrow> string msg_row" where
  "keyed coll r = r\<lparr>m_id := coll (m_id r), m_event_type := coll (m_event_type r),
     m_idempotency_key := map_option coll (m_idempotency_key r)\<rparr>"

definition keyed_hist :: "(string \<Rightarrow> string) \<Rightarrow> string hist_row \<Rightarrow> string hist_row" where
  "keyed_hist coll h = h\<lparr>h_message_id := coll (h_message_id h)\<rparr>"

lemma keyed_sel [simp]:
  "m_id (keyed coll r) = coll (m_id r)" "m_event_type (keyed coll r) = coll (m_event_type r)"
  "m_idempotency_key (keyed coll r) = map_option coll (m_idempotency_key r)"
  "h_message_id (keyed_hist coll h) = coll (h_message_id h)" "h_seq (keyed_hist coll h) = h_seq h"
  by (simp_all add: keyed_def keyed_hist_def)

definition my_db_ok :: "(string \<Rightarrow> string) \<Rightarrow> my_db \<Rightarrow> bool" where
  "my_db_ok coll db \<longleftrightarrow>
     distinct (map (\<lambda>r. coll (m_id r)) (messages db @ staged db)) \<and>
     idem_unique (map (keyed coll) (messages db @ staged db)) \<and>
     (\<forall>r\<in>set (messages db @ staged db). my_row_ok r) \<and>
     (\<forall>r\<in>set (staged db). m_status r = StatusCreated) \<and>
     hist_ok (map (keyed_hist coll) (history db))"

lemma my_db_ok_distinct:
  assumes "my_db_ok coll db"
  shows "distinct (map (\<lambda>r. coll (m_id r)) (messages db))" "distinct (map m_id (messages db))"
proof -
  show d: "distinct (map (\<lambda>r. coll (m_id r)) (messages db))" using assms by (simp add: my_db_ok_def)
  then show "distinct (map m_id (messages db))" unfolding distinct_map by (auto simp: inj_on_def)
qed

definition my_grows :: "(string \<Rightarrow> string) \<Rightarrow> my_db \<Rightarrow> my_db \<Rightarrow> bool" where
  "my_grows coll db db' \<longleftrightarrow> (\<exists>hs. history db' = history db @ hs) \<and>
     (hist_ok (map (keyed_hist coll) (history db)) \<longrightarrow> hist_ok (map (keyed_hist coll) (history db')))"

lemma my_grows_same: "history db' = history db \<Longrightarrow> my_grows coll db db'"
  by (simp add: my_grows_def)

lemma my_grows_trans: "my_grows coll a b \<Longrightarrow> my_grows coll b c \<Longrightarrow> my_grows coll a c"
  by (auto simp: my_grows_def)

lemma my_next_seq_keyed: "my_next_seq coll mid hist = next_seq (coll mid) (map (keyed_hist coll) hist)"
  by (simp add: my_next_seq_def next_seq_def filter_map o_def)

lemma my_appendHistory_grows: "my_grows coll db (my_appendHistory coll e k ident from to att errStr w db)"
proof (cases "applied (env_reply e k)")
  case True
  have "hist_ok (map (keyed_hist coll) (history db) @
      [keyed_hist coll (mk_hist ident (my_next_seq coll ident (history db)) f t a er wk tm)])"
    if "hist_ok (map (keyed_hist coll) (history db))" for f t a er wk tm
    using that by (rule hist_ok_append_next) (simp add: my_next_seq_keyed)
  with True show ?thesis by (simp add: my_grows_def my_appendHistory_def run_stmt_def)
qed (simp add: my_grows_def my_appendHistory_def run_stmt_def)

lemma my_appendHistory_sel [simp]:
  "messages (my_appendHistory coll e k ident from to att errStr w db) = messages db"
  "staged (my_appendHistory coll e k ident from to att errStr w db) = staged db"
  "notified (my_appendHistory coll e k ident from to att errStr w db) = notified db"
  "staged_notified (my_appendHistory coll e k ident from to att errStr w db) = staged_notified db"
  by (simp_all add: my_appendHistory_def run_stmt_def)

lemma my_claim_history_rows [simp]:
  "messages (my_claim_history coll e k w ms db) = messages db \<and>
   staged (my_claim_history coll e k w ms db) = staged db \<and>
   notified (my_claim_history coll e k w ms db) = notified db \<and>
   staged_notified (my_claim_history coll e k w ms db) = staged_notified db"
  by (induction ms arbitrary: k db) simp_all

lemma my_claim_history_grows: "my_grows coll db (my_claim_history coll e k w ms db)"
  by (induction ms arbitrary: k db) (auto simp: my_grows_same intro: my_grows_trans [OF my_appendHistory_grows])

text \<open>A method that acts row by row and only adds to the history keeps the invariant.\<close>

definition my_effect :: "(string \<Rightarrow> string) \<Rightarrow> my_db \<Rightarrow> my_db \<Rightarrow> bool" where
  "my_effect coll db db' \<longleftrightarrow> rowwise my_row_step db db' \<and> my_grows coll db db'"

lemma my_effect_refl [simp]: "my_effect coll db db"
  by (simp add: my_effect_def my_grows_same rowwise_refl my_same)

lemma rowwise_keyed:
  assumes "list_all2 my_row_step rows rows'"
  shows "list_all2 same_message (map (keyed coll) rows) (map (keyed coll) rows')"
    "map (\<lambda>r. coll (m_id r)) rows' = map (\<lambda>r. coll (m_id r)) rows"
proof -
  have "same_message (keyed coll r) (keyed coll r') \<and> m_id r' = m_id r" if "my_row_step r r'" for r r'
    using my_row_step_same [OF that] by (simp add: same_message_def keyed_def)
  with assms show "list_all2 same_message (map (keyed coll) rows) (map (keyed coll) rows')"
    "map (\<lambda>r. coll (m_id r)) rows' = map (\<lambda>r. coll (m_id r)) rows"
    by (induction rule: list_all2_induct) auto
qed

lemma list_all2_in_set_right: "y \<in> set ys \<Longrightarrow> list_all2 R xs ys \<Longrightarrow> \<exists>x\<in>set xs. R x y"
  by (metis in_set_conv_nth list_all2_conv_all_nth)

lemma my_effect_ok:
  assumes "my_db_ok coll db" "my_effect coll db db'"
  shows "my_db_ok coll db'"
proof -
  have l: "list_all2 my_row_step (messages db) (messages db')" and st: "staged db' = staged db"
    using assms(2) by (simp_all add: my_effect_def rowwise_def)
  have "\<forall>r\<in>set (messages db'). my_row_ok r"
    using assms(1) by (auto simp: my_db_ok_def dest!: list_all2_in_set_right [OF _ l] intro: my_row_step_ok)
  moreover have "idem_unique (map (keyed coll) (messages db') @ map (keyed coll) (staged db)) =
      idem_unique (map (keyed coll) (messages db) @ map (keyed coll) (staged db))"
    by (rule idem_unique_rowwise [OF rowwise_keyed(1) [OF l]])
  ultimately show ?thesis
    using assms rowwise_keyed(2) [OF l, of coll] by (auto simp: my_db_ok_def my_effect_def my_grows_def st simp flip: set_map)
qed

section \<open>Each method\<close>

lemma my_completion_effect:
  assumes "\<And>r. guard r \<Longrightarrow> my_row_step r (upd r)"
    and "\<And>db. rowwise my_row_step db (hist db) \<and> messages (hist db) = messages db \<and> my_grows coll db (hist db)"
  shows "my_effect coll db (fst (my_completion e wb wu guard upd hist db))"
proof -
  let ?db1 = "db\<lparr>messages := sql_update guard upd (messages db)\<rparr>"
  have "rowwise my_row_step db ?db1" by (rule rowwise_update(1)) (auto intro: my_same assms(1))
  moreover have "rowwise my_row_step db (hist ?db1) = rowwise my_row_step db ?db1"
    using assms(2) [of ?db1] by (auto simp: rowwise_def)
  moreover have "my_grows coll db ?db1" by (simp add: my_grows_same)
  ultimately have "my_effect coll db (hist ?db1)"
    using assms(2) [of ?db1] by (auto simp: my_effect_def intro: my_grows_trans)
  then show ?thesis by (auto simp: my_completion_def my_commit_def run_stmt_def split: option.splits)
qed

lemma my_history_part:
  "rowwise my_row_step db (my_appendHistory coll e k ident from to att errStr w db) \<and>
   messages (my_appendHistory coll e k ident from to att errStr w db) = messages db \<and>
   my_grows coll db (my_appendHistory coll e k ident from to att errStr w db)"
  by (simp add: rowwise_def list.rel_refl my_same my_appendHistory_grows)

lemma my_Succeed_effect: "my_effect coll db (fst (my_Succeed coll e ident att w db))"
  unfolding my_Succeed_def by (rule my_completion_effect [OF _ my_history_part]) (auto simp: my_holds_def intro: my_succeed)

lemma my_Fail_effect: "my_effect coll db (fst (my_Fail coll e p db))"
  unfolding my_Fail_def
  by (cases "fp_Dead p"; simp only: if_True if_False; rule my_completion_effect [OF _ my_history_part])
     (auto simp: my_holds_def intro: my_dead my_retry)

lemma my_ReleaseShutdown_effect: "my_effect coll db (fst (my_ReleaseShutdown coll e ident att w reason db))"
  unfolding my_ReleaseShutdown_def
  by (rule my_completion_effect [OF _ my_history_part]) (auto simp: my_holds_def intro: my_release)

lemma my_Requeue_effect: "my_effect coll db (fst (my_Requeue coll e ident t db))"
  unfolding my_Requeue_def by (rule my_completion_effect [OF _ my_history_part]) (auto intro: my_requeue)

lemma my_Extend_effect: "my_effect coll db (fst (my_Extend coll e ident w until db))"
  by (auto simp: my_Extend_def Let_def run_stmt_def my_effect_def my_holds_def my_grows_same intro!: rowwise_update rowwise_refl
      my_row_step.intros split: option.splits)

definition my_succeed_once :: "time \<Rightarrow> string msg_row \<Rightarrow> string msg_row \<Rightarrow> bool" where
  "my_succeed_once now r r' \<longleftrightarrow> r' = r \<or> m_status r = StatusHandling \<and> r' = my_succeed_set now r"

lemma my_succeed_once_transp: "transp (my_succeed_once now)"
  by (auto simp: transp_def my_succeed_once_def my_succeed_set_def)

lemma my_batch_updates_once:
  assumes "my_batch_updates coll e k ps db = (db', err)"
  shows "rowwise (my_succeed_once (env_now e)) db db' \<and> my_grows coll db db'"
  using assms
proof (induction ps arbitrary: k db)
  case Nil
  then show ?case by (auto simp: my_grows_same my_succeed_once_def intro: rowwise_refl)
next
  case (Cons p ps)
  let ?R = "my_succeed_once (env_now e)"
  let ?db1 = "db\<lparr>messages := sql_update (my_holds_attempt coll (bs_MessageID p) (bs_Attempt p)) (my_succeed_set (env_now e)) (messages db)\<rparr>"
  let ?db2 = "my_appendHistory coll e (k + 1) (bs_MessageID p) StatusHandling StatusSuccess (bs_Attempt p) '''' (bs_WorkerID p) ?db1"
  have "rowwise ?R db ?db1" by (rule rowwise_update(1)) (auto simp: my_succeed_once_def my_holds_attempt_def)
  then have 2: "rowwise ?R db ?db2" by (simp add: rowwise_def)
  have g: "my_grows coll db ?db2" using my_grows_trans [OF my_grows_same my_appendHistory_grows, of ?db1 db] by simp
  show ?case
  proof (cases "reply_err (env_reply e k)")
    case None
    with Cons.prems have "my_batch_updates coll e (k + 2) ps ?db2 = (db', err)" by simp
    from Cons.IH [OF this] show ?thesis
      using rowwise_trans [OF my_succeed_once_transp 2] my_grows_trans [OF g] by blast
  next
    case (Some er)
    with Cons.prems show ?thesis by (auto simp: my_grows_same my_succeed_once_def intro: rowwise_refl)
  qed
qed

lemma my_BatchSucceed_effect: "my_effect coll db (fst (my_BatchSucceed coll e ps db))"
proof -
  obtain db' err where u: "my_batch_updates coll e 2 ps db = (db', err)" by force
  have "rowwise my_row_step db db'"
    by (rule rowwise_mono [OF conjunct1 [OF my_batch_updates_once [OF u]]]) (auto simp: my_succeed_once_def intro: my_same my_succeed)
  then have "my_effect coll db db'" using my_batch_updates_once [OF u] by (simp add: my_effect_def)
  with u show ?thesis by (auto simp: my_BatchSucceed_def my_commit_def run_stmt_def split: option.splits)
qed

lemma my_claim_ids_in: "i \<in> set (my_claim_ids coll e ets batch shard db) \<Longrightarrow>
   \<exists>r\<in>set (messages db). m_id r = i \<and> my_claim_eligible coll e ets shard r \<and> \<not> env_locked e i"
  using set_order_limit [of "\<lambda>r. (m_process_at r, coll (m_id r))" batch
      "filter (\<lambda>r. my_claim_eligible coll e ets shard r \<and> \<not> env_locked e (m_id r)) (messages db)"]
  by (auto simp: my_claim_ids_def)

lemma id_in_claim_ids:
  assumes "distinct (map (\<lambda>r. coll (m_id r)) (messages db))" "r \<in> set (messages db)" "id_in coll (my_claim_ids coll e ets batch shard db) r"
  shows "my_claim_eligible coll e ets shard r \<and> m_id r \<in> set (my_claim_ids coll e ets batch shard db)"
proof -
  obtain i where i: "i \<in> set (my_claim_ids coll e ets batch shard db)" "coll (m_id r) = coll i" using assms(3) by (auto simp: id_in_def)
  from my_claim_ids_in [OF i(1)] obtain r' where r': "r' \<in> set (messages db)" "m_id r' = i" "my_claim_eligible coll e ets shard r'" by blast
  have "inj_on (\<lambda>r. coll (m_id r)) (set (messages db))" using assms(1) by (simp add: distinct_map)
  then have "r' = r" by (rule inj_onD) (use r' i(2) assms(2) in simp_all)
  with r' i(1) show ?thesis by simp
qed

lemma my_claim_update_effect:
  assumes "distinct (map (\<lambda>r. coll (m_id r)) (messages db))"
  shows "my_effect coll db (fst (my_claim_update coll e p (my_claim_ids coll e ets batch shard db) db))"
proof -
  let ?ids = "my_claim_ids coll e ets batch shard db"
  let ?db1 = "db\<lparr>messages := sql_update (id_in coll ?ids) (my_claim_set e (cp_WorkerID p) (cp_Lease p)) (messages db)\<rparr>"
  have "rowwise my_row_step db ?db1"
    by (rule rowwise_update(1)) (auto simp: my_claim_eligible_def intro: my_same my_claim dest!: id_in_claim_ids [OF assms])
  then have "my_effect coll db (my_claim_history coll e 6 w out ?db1)" for w out
    using my_grows_trans [OF my_grows_same my_claim_history_grows, of ?db1 db] by (simp add: my_effect_def rowwise_def)
  then show ?thesis
    by (auto simp: my_claim_update_def my_commit_def run_stmt_def Let_def split: option.splits exec_reply.splits)
qed

lemma my_Claim_effect:
  assumes "my_db_ok coll db"
  shows "my_effect coll db (fst (my_Claim coll e p db))"
  using my_claim_update_effect [OF my_db_ok_distinct(1) [OF assms]]
  by (auto simp: my_Claim_def selectClaimIDs_def my_commit_def run_stmt_def Let_def split: option.splits sum.splits exec_reply.splits)

definition my_reclaim_ids :: "my_env \<Rightarrow> int \<Rightarrow> my_db \<Rightarrow> string list" where
  "my_reclaim_ids e limit db =
     env_choice e (nat (if limit \<le> 0 then 500 else limit)) (map m_id (filter (lease_expired (env_now e)) (messages db)))"

lemma my_ReclaimExpired_db:
  "fst (my_ReclaimExpired e n db) \<in> {db, db\<lparr>messages := sql_update (\<lambda>r. m_id r \<in> set (my_reclaim_ids e n db))
     (my_reclaim_set (env_now e)) (messages db)\<rparr>}"
  by (simp add: my_ReclaimExpired_def my_reclaim_ids_def Let_def run_stmt_def split: option.split)

lemma chosen_ids:
  assumes "limit_choice ch" "distinct (map m_id rows)" "r \<in> set rows" "m_id r \<in> set (ch n (map m_id (filter p rows)))"
  shows "p r"
proof -
  from subsetD [OF limit_choiceD(1) [OF assms(1)] assms(4)] obtain r' where "r' \<in> set rows" "m_id r' = m_id r" "p r'"
    by fastforce
  moreover from this assms(2,3) have "r' = r" by (metis distinct_map inj_onD)
  ultimately show ?thesis by simp
qed

lemma my_ReclaimExpired_effect:
  assumes "my_db_ok coll db" "limit_choice (env_choice e)"
  shows "my_effect coll db (fst (my_ReclaimExpired e n db))"
proof -
  let ?db' = "db\<lparr>messages := sql_update (\<lambda>r. m_id r \<in> set (my_reclaim_ids e n db)) (my_reclaim_set (env_now e)) (messages db)\<rparr>"
  have "m_status r = StatusHandling" if "r \<in> set (messages db)" "m_id r \<in> set (my_reclaim_ids e n db)" for r
    using chosen_ids [OF assms(2) my_db_ok_distinct(2) [OF assms(1)] that [unfolded my_reclaim_ids_def]] by (simp add: lease_expired_def)
  then have "rowwise my_row_step db ?db'" by (intro rowwise_update(1)) (auto intro: my_same my_reclaim)
  then have "my_effect coll db ?db'" by (simp add: my_effect_def my_grows_same)
  with my_ReclaimExpired_db [of e n db] show ?thesis by auto
qed

section \<open>Inserts, deletes, commit and rollback\<close>

text \<open>An insert on the pool that meets an uncommitted row of the caller's transaction waits for it.\<close>

definition my_insert_waits :: "(string \<Rightarrow> string) \<Rightarrow> querier \<Rightarrow> string msg_row \<Rightarrow> my_db \<Rightarrow> bool" where
  "my_insert_waits coll q r db \<longleftrightarrow> q = PoolQuerier \<and> list_ex (my_clash coll r) (staged db)"

lemma my_enqueue_row_ok: "my_row_ok (my_enqueue_row e k p) \<and> m_status (my_enqueue_row e k p) = StatusCreated"
  using pickShard_range [of e k] by (simp add: my_row_ok_def my_enqueue_row_def NULLIF_empty_def)

lemma my_Enqueue_db: "fst (my_Enqueue coll e k tx p db) = fst (my_insert coll (env_reply e (3 * k)) (my_execer tx) (my_enqueue_row e k p) db)"
  by (simp add: my_Enqueue_def Let_def split: prod.split option.split)

lemma my_insert_cases:
  obtains "fst (my_insert coll rep q r db) = db"
  | "fst (my_insert coll rep q r db) = q_insert q r db" "\<not> list_ex (my_clash coll r) (q_rows q db)" "applied rep"
  by (cases "applied rep \<and> \<not> list_ex (my_clash coll r) (q_rows q db)") (auto simp: my_insert_def)

lemma keyed_snoc:
  assumes "\<not> list_ex (my_clash coll r) rows"
  shows "coll (m_id r) \<notin> (\<lambda>r. coll (m_id r)) ` set rows"
    "idem_unique (map (keyed coll) rows) \<Longrightarrow> idem_unique (map (keyed coll) (rows @ [r]))"
proof -
  show "coll (m_id r) \<notin> (\<lambda>r. coll (m_id r)) ` set rows" using assms by (auto simp: my_clash_def list_ex_iff)
  show "idem_unique (map (keyed coll) (rows @ [r]))" if "idem_unique (map (keyed coll) rows)"
    unfolding map_append list.map idem_unique_snoc using that assms by (auto simp: my_clash_def list_ex_iff)
qed

lemma my_q_insert_ok:
  assumes "my_db_ok coll db" "\<not> list_ex (my_clash coll r) (q_rows q db)" "\<not> my_insert_waits coll q r db"
    "my_row_ok r" "m_status r = StatusCreated"
  shows "my_db_ok coll (q_insert q r db)"
proof -
  let ?all = "messages db @ staged db" and ?db' = "q_insert q r db"
  have perm: "mset (messages ?db' @ staged ?db') = mset (?all @ [r])"
    and sets: "set (messages ?db' @ staged ?db') = insert r (set ?all)"
    by (cases q; simp add: q_insert_def)+
  have nc: "\<not> list_ex (my_clash coll r) ?all"
    using assms(2,3) by (cases q) (auto simp: q_rows_def my_insert_waits_def)
  have "distinct (map (\<lambda>r. coll (m_id r)) (?all @ [r]))"
    using assms(1) keyed_snoc(1) [OF nc] by (auto simp: my_db_ok_def)
  moreover have "mset (map (\<lambda>r. coll (m_id r)) (messages ?db' @ staged ?db')) = mset (map (\<lambda>r. coll (m_id r)) (?all @ [r]))"
    using perm by (simp only: mset_map)
  ultimately have 1: "distinct (map (\<lambda>r. coll (m_id r)) (messages ?db' @ staged ?db'))" by (metis mset_eq_imp_distinct_iff)
  have "mset (map (keyed coll) (messages ?db' @ staged ?db')) = mset (map (keyed coll) (?all @ [r]))"
    using perm by (simp only: mset_map)
  from idem_unique_perm [OF this] keyed_snoc(2) [OF nc] assms(1)
  have 2: "idem_unique (map (keyed coll) (messages ?db' @ staged ?db'))" by (simp only: my_db_ok_def)
  have 3: "\<forall>x\<in>set (messages ?db' @ staged ?db'). my_row_ok x" unfolding sets using assms(1,4) by (simp add: my_db_ok_def)
  have "\<forall>x\<in>set (staged ?db'). m_status x = StatusCreated" "history ?db' = history db"
    using assms(1,5) by (cases q; auto simp: q_insert_def my_db_ok_def)+
  with 1 2 3 assms(1) show ?thesis unfolding my_db_ok_def by simp
qed

lemma my_Enqueue_ok:
  assumes "my_db_ok coll db" "\<not> my_insert_waits coll (my_execer tx) (my_enqueue_row e k p) db"
  shows "my_db_ok coll (fst (my_Enqueue coll e k tx p db))"
  unfolding my_Enqueue_db
  by (cases rule: my_insert_cases [of coll "env_reply e (3 * k)" "my_execer tx" "my_enqueue_row e k p" db])
     (use assms my_enqueue_row_ok [of e k p] my_q_insert_ok in simp_all)

lemma my_Enqueue_waits:
  "my_insert_waits coll (my_execer tx) r (fst (my_Enqueue coll e k tx p db)) = my_insert_waits coll (my_execer tx) r db"
  unfolding my_Enqueue_db
  by (cases rule: my_insert_cases [of coll "env_reply e (3 * k)" "my_execer tx" "my_enqueue_row e k p" db];
      cases "my_execer tx") (simp_all add: my_insert_waits_def q_insert_def)

lemma my_EnqueueBatch_Cons_db:
  "fst (my_EnqueueBatch coll e k tx (p # ps) db) = fst (my_EnqueueBatch coll e (Suc k) tx ps (fst (my_Enqueue coll e k tx p db)))"
  by (simp add: split_beta)

lemma my_EnqueueBatch_ok:
  assumes "my_db_ok coll db" "\<forall>(i, p)\<in>set (enumerate k ps). \<not> my_insert_waits coll (my_execer tx) (my_enqueue_row e i p) db"
  shows "my_db_ok coll (fst (my_EnqueueBatch coll e k tx ps db))"
  using assms
proof (induction ps arbitrary: k db)
  case (Cons p ps)
  show ?case
    unfolding my_EnqueueBatch_Cons_db
    by (rule Cons.IH) (use Cons.prems my_Enqueue_ok in \<open>simp_all add: my_Enqueue_waits\<close>)
qed simp

lemma my_PurgeTerminal_db:
  "fst (my_PurgeTerminal e t n db) \<in> {db, db\<lparr>messages := sql_delete (\<lambda>r. m_id r \<in> set (env_choice e (nat (if n \<le> 0 then 5000 else n))
     (map m_id (filter (purge_match t) (messages db))))) (messages db)\<rparr>}"
  by (simp add: my_PurgeTerminal_def Let_def run_stmt_def split: option.split)

lemma keyed_delete: "idem_unique (map (keyed coll) rows) \<Longrightarrow> idem_unique (map (keyed coll) (filter p rows))"
proof (induction rows)
  case (Cons r rows)
  then show ?case
    using idem_unique_append [of "[keyed coll r]" "map (keyed coll) rows"]
      idem_unique_append [of "[keyed coll r]" "map (keyed coll) (filter p rows)"] by auto
qed simp

lemma my_PurgeTerminal_ok:
  assumes "my_db_ok coll db"
  shows "my_db_ok coll (fst (my_PurgeTerminal e t n db))"
proof -
  have "my_db_ok coll (db\<lparr>messages := sql_delete p (messages db)\<rparr>)" for p
    using assms by (auto simp: my_db_ok_def idem_unique_append keyed_delete sql_delete_def distinct_map_filter)
  with assms my_PurgeTerminal_db [of e t n db] show ?thesis by auto
qed

lemma my_PurgeHistory_ok:
  assumes "my_db_ok coll db"
  shows "my_db_ok coll (fst (my_PurgeHistory e t n db))"
proof -
  have "hist_ok (map (keyed_hist coll) (sql_delete p (history db)))" for p
    using assms by (simp add: my_db_ok_def hist_ok_def sql_delete_def distinct_map_filter)
  with assms show ?thesis
    by (auto simp: my_PurgeHistory_def Let_def run_stmt_def my_db_ok_def split: option.splits)
qed

lemma my_tx_ok:
  "my_db_ok coll db \<Longrightarrow> my_db_ok coll (tx_commit db)" "my_db_ok coll db \<Longrightarrow> my_db_ok coll (tx_rollback db)"
  by (auto simp: my_db_ok_def tx_commit_def tx_rollback_def dest: idem_unique_appendD)

section \<open>The step relation\<close>

inductive my_step :: "(string \<Rightarrow> string) \<Rightarrow> my_db \<Rightarrow> my_db \<Rightarrow> bool" for coll where
  my_step_Enqueue: "\<not> my_insert_waits coll (my_execer tx) (my_enqueue_row e 0 p) db \<Longrightarrow>
    my_step coll db (fst (my_Enqueue coll e 0 tx p db))"
| my_step_EnqueueBatch: "\<forall>(i, p)\<in>set (enumerate 0 ps). \<not> my_insert_waits coll (my_execer tx) (my_enqueue_row e i p) db \<Longrightarrow>
    my_step coll db (fst (my_EnqueueBatch coll e 0 tx ps db))"
| my_step_Claim: "my_step coll db (fst (my_Claim coll e cp db))"
| my_step_Succeed: "my_step coll db (fst (my_Succeed coll e ident att w db))"
| my_step_BatchSucceed: "my_step coll db (fst (my_BatchSucceed coll e bs db))"
| my_step_Fail: "my_step coll db (fst (my_Fail coll e fp db))"
| my_step_ReleaseShutdown: "my_step coll db (fst (my_ReleaseShutdown coll e ident att w reason db))"
| my_step_Extend: "my_step coll db (fst (my_Extend coll e ident w until db))"
| my_step_Requeue: "my_step coll db (fst (my_Requeue coll e ident t db))"
| my_step_ReclaimExpired: "limit_choice (env_choice e) \<Longrightarrow> my_step coll db (fst (my_ReclaimExpired e n db))"
| my_step_PurgeTerminal: "limit_choice (env_choice e) \<Longrightarrow> my_step coll db (fst (my_PurgeTerminal e t n db))"
| my_step_PurgeHistory: "my_step coll db (fst (my_PurgeHistory e t n db))"
| my_step_commit: "my_step coll db (tx_commit db)"
| my_step_rollback: "my_step coll db (tx_rollback db)"

inductive my_reachable :: "(string \<Rightarrow> string) \<Rightarrow> my_db \<Rightarrow> bool" for coll where
  my_reach_init: "my_reachable coll empty_db"
| my_reach_step: "my_reachable coll db \<Longrightarrow> my_step coll db db' \<Longrightarrow> my_reachable coll db'"

lemmas my_effects = my_Claim_effect my_Succeed_effect my_BatchSucceed_effect my_Fail_effect my_ReleaseShutdown_effect
  my_Extend_effect my_Requeue_effect my_ReclaimExpired_effect

lemma my_step_ok:
  assumes "my_step coll db db'" "my_db_ok coll db"
  shows "my_db_ok coll db'"
  using assms(1) by cases
    (use assms(2) in \<open>auto intro: my_effect_ok [OF assms(2)] my_effects my_Enqueue_ok my_EnqueueBatch_ok my_PurgeTerminal_ok
       my_PurgeHistory_ok my_tx_ok\<close>)

lemma my_reachable_ok: "my_reachable coll db \<Longrightarrow> my_db_ok coll db"
proof (induction rule: my_reachable.induct)
  case my_reach_init
  show ?case by (simp add: my_db_ok_def empty_db_def idem_unique_def hist_ok_def)
qed (rule my_step_ok)

text \<open>What a step does to one message.\<close>

lemma my_Enqueue_appended: "appended db (fst (my_Enqueue coll e k tx p db))"
  unfolding my_Enqueue_db
  by (cases rule: my_insert_cases [of coll "env_reply e (3 * k)" "my_execer tx" "my_enqueue_row e k p" db])
     (simp_all add: appended_same q_insert_appended my_enqueue_row_ok)

lemma my_EnqueueBatch_appended: "appended db (fst (my_EnqueueBatch coll e k tx ps db))"
proof (induction ps arbitrary: k db)
  case (Cons p ps)
  show ?case unfolding my_EnqueueBatch_Cons_db by (rule appended_trans [OF my_Enqueue_appended Cons.IH])
qed (simp add: appended_same)

lemma my_purge_row:
  assumes "my_db_ok coll db" "limit_choice (env_choice e)" "row_by m_id i (messages db) = Some r"
  shows "row_by m_id i (messages (fst (my_PurgeTerminal e t n db))) = Some r \<or>
    row_by m_id i (messages (fst (my_PurgeTerminal e t n db))) = None \<and> Terminal (m_status r)"
proof -
  note d = my_db_ok_distinct(2) [OF assms(1)]
  have "Terminal (m_status r)" if "m_id r \<in> set (env_choice e k (map m_id (filter (purge_match t) (messages db))))" for k
    using chosen_ids [OF assms(2) d _ that] row_by_Some_in [OF assms(3)] by (auto simp: purge_match_def)
  then have del: "row_by m_id i (sql_delete (\<lambda>r. m_id r \<in> set (env_choice e k (map m_id (filter (purge_match t) (messages db))))) (messages db)) = Some r \<or>
      row_by m_id i (sql_delete (\<lambda>r. m_id r \<in> set (env_choice e k (map m_id (filter (purge_match t) (messages db))))) (messages db)) = None \<and> Terminal (m_status r)" for k
    unfolding row_by_delete [OF d] assms(3) by simp
  have "messages (fst (my_PurgeTerminal e t n db)) = messages db \<or> (\<exists>k. messages (fst (my_PurgeTerminal e t n db)) =
      sql_delete (\<lambda>r. m_id r \<in> set (env_choice e k (map m_id (filter (purge_match t) (messages db))))) (messages db))"
    using my_PurgeTerminal_db [of e t n db] by (elim insertE emptyE) auto
  then show ?thesis using assms(3) del by (elim disjE exE) (simp_all only:, simp)
qed

end
