(* ===== verification/Lifecycle.thy ===== *)
theory Lifecycle
  imports Pg_Storage My_Machine
begin

text \<open>
  The lifecycle that ARCHITECTURE.md promises for one message, as an abstract specification
  without tables, clocks or drivers, and the proof that the PostgreSQL and the MySQL adapter
  refine it: seen through any one identifier, every step of an adapter is a step of the
  lifecycle. What holds of the lifecycle is proved once and read off for both.
\<close>

section \<open>The specification\<close>

inductive life_step :: "lease option \<Rightarrow> lease option \<Rightarrow> bool" where
  life_stutter: "life_step l l"
| life_enqueue: "life_step None (Some \<lparr>ls_status = StatusCreated, ls_attempt = 0, ls_worker = None, ls_due = due\<rparr>)"
| life_claim: "ls_status l = StatusCreated \<or> ls_status l = StatusRetrying \<Longrightarrow>
    life_step (Some l) (Some (l\<lparr>ls_status := StatusHandling, ls_attempt := ls_attempt l + 1, ls_worker := Some wk\<rparr>))"
| life_succeed: "ls_status l = StatusHandling \<Longrightarrow>
    life_step (Some l) (Some (l\<lparr>ls_status := StatusSuccess, ls_worker := None\<rparr>))"
| life_retry: "ls_status l = StatusHandling \<Longrightarrow>
    life_step (Some l) (Some (l\<lparr>ls_status := StatusRetrying, ls_worker := None, ls_due := due\<rparr>))"
| life_dead: "ls_status l = StatusHandling \<Longrightarrow>
    life_step (Some l) (Some (l\<lparr>ls_status := StatusDead, ls_worker := None\<rparr>))"
| life_release: "ls_status l = StatusHandling \<Longrightarrow> st = StatusRetrying \<or> st = StatusCreated \<and> ls_attempt l = 1 \<Longrightarrow>
    life_step (Some l) (Some (l\<lparr>ls_status := st, ls_attempt := ls_attempt l - 1, ls_worker := None, ls_due := due\<rparr>))"
| life_requeue: "ls_status l = StatusDead \<Longrightarrow>
    life_step (Some l) (Some (l\<lparr>ls_status := StatusCreated, ls_attempt := 0, ls_due := due\<rparr>))"
| life_purge: "Terminal (ls_status l) \<Longrightarrow> life_step (Some l) None"

inductive_cases life_step_SomeE: "life_step (Some l) l'"
inductive_cases life_step_NoneE: "life_step None l'"

text \<open>The states of a message the lifecycle reaches.\<close>

definition life_ok :: "lease option \<Rightarrow> bool" where
  "life_ok l \<longleftrightarrow> (case l of None \<Rightarrow> True | Some l \<Rightarrow>
     ls_status l \<noteq> StatusFailed \<and> (ls_worker l \<noteq> None \<longleftrightarrow> ls_status l = StatusHandling) \<and> 0 \<le> ls_attempt l \<and>
     (ls_status l = StatusCreated \<longrightarrow> ls_attempt l = 0) \<and>
     (ls_status l = StatusHandling \<or> Terminal (ls_status l) \<longrightarrow> 1 \<le> ls_attempt l))"

lemma life_step_ok: "life_step l l' \<Longrightarrow> life_ok l \<Longrightarrow> life_ok l'"
  by (induction rule: life_step.induct) (auto simp: life_ok_def)

text \<open>A finished delivery: SUCCESS is left only by the purge, which needs no step in between.\<close>

lemma life_success_final: "life_step l l' \<Longrightarrow> map_option ls_status l = Some StatusSuccess \<Longrightarrow> l' = l \<or> l' = None"
  by (erule life_step.cases) auto

text \<open>The attempt counter rises by claims alone, and by one.\<close>

lemma life_attempt: "life_step (Some l) (Some l') \<Longrightarrow> life_ok (Some l) \<Longrightarrow>
    ls_attempt l' \<le> ls_attempt l \<or> ls_attempt l' = ls_attempt l + 1 \<and> ls_status l \<noteq> StatusHandling \<and> ls_status l' = StatusHandling"
  by (erule life_step.cases) (auto simp: life_ok_def)

section \<open>Implementations\<close>

locale lifecycle_impl =
  fixes step :: "'s \<Rightarrow> 's \<Rightarrow> bool" and ok :: "'s \<Rightarrow> bool" and life :: "'s \<Rightarrow> 'k \<Rightarrow> lease option"
  assumes step_ok: "step s s' \<Longrightarrow> ok s \<Longrightarrow> ok s'"
    and life_ok: "ok s \<Longrightarrow> life_ok (life s k)"
    and simulates: "step s s' \<Longrightarrow> ok s \<Longrightarrow> life_step (life s k) (life s' k)"
begin

lemma run_ok: "step\<^sup>*\<^sup>* s s' \<Longrightarrow> ok s \<Longrightarrow> ok s'"
  by (induction rule: rtranclp_induct) (auto intro: step_ok)

lemma run_simulates: "step\<^sup>*\<^sup>* s s' \<Longrightarrow> ok s \<Longrightarrow> life_step\<^sup>*\<^sup>* (life s k) (life s' k)"
proof (induction rule: rtranclp_induct)
  case (step y z)
  from simulates [OF step.hyps(2) run_ok [OF step.hyps(1) step.prems]] step.IH [OF step.prems]
  show ?case by (rule rtranclp.rtrancl_into_rtrancl [rotated])
qed simp

end

text \<open>The message behind an identifier; the leaseholder of a row that is not HANDLING is not shown.\<close>

definition life_of :: "'i msg_row \<Rightarrow> lease" where
  "life_of r = \<lparr>ls_status = m_status r, ls_attempt = m_attempt r,
     ls_worker = (if m_status r = StatusHandling then m_claimed_by r else None), ls_due = m_process_at r\<rparr>"

definition life_in :: "'i db \<Rightarrow> 'i \<Rightarrow> lease option" where
  "life_in db i = map_option life_of (row_by m_id i (messages db))"

text \<open>A row that is new in a table is CREATED.\<close>

lemma row_by_new:
  assumes "row_by m_id i rows = None" "row_by m_id i (rows @ rs) = Some r"
  shows "r \<in> set rs"
  using assms row_by_Some_in [of m_id i rs r] by (simp add: row_simps)

lemma life_created: "m_status r = StatusCreated \<Longrightarrow> m_attempt r = 0 \<Longrightarrow> life_step None (Some (life_of r))"
  using life_enqueue [of "m_process_at r"] by (simp add: life_of_def)

lemma life_appended:
  assumes "appended db db'" "life_ok (life_in db' i)"
  shows "life_step (life_in db i) (life_in db' i)"
proof (cases "row_by m_id i (messages db)")
  case (Some r)
  then show ?thesis using row_by_append_Some [OF Some] assms(1) by (auto simp: life_in_def life_stutter appended_def)
next
  case None
  show ?thesis
  proof (cases "row_by m_id i (messages db')")
    case (Some r)
    then have "m_status r = StatusCreated" using assms(1) row_by_new [OF None] by (auto simp: appended_def)
    moreover from this assms(2) Some have "m_attempt r = 0" by (simp add: life_in_def life_ok_def life_of_def)
    ultimately show ?thesis using None Some by (simp add: life_in_def life_created)
  qed (use None in \<open>simp add: life_in_def life_stutter\<close>)
qed

section \<open>PostgreSQL\<close>

lemma row_step_life:
  assumes "row_step r r'" "row_ok r"
  shows "life_step (Some (life_of r)) (Some (life_of r'))"
  using assms(1)
proof cases
  case row_same then show ?thesis by (simp add: life_stutter)
next
  case (row_claim now w s)
  then show ?thesis using life_claim [of "life_of r" w] by (simp add: claim_set_def life_of_def)
next
  case (row_succeed now)
  then show ?thesis using life_succeed [of "life_of r"] by (simp add: succeed_set_def life_of_def)
next
  case (row_retry now er t)
  then show ?thesis using life_retry [of "life_of r" t] by (simp add: fail_retry_set_def life_of_def)
next
  case (row_dead now er)
  then show ?thesis using life_dead [of "life_of r"] by (simp add: fail_dead_set_def life_of_def)
next
  case (row_release now reason)
  moreover have "max 0 (m_attempt r - 1) = m_attempt r - 1" using assms(2) row_release by (simp add: row_ok_def)
  ultimately show ?thesis using life_release [of "life_of r" StatusRetrying now] by (simp add: release_set_def life_of_def)
next
  case (row_extend until now) then show ?thesis using life_stutter by (simp add: life_of_def)
next
  case (row_reclaim now)
  then show ?thesis using life_retry [of "life_of r" now] by (simp add: reclaim_set_def life_of_def)
next
  case (row_requeue now t)
  then show ?thesis using life_requeue [of "life_of r" t] by (simp add: requeue_set_def life_of_def)
qed

lemma row_ok_life: "row_ok r \<Longrightarrow> life_ok (Some (life_of r))"
  by (auto simp: row_ok_def life_ok_def life_of_def)

lemma life_in_ok: "(\<And>r. r \<in> set (messages db) \<Longrightarrow> life_ok (Some (life_of r))) \<Longrightarrow> life_ok (life_in db i)"
  by (cases "row_by m_id i (messages db)") (auto simp: life_in_def life_ok_def dest: row_by_Some_in)

text \<open>The rows a call changes one by one.\<close>

lemma rowwise_life:
  assumes "rowwise R db db'" "\<And>r r'. R r r' \<Longrightarrow> m_id r' = m_id r"
    and "\<And>r r'. R r r' \<Longrightarrow> r \<in> set (messages db) \<Longrightarrow> life_step (Some (life_of r)) (Some (life_of r'))"
  shows "life_step (life_in db i) (life_in db' i)"
proof (cases "row_by m_id i (messages db)")
  case None
  then show ?thesis using rowwise_lookup [OF assms(1,2), of i] by (simp add: life_in_def life_stutter)
next
  case (Some r)
  then obtain r' where "row_by m_id i (messages db') = Some r'" "R r r'"
    using rowwise_lookup [OF assms(1,2), of i] by (auto simp: option_rel_Some1)
  with Some row_by_Some_in [OF Some] assms(3) show ?thesis by (simp add: life_in_def)
qed

lemma pg_rowwise_life:
  assumes "db_ok s db" "rowwise row_step db db'"
  shows "life_step (life_in db i) (life_in db' i)"
  by (rule rowwise_life [OF assms(2)])
     (auto simp: same_message_def dest: row_step_same db_ok_row [OF assms(1)] intro: row_step_life)

lemma purged_life:
  assumes "row_by m_id i (messages db) = None \<Longrightarrow> row_by m_id i (messages db') = None"
    and "\<And>r. row_by m_id i (messages db) = Some r \<Longrightarrow> row_by m_id i (messages db') = Some r \<or>
      row_by m_id i (messages db') = None \<and> Terminal (m_status r)"
  shows "life_step (life_in db i) (life_in db' i)"
proof (cases "row_by m_id i (messages db)")
  case None
  with assms(1) show ?thesis by (simp add: life_in_def life_stutter)
next
  case (Some r)
  from assms(2) [OF this] Some life_purge [of "life_of r"] show ?thesis
    by (auto simp: life_in_def life_stutter life_of_def)
qed

lemma pg_simulates:
  assumes "pg_step s db db'" "db_ok s db"
  shows "life_step (life_in db i) (life_in db' i)"
proof -
  note d = db_ok_distinct [OF assms(2)] and rows = pg_rowwise_life [OF assms(2)]
  have "life_ok (life_in db' i)"
    using pg_step_db_ok [OF assms] by (intro life_in_ok row_ok_life) (rule db_ok_row)
  then have app: ?thesis if "appended db db'" using life_appended [OF that] by simp
  from assms(1) show ?thesis
  proof cases
    case (step_PurgeTerminal e t n)
    then show ?thesis using purge_row [OF d, of i _ e t n] pg_PurgeTerminal_db [of e t n db]
      by (intro purged_life) (auto simp: purge_match_def purgeSQL_def row_by_delete [OF d])
  next
    case (step_PurgeHistory e t n)
    then show ?thesis using app
      by (auto simp: pg_PurgeHistory_def purgeHistorySQL_def Let_def run_stmt_def appended_same split: option.splits if_splits)
  next
    case step_commit
    then show ?thesis using app assms(2) by (auto simp: tx_commit_def appended_def db_ok_def)
  next
    case step_rollback then show ?thesis using app by (simp add: tx_rollback_def appended_same)
  qed (use app pg_Enqueue_appended pg_EnqueueBatch_appended rows pg_Claim_rowwise [OF d]
      pg_ReclaimExpired_rowwise [OF _ d] rowwise_methods(2-7) in metis)+
qed

section \<open>MySQL\<close>

lemma my_row_step_life:
  assumes "my_row_step r r'" "my_row_ok r"
  shows "life_step (Some (life_of r)) (Some (life_of r'))"
  using assms(1)
proof cases
  case my_same then show ?thesis by (simp add: life_stutter)
next
  case (my_claim e w s)
  then show ?thesis using life_claim [of "life_of r" w] by (simp add: my_claim_set_def life_of_def)
next
  case (my_succeed now)
  then show ?thesis using life_succeed [of "life_of r"] by (simp add: my_succeed_set_def life_of_def)
next
  case (my_retry now t er)
  then show ?thesis using life_retry [of "life_of r" t] by (simp add: my_retry_set_def life_of_def)
next
  case (my_dead now er)
  then show ?thesis using life_dead [of "life_of r"] by (simp add: my_dead_set_def life_of_def)
next
  case (my_release now)
  moreover have "max (m_attempt r - 1) 0 = m_attempt r - 1" "1 \<le> m_attempt r" using assms(2) my_release by (simp_all add: my_row_ok_def)
  ultimately show ?thesis
    using life_release [of "life_of r" "if m_attempt r > 1 then StatusRetrying else StatusCreated" "m_process_at r"]
    by (simp add: my_release_set_def life_of_def split: if_splits)
next
  case (my_extend until now) then show ?thesis using life_stutter by (simp add: life_of_def)
next
  case (my_reclaim now)
  then show ?thesis using life_retry [of "life_of r" now] by (simp add: my_reclaim_set_def life_of_def)
next
  case (my_requeue now t)
  then show ?thesis using life_requeue [of "life_of r" t] by (simp add: my_requeue_set_def life_of_def)
qed

lemma my_row_ok_life: "my_row_ok r \<Longrightarrow> life_ok (Some (life_of r))"
  by (auto simp: my_row_ok_def life_ok_def life_of_def)

lemma my_db_ok_row: "my_db_ok coll db \<Longrightarrow> r \<in> set (messages db) \<Longrightarrow> my_row_ok r"
  by (simp add: my_db_ok_def)

lemma my_effect_life:
  assumes "my_db_ok coll db" "my_effect coll db db'"
  shows "life_step (life_in db i) (life_in db' i)"
  using assms(2) unfolding my_effect_def
  by (intro rowwise_life [of my_row_step])
     (auto simp: same_message_def dest: my_row_step_same my_db_ok_row [OF assms(1)] intro: my_row_step_life)

lemma my_simulates:
  assumes "my_step coll db db'" "my_db_ok coll db"
  shows "life_step (life_in db i) (life_in db' i)"
proof -
  note d = my_db_ok_distinct(2) [OF assms(2)] and rows = my_effect_life [OF assms(2)]
  have "life_ok (life_in db' i)"
    using my_step_ok [OF assms] by (intro life_in_ok my_row_ok_life) (rule my_db_ok_row)
  then have app: ?thesis if "appended db db'" using life_appended [OF that] by simp
  from assms(1) show ?thesis
  proof cases
    case (my_step_PurgeTerminal e t n)
    then show ?thesis using my_purge_row [OF assms(2), of e i _ t n] my_PurgeTerminal_db [of e t n db]
      by (intro purged_life) (auto simp: row_by_delete [OF d])
  next
    case (my_step_PurgeHistory e t n)
    then show ?thesis using app
      by (auto simp: my_PurgeHistory_def Let_def run_stmt_def appended_same split: option.splits if_splits)
  next
    case my_step_commit
    then show ?thesis using app assms(2) by (auto simp: tx_commit_def appended_def my_db_ok_def)
  next
    case my_step_rollback then show ?thesis using app by (simp add: tx_rollback_def appended_same)
  qed (use app my_Enqueue_appended my_EnqueueBatch_appended rows my_Claim_effect [OF assms(2)]
      my_ReclaimExpired_effect [OF assms(2)] my_effects(2-7) in metis)+
qed

section \<open>The two refinements\<close>

interpretation pg_life: lifecycle_impl "pg_step s" "db_ok s" life_in for s
  by unfold_locales (auto intro: pg_step_db_ok pg_simulates life_in_ok row_ok_life db_ok_row)

interpretation my_life: lifecycle_impl "my_step coll" "my_db_ok coll" life_in for coll
  by unfold_locales (auto intro: my_step_ok my_simulates life_in_ok my_row_ok_life my_db_ok_row)

text \<open>
  C4. The PostgreSQL adapter refines the lifecycle: from any reachable database and in any
  environment (failing or lost statements, other clocks, other transactions' locks), every step
  of the adapter is, for every message identifier, one step of the lifecycle or none, and the
  message is in a state the lifecycle allows.
\<close>

theorem pg_refines_lifecycle:
  assumes "pg_reachable s db" "pg_step s db db'"
  shows "life_step (life_in db i) (life_in db' i) \<and> life_ok (life_in db' i)"
  using pg_life.simulates [OF assms(2) pg_reachable_db_ok [OF assms(1)]]
    pg_life.life_ok [OF pg_life.step_ok [OF assms(2) pg_reachable_db_ok [OF assms(1)]]] by blast

theorem pg_refines_lifecycle_witness:
  "life_step (life_in sample_db 0) (life_in sample_handling 0) \<and>
   life_in sample_handling 0 = Some \<lparr>ls_status = StatusHandling, ls_attempt = 1, ls_worker = Some ''w1'', ls_due = 5\<rparr>"
proof -
  have "pg_step sample_store sample_db sample_handling" unfolding sample_handling_def by (rule step_Claim)
  from pg_refines_lifecycle [OF sample_db_reachable this] show ?thesis
    by (simp add: sample_handling_row) (simp add: sample_handling_row life_in_def life_of_def claim_set_def sample_row_def)
qed

text \<open>
  C5. The MySQL adapter refines the same lifecycle, under any collation of the database.
\<close>

theorem my_refines_lifecycle:
  assumes "my_reachable coll db" "my_step coll db db'"
  shows "life_step (life_in db i) (life_in db' i) \<and> life_ok (life_in db' i)"
  using my_life.simulates [OF assms(2) my_reachable_ok [OF assms(1)]]
    my_life.life_ok [OF my_life.step_ok [OF assms(2) my_reachable_ok [OF assms(1)]]] by blast

definition my_sample_env :: my_env where
  "my_sample_env =
     \<lparr>env_now = 9, env_clock = 9, env_id = (\<lambda>i. ''b''), env_rand = (\<lambda>_. 0), env_locked = (\<lambda>_. False), env_choice = take,
      env_reply = (\<lambda>_. ExecOk), env_str = (\<lambda>i. i), env_parse = Inr\<rparr>"

definition my_sample_sent :: my_db where
  "my_sample_sent = fst (my_Enqueue (\<lambda>s. s) my_sample_env 0 TxZero (sample_params ''k'') empty_db)"

definition my_sample_claimed :: my_db where
  "my_sample_claimed = fst (my_Claim (\<lambda>s. s) my_sample_env (sample_claim ''w1''\<lparr>cp_EventTypes := [''order'']\<rparr>) my_sample_sent)"

lemma my_sample_sent_reachable: "my_reachable (\<lambda>s. s) my_sample_sent"
  unfolding my_sample_sent_def
  by (rule my_reach_step [OF my_reach_init my_step_Enqueue]) (simp add: my_insert_waits_def empty_db_def)

theorem my_refines_lifecycle_witness:
  "life_step (life_in my_sample_sent ''b'') (life_in my_sample_claimed ''b'') \<and>
   life_in my_sample_claimed ''b'' = Some \<lparr>ls_status = StatusHandling, ls_attempt = 1, ls_worker = Some ''w1'', ls_due = 9\<rparr>"
proof -
  have "my_step (\<lambda>s. s) my_sample_sent my_sample_claimed" unfolding my_sample_claimed_def by (rule my_step_Claim)
  from my_refines_lifecycle [OF my_sample_sent_reachable this] show ?thesis
    by (simp add: my_sample_claimed_def my_sample_sent_def my_sample_env_def sample_params_def sample_claim_def my_Enqueue_def
        my_execer_def my_enqueue_row_def my_insert_def empty_db_def q_rows_def q_insert_def my_findByID_def my_Claim_def selectClaimIDs_def
        my_claim_ids_def my_claim_eligible_def order_limit_def pickShard_def numClaimShards_def my_claim_update_def my_commit_def
        id_in_def my_claim_set_def Let_def life_in_def life_of_def)
qed

end
