(* ===== verification/My_Storage.thy ===== *)
theory My_Storage
  imports Lifecycle Worker_Spec
begin

text \<open>
  The MySQL adapter as a value of the storage interface, in a world of its own (database,
  named locks, environment of each call), and the proof that it keeps the three contracts the
  rest of the program relies on: the consumer side, the leader locks and the purges. The
  theorems on attempts, batches and the janitor's loop, proved from the contracts, hold for it.
\<close>

section \<open>Leader locks\<close>

definition my_locks_ok :: "named_locks \<Rightarrow> bool" where
  "my_locks_ok locks \<longleftrightarrow> (\<forall>k s s'. (k, s) \<in> set locks \<longrightarrow> (k, s') \<in> set locks \<longrightarrow> s = s')"

definition my_owns :: "(string \<Rightarrow> string) \<Rightarrow> named_locks \<Rightarrow> string \<Rightarrow> nat \<Rightarrow> bool" where
  "my_owns coll locks key sess \<longleftrightarrow> (my_lock_name coll key, sess) \<in> set locks"

lemma my_TryLeaderLock_cases:
  obtains (same) er where "my_TryLeaderLock coll conn rep key locks = (locks, False, er)"
  | (dropped) sess er where "conn = Inr sess"
      "my_TryLeaderLock coll conn rep key locks = (filter (\<lambda>(k, s). s \<noteq> sess) locks, False, er)"
  | (taken) sess where "conn = Inr sess" "\<forall>s'. (my_lock_name coll key, s') \<in> set locks \<longrightarrow> s' = sess"
      "my_TryLeaderLock coll conn rep key locks = ((my_lock_name coll key, sess) # locks, True, None)"
proof (cases conn)
  case (Inl er)
  then show ?thesis using same by (simp add: my_TryLeaderLock_def)
next
  case (Inr sess)
  show ?thesis
  proof (cases "list_ex (\<lambda>(k, s). k = my_lock_name coll key \<and> s \<noteq> sess) locks")
    case True
    with Inr show ?thesis using same dropped by (cases rep) (simp_all add: my_TryLeaderLock_def)
  next
    case False
    then have "\<forall>s'. (my_lock_name coll key, s') \<in> set locks \<longrightarrow> s' = sess" by (auto simp: list_ex_iff)
    with False Inr show ?thesis using same dropped taken by (cases rep) (simp_all add: my_TryLeaderLock_def)
  qed
qed

lemma set_my_unlock: "set (my_unlock coll sess rep key locks) \<subseteq> set locks"
  by (cases rep) (auto simp: my_unlock_def dest: set_remove1_subset [THEN subsetD])

interpretation my_leader: leader_lock
  "\<lambda>sess key locks. (case my_TryLeaderLock coll (Inr sess) rep key locks of (locks', ok, _) \<Rightarrow> (locks', ok))"
  "\<lambda>sess key locks. my_unlock coll sess rep' key locks" "my_owns coll" my_locks_ok for coll rep rep'
proof unfold_locales
  fix c c' :: nat and k k' :: string and l l' :: named_locks
  let ?acq = "\<lambda>sess key locks. (case my_TryLeaderLock coll (Inr sess) rep key locks of (locks', ok, _) \<Rightarrow> (locks', ok))"
  show "my_locks_ok (fst (?acq c k l))" if "my_locks_ok l"
    using that by (cases rule: my_TryLeaderLock_cases [of coll "Inr c" rep k l]) (auto simp: my_locks_ok_def)
  show "my_locks_ok (my_unlock coll c rep' k l)" if "my_locks_ok l"
    using that set_my_unlock [of coll c rep' k l] unfolding my_locks_ok_def by blast
  show "c = c'" if "my_locks_ok l" "my_owns coll l k c" "my_owns coll l k c'"
    using that unfolding my_locks_ok_def my_owns_def by blast
  show "my_owns coll l' k c" if "my_locks_ok l" "?acq c k l = (l', True)"
    using that(2) by (cases rule: my_TryLeaderLock_cases [of coll "Inr c" rep k l]) (auto simp: my_owns_def)
  show "my_owns coll (fst (?acq c k' l)) k c'" if "my_locks_ok l" "my_owns coll l k c'" "c' \<noteq> c"
    using that(2,3) by (cases rule: my_TryLeaderLock_cases [of coll "Inr c" rep k' l]) (auto simp: my_owns_def)
  show "my_owns coll (my_unlock coll c rep' k' l) k c'" if "my_locks_ok l" "my_owns coll l k c'" "c' \<noteq> c"
    using that(2,3) by (cases rep') (auto simp: my_owns_def my_unlock_def)
qed

section \<open>The world of the adapter\<close>

record my_world =
  mw_db :: my_db
  mw_locks :: named_locks
  mw_env :: "nat \<Rightarrow> my_env"
  mw_conn :: "nat \<Rightarrow> goerr + nat"
  mw_calls :: nat

definition my_now :: "my_world \<Rightarrow> my_env" where
  "my_now w = mw_env w (mw_calls w)"

definition my_call :: "(my_env \<Rightarrow> my_db \<Rightarrow> my_db \<times> 'x) \<Rightarrow> my_world \<Rightarrow> my_world \<times> 'x" where
  "my_call f w = (let (db', x) = f (my_now w) (mw_db w) in (w\<lparr>mw_db := db', mw_calls := Suc (mw_calls w)\<rparr>, x))"

definition my_query :: "(my_env \<Rightarrow> my_db \<Rightarrow> 'x) \<Rightarrow> my_world \<Rightarrow> my_world \<times> 'x" where
  "my_query f w = (w\<lparr>mw_calls := Suc (mw_calls w)\<rparr>, f (my_now w) (mw_db w))"

definition my_lock_call :: "(string \<Rightarrow> string) \<Rightarrow> string \<Rightarrow> my_world \<Rightarrow> my_world \<times> bool \<times> goerr option" where
  "my_lock_call coll key w =
     (let (locks', x) = my_TryLeaderLock coll (mw_conn w (mw_calls w)) (env_reply (my_now w) 0) key (mw_locks w)
      in (w\<lparr>mw_locks := locks', mw_calls := Suc (mw_calls w)\<rparr>, x))"

definition my_unlock_call :: "(string \<Rightarrow> string) \<Rightarrow> string \<Rightarrow> my_world \<Rightarrow> my_world" where
  "my_unlock_call coll key w =
     (case map_of (mw_locks w) (my_lock_name coll key) of None \<Rightarrow> w
      | Some sess \<Rightarrow> w\<lparr>mw_locks := my_unlock coll sess (env_reply (my_now w) 0) key (mw_locks w), mw_calls := Suc (mw_calls w)\<rparr>)"

definition my_storage :: "(string \<Rightarrow> string) \<Rightarrow> my_world Storage" where
  "my_storage coll =
     \<lparr>st_Enqueue = (\<lambda>tx p. my_call (\<lambda>e. my_Enqueue coll e 0 tx p)),
      st_EnqueueBatch = (\<lambda>tx ps. my_call (\<lambda>e. my_EnqueueBatch coll e 0 tx ps)),
      st_Claim = (\<lambda>p. my_call (\<lambda>e. my_Claim coll e p)),
      st_Succeed = (\<lambda>ident att wk. my_call (\<lambda>e. my_Succeed coll e ident att wk)),
      st_Fail = (\<lambda>p. my_call (\<lambda>e. my_Fail coll e p)),
      st_ReleaseShutdown = (\<lambda>ident att wk reason. my_call (\<lambda>e. my_ReleaseShutdown coll e ident att wk reason)),
      st_Extend = (\<lambda>ident wk until. my_call (\<lambda>e. my_Extend coll e ident wk until)),
      st_History = (\<lambda>ident. my_query (\<lambda>e. my_History coll e ident)),
      st_ListDead = (\<lambda>et after limit. my_query (\<lambda>e. my_ListDead coll e et after limit)),
      st_Requeue = (\<lambda>ident t. my_call (\<lambda>e. my_Requeue coll e ident t)),
      st_ReclaimExpired = (\<lambda>n. my_call (\<lambda>e. my_ReclaimExpired e n)),
      st_PurgeTerminal = (\<lambda>t n. my_call (\<lambda>e. my_PurgeTerminal e t n)),
      st_Stats = my_query (my_Stats coll),
      st_TryLeaderLock = my_lock_call coll,
      st_unlock = my_unlock_call coll,
      st_BatchSucceed = Some (\<lambda>ps. my_call (\<lambda>e. my_BatchSucceed coll e ps)),
      st_Notify = None,
      st_PurgeHistory = Some (\<lambda>t n. my_call (\<lambda>e. my_PurgeHistory e t n))\<rparr>"

section \<open>The consumer contract\<close>

definition my_look :: "my_world \<Rightarrow> message_id \<Rightarrow> lease option" where
  "my_look w ident = map_option lease_of (row_by m_id ident (messages (mw_db w)))"

text \<open>
  What the claim relies on: a result set that breaks off takes the connection with it, so that
  the commit of the claim fails.
\<close>

definition broken_fetch_fails :: "my_env \<Rightarrow> bool" where
  "broken_fetch_fails e \<longleftrightarrow> (case env_reply e 4 of ExecLost _ \<Rightarrow> reply_err (env_reply e 5) \<noteq> None | _ \<Rightarrow> True)"

definition my_world_ok :: "(string \<Rightarrow> string) \<Rightarrow> my_world \<Rightarrow> bool" where
  "my_world_ok coll w \<longleftrightarrow> my_db_ok coll (mw_db w) \<and>
     (\<forall>n. limit_choice (env_choice (mw_env w n)) \<and> broken_fetch_fails (mw_env w n))"

lemma my_world_okD:
  assumes "my_world_ok coll w"
  shows "my_db_ok coll (mw_db w)" "limit_choice (env_choice (my_now w))" "broken_fetch_fails (my_now w)"
    "distinct (map m_id (messages (mw_db w)))" "distinct (map (\<lambda>r. coll (m_id r)) (messages (mw_db w)))"
  using assms my_db_ok_distinct by (auto simp: my_world_ok_def my_now_def)

lemma my_call_eq: "my_call f w = (w\<lparr>mw_db := fst (f (my_now w) (mw_db w)), mw_calls := Suc (mw_calls w)\<rparr>, snd (f (my_now w) (mw_db w)))"
  by (simp add: my_call_def split_beta)

lemma my_call_db: "my_call f w = (w', x) \<Longrightarrow> f (my_now w) (mw_db w) = (mw_db w', x)"
  by (auto simp: my_call_eq prod_eq_iff)

lemma my_world_ok_call:
  "my_world_ok coll w \<Longrightarrow> my_db_ok coll (fst (f (my_now w) (mw_db w))) \<Longrightarrow> my_world_ok coll (fst (my_call f w))"
  by (simp add: my_call_eq my_world_ok_def)

text \<open>Under the invariant a comparison key finds the one row with that identifier.\<close>

lemma my_row_unique:
  assumes "distinct (map (\<lambda>r. coll (m_id r)) rows)" "row_by m_id i rows = Some r" "r' \<in> set rows" "coll (m_id r') = coll i"
  shows "r' = r"
proof -
  have "inj_on (\<lambda>r. coll (m_id r)) (set rows)" using assms(1) by (simp add: distinct_map)
  then show ?thesis by (rule inj_onD) (use row_by_Some_in [OF assms(2)] assms(3,4) in auto)
qed

text \<open>An update guarded by the identifier of a held message, and by what it holds, reaches that row alone.\<close>

lemma my_update_row:
  assumes "distinct (map (\<lambda>r. coll (m_id r)) rows)" "row_by m_id i rows = Some r" "p r"
    and "\<And>r. p r \<Longrightarrow> coll (m_id r) = coll i" "\<And>r. m_id (g r) = m_id r"
  shows "row_by m_id j (sql_update p g rows) = (if j = i then Some (g r) else row_by m_id j rows)"
proof -
  have upd: "row_by m_id j (sql_update p g rows) = map_option (\<lambda>r. if p r then g r else r) (row_by m_id j rows)"
    by (rule row_by_update) (rule assms(5))
  show ?thesis
  proof (cases "j = i")
    case False
    have "\<not> p r'" if "row_by m_id j rows = Some r'" for r'
      using my_row_unique [OF assms(1,2)] row_by_Some_in [OF that] row_by_Some_in [OF assms(2)] assms(4) False by metis
    then show ?thesis unfolding upd using False by (cases "row_by m_id j rows") auto
  qed (use upd assms(2,3) in simp)
qed

lemma my_completion_ok:
  assumes "my_completion e be ue guard upd hist db = (db', None)"
  shows "db' = hist (db\<lparr>messages := sql_update guard upd (messages db)\<rparr>)"
  using assms by (auto simp: my_completion_def my_commit_def run_stmt_def dest: applied_if_ok split: option.splits)

lemma my_ack_world:
  assumes "my_world_ok coll w" "held my_look w ident att wk" "my_call f w = (w', None)"
    and "\<And>e db db'. f e db = (db', None) \<Longrightarrow> messages db' = sql_update (my_holds coll ident wk) (g e) (messages db)"
    and "\<And>e r. m_id (g e r) = m_id r"
  obtains r where "r \<in> set (messages (mw_db w))" "m_status r = StatusHandling" "m_attempt r = att"
    "my_look w' ident = Some (lease_of (g (my_now w) r))" "only my_look ident w w'"
proof -
  note ok = my_world_okD [OF assms(1)]
  obtain r where r: "row_by m_id ident (messages (mw_db w)) = Some r" "m_status r = StatusHandling" "m_attempt r = att"
      "m_claimed_by r = Some wk"
    using assms(2) by (auto simp: held_def my_look_def lease_of_def split: option.splits)
  have h: "my_holds coll ident wk r" using r row_by_Some_in [OF r(1)] by (simp add: my_holds_def)
  have "row_by m_id j (messages (mw_db w')) = (if j = ident then Some (g (my_now w) r) else row_by m_id j (messages (mw_db w)))" for j
    unfolding assms(4) [OF my_call_db [OF assms(3)]]
    by (rule my_update_row [where p = "my_holds coll ident wk", OF ok(5) r(1) h]) (simp_all add: my_holds_def assms(5))
  then have "my_look w' ident = Some (lease_of (g (my_now w) r))" "only my_look ident w w'"
    by (simp_all add: my_look_def only_def)
  with that r row_by_Some_in [OF r(1)] show ?thesis by blast
qed

lemma my_ack_messages:
  "my_Succeed coll e ident att wk db = (db', None) \<Longrightarrow>
     messages db' = sql_update (my_holds coll ident wk) (my_succeed_set (env_now e)) (messages db)"
  "my_Fail coll e p db = (db', None) \<Longrightarrow>
     messages db' = sql_update (my_holds coll (fp_MessageID p) (fp_WorkerID p))
       (if fp_Dead p then my_dead_set (env_now e) (fp_Err p) else my_retry_set (env_now e) (fp_NextRetryAt p) (fp_Err p)) (messages db)"
  "my_ReleaseShutdown coll e ident att wk reason db = (db', None) \<Longrightarrow>
     messages db' = sql_update (my_holds coll ident wk) (my_release_set (env_now e)) (messages db)"
  by (auto simp: my_Succeed_def my_Fail_def my_ReleaseShutdown_def dest!: my_completion_ok split: if_splits)

lemma my_set_ids [simp]:
  "m_id (my_succeed_set now r) = m_id r" "m_id (my_dead_set now er r) = m_id r" "m_id (my_retry_set now t er r) = m_id r"
  "m_id (my_release_set now r) = m_id r" "m_id (my_claim_set e wk lease r) = m_id r"
  by (simp_all add: my_set_defs)

lemma my_world_succeed:
  assumes "my_world_ok coll w" "held my_look w ident att wk" "my_call (\<lambda>e. my_Succeed coll e ident att wk) w = (w', None)"
  shows "status_of my_look w' ident = Some StatusSuccess \<and> only my_look ident w w'"
proof -
  obtain r where "my_look w' ident = Some (lease_of (my_succeed_set (env_now (my_now w)) r))" "only my_look ident w w'"
    by (rule my_ack_world [OF assms, where g = "\<lambda>e. my_succeed_set (env_now e)"]) (simp_all add: my_ack_messages(1))
  then show ?thesis by (simp add: status_of_def lease_of_def my_succeed_set_def)
qed

lemma my_world_fail:
  assumes "my_world_ok coll w" "held my_look w (fp_MessageID fp) (fp_Attempt fp) (fp_WorkerID fp)"
    "my_call (\<lambda>e. my_Fail coll e fp) w = (w', None)"
  shows "(\<exists>l. my_look w' (fp_MessageID fp) = Some l \<and> ls_attempt l = fp_Attempt fp \<and>
         ls_status l = (if fp_Dead fp then StatusDead else StatusRetrying) \<and>
         (\<not> fp_Dead fp \<longrightarrow> ls_due l = fp_NextRetryAt fp)) \<and> only my_look (fp_MessageID fp) w w'"
proof -
  let ?g = "\<lambda>e. if fp_Dead fp then my_dead_set (env_now e) (fp_Err fp) else my_retry_set (env_now e) (fp_NextRetryAt fp) (fp_Err fp)"
  obtain r where "my_look w' (fp_MessageID fp) = Some (lease_of (?g (my_now w) r))" "only my_look (fp_MessageID fp) w w'"
    "m_attempt r = fp_Attempt fp"
    by (rule my_ack_world [OF assms, where g = ?g]) (simp_all add: my_ack_messages(2))
  then show ?thesis by (auto simp: lease_of_def my_dead_set_def my_retry_set_def)
qed

lemma my_world_release:
  assumes "my_world_ok coll w" "held my_look w ident att wk"
    "my_call (\<lambda>e. my_ReleaseShutdown coll e ident att wk reason) w = (w', None)"
  shows "(\<exists>l. my_look w' ident = Some l \<and> ls_status l \<in> {StatusCreated, StatusRetrying} \<and> ls_attempt l = att - 1) \<and>
      only my_look ident w w'"
proof -
  obtain r where r: "r \<in> set (messages (mw_db w))" "m_status r = StatusHandling" "m_attempt r = att"
    "my_look w' ident = Some (lease_of (my_release_set (env_now (my_now w)) r))" "only my_look ident w w'"
    by (rule my_ack_world [OF assms, where g = "\<lambda>e. my_release_set (env_now e)"]) (simp_all add: my_ack_messages(3))
  have "1 \<le> att" using my_db_ok_row [OF my_world_okD(1) [OF assms(1)] r(1)] r(2,3) by (simp add: my_row_ok_def)
  with r show ?thesis by (simp add: lease_of_def my_release_set_def)
qed

text \<open>A claim without error: the rows of some identifiers, claimed, and the messages read from them.\<close>

lemma my_claim_update_rows:
  assumes "broken_fetch_fails e" "my_claim_update coll e p ids db = (db', out, None)"
  shows "messages db' = sql_update (id_in coll ids) (my_claim_set e (cp_WorkerID p) (cp_Lease p)) (messages db) \<and>
    out = map my_scanMessage (filter (id_in coll ids) (messages db'))"
proof -
  let ?rows = "sql_update (id_in coll ids) (my_claim_set e (cp_WorkerID p) (cp_Lease p)) (messages db)"
  let ?commit = "\<lambda>out. my_commit e 5 db (my_claim_history coll e 6 (cp_WorkerID p) out (db\<lparr>messages := ?rows\<rparr>))"
  have 3: "reply_err (env_reply e 3) = None" using assms(2) by (auto simp: my_claim_update_def split: option.splits)
  have 4: "env_reply e 4 = ExecOk"
    using assms by (cases "env_reply e 4") (auto simp: my_claim_update_def 3 Let_def broken_fetch_fails_def my_commit_def split: option.splits)
  have "snd (?commit out) = None" "fst (?commit out) = db'" "out = map my_scanMessage (filter (id_in coll ids) ?rows)"
    using assms(2) by (auto simp: my_claim_update_def 3 4 Let_def split: prod.splits option.splits)
  moreover from this(1,2) have "messages db' = ?rows"
    by (auto simp: my_commit_def run_stmt_def dest: applied_if_ok)
  ultimately show ?thesis by simp
qed

lemma my_Claim_rows:
  assumes "broken_fetch_fails e" "my_Claim coll e p db = (db', out, None)"
  shows "\<exists>ids. messages db' = sql_update (id_in coll ids) (my_claim_set e (cp_WorkerID p) (cp_Lease p)) (messages db) \<and>
    out = map my_scanMessage (filter (id_in coll ids) (messages db'))"
proof -
  let ?res = "\<lambda>ids. if ids = [] then (fst (my_commit e 5 db db), [], snd (my_commit e 5 db db)) else my_claim_update coll e p ids db"
  have "(db', out) = (db, []) \<or> (\<exists>ids. ?res ids = (db', out, None))"
    using assms(2) by (auto simp: my_Claim_def Let_def split: option.splits sum.splits if_splits)
  moreover have "(db', out) = (db, []) \<or> (\<exists>ids. my_claim_update coll e p ids db = (db', out, None))" if "?res ids = (db', out, None)" for ids
    using that by (cases "ids = []") (auto simp: my_commit_def run_stmt_def)
  ultimately consider "db' = db" "out = []" | ids where "my_claim_update coll e p ids db = (db', out, None)" by blast
  then show ?thesis
  proof cases
    case 1
    then show ?thesis by (intro exI [of _ "[]"]) (simp add: id_in_def sql_update_def)
  next
    case 2
    then show ?thesis using my_claim_update_rows [OF assms(1)] by blast
  qed
qed

lemma my_claim_world:
  assumes "my_world_ok coll w" "my_call (\<lambda>e. my_Claim coll e p) w = (w', out, None)"
  obtains ids where
    "messages (mw_db w') = sql_update (id_in coll ids) (my_claim_set (my_now w) (cp_WorkerID p) (cp_Lease p)) (messages (mw_db w))"
    "out = map my_scanMessage (filter (id_in coll ids) (messages (mw_db w')))"
    "distinct (map m_id (messages (mw_db w')))"
    "row_by m_id j (messages (mw_db w')) = map_option (\<lambda>r. if id_in coll ids r
       then my_claim_set (my_now w) (cp_WorkerID p) (cp_Lease p) r else r) (row_by m_id j (messages (mw_db w)))"
proof -
  let ?f = "my_claim_set (my_now w) (cp_WorkerID p) (cp_Lease p)"
  obtain ids where i: "messages (mw_db w') = sql_update (id_in coll ids) ?f (messages (mw_db w))"
    "out = map my_scanMessage (filter (id_in coll ids) (messages (mw_db w')))"
    using my_Claim_rows [OF my_world_okD(3) [OF assms(1)] my_call_db [OF assms(2)]] by blast
  have "map m_id (messages (mw_db w')) = map m_id (messages (mw_db w))" unfolding i(1) by (simp add: sql_update_def)
  then have "distinct (map m_id (messages (mw_db w')))" using my_world_okD(4) [OF assms(1)] by simp
  moreover have "row_by m_id j (messages (mw_db w')) = map_option (\<lambda>r. if id_in coll ids r then ?f r else r) (row_by m_id j (messages (mw_db w)))"
    unfolding i(1) by (rule row_by_update) simp
  ultimately show ?thesis using that i by blast
qed

lemma my_claim_distinct:
  assumes "my_world_ok coll w" "my_call (\<lambda>e. my_Claim coll e p) w = (w', out, None)"
  shows "distinct (map im_ID out)"
  by (rule my_claim_world [OF assms]) (simp add: my_scanMessage_def comp_def distinct_map_filter)

lemma my_claim_held:
  assumes "my_world_ok coll w" "my_call (\<lambda>e. my_Claim coll e p) w = (w', out, None)" "m \<in> set out"
  shows "held my_look w' (im_ID m) (im_Attempt m) (cp_WorkerID p)"
proof -
  let ?f = "my_claim_set (my_now w) (cp_WorkerID p) (cp_Lease p)"
  obtain ids where i: "messages (mw_db w') = sql_update (id_in coll ids) ?f (messages (mw_db w))"
    "out = map my_scanMessage (filter (id_in coll ids) (messages (mw_db w')))" "distinct (map m_id (messages (mw_db w')))"
    by (rule my_claim_world [OF assms(1,2)])
  from assms(3) obtain r' where r': "r' \<in> set (messages (mw_db w'))" "id_in coll ids r'" "m = my_scanMessage r'" unfolding i(2) by auto
  have idf: "id_in coll ids (?f r) = id_in coll ids r" for r by (simp add: id_in_def)
  from r'(1,2) obtain r where "r' = ?f r" unfolding i(1) by (auto simp: sql_update_def idf split: if_splits)
  then have "m_status r' = StatusHandling" "m_claimed_by r' = Some (cp_WorkerID p)" by (simp_all add: my_claim_set_def)
  moreover have "row_by m_id (m_id r') (messages (mw_db w')) = Some r'" by (rule row_by_in [OF i(3) r'(1)])
  ultimately show ?thesis by (simp add: held_def my_look_def lease_of_def r'(3) my_scanMessage_def)
qed

lemma my_claim_frame:
  assumes "my_world_ok coll w" "my_call (\<lambda>e. my_Claim coll e p) w = (w', out, None)" "j \<notin> im_ID ` set out"
  shows "my_look w' j = my_look w j"
proof -
  let ?f = "my_claim_set (my_now w) (cp_WorkerID p) (cp_Lease p)"
  obtain ids where i: "messages (mw_db w') = sql_update (id_in coll ids) ?f (messages (mw_db w))"
    "out = map my_scanMessage (filter (id_in coll ids) (messages (mw_db w')))"
    "row_by m_id j (messages (mw_db w')) = map_option (\<lambda>r. if id_in coll ids r then ?f r else r) (row_by m_id j (messages (mw_db w)))"
    by (rule my_claim_world [OF assms(1,2), of j])
  show ?thesis
  proof (cases "row_by m_id j (messages (mw_db w))")
    case (Some r)
    have "\<not> id_in coll ids r"
    proof
      assume r: "id_in coll ids r"
      then have "row_by m_id j (messages (mw_db w')) = Some (?f r)" by (simp add: i(3) Some)
      from row_by_Some_in [OF this] have "?f r \<in> set (filter (id_in coll ids) (messages (mw_db w')))" "m_id r = j"
        using r by (simp_all add: id_in_def)
      then have "my_scanMessage (?f r) \<in> set out" unfolding i(2) by simp
      moreover have "im_ID (my_scanMessage (?f r)) = j" using \<open>m_id r = j\<close> by (simp add: my_scanMessage_def)
      ultimately show False using assms(3) by (metis image_eqI)
    qed
    then show ?thesis by (simp add: my_look_def i(3) Some)
  qed (simp add: my_look_def i(3))
qed

text \<open>A batch of acknowledgements without error.\<close>

definition my_batch_upd :: "(string \<Rightarrow> string) \<Rightarrow> time \<Rightarrow> BatchSucceedParam list \<Rightarrow> string msg_row \<Rightarrow> string msg_row" where
  "my_batch_upd coll now ps r = (if list_ex (\<lambda>p. my_holds_attempt coll (bs_MessageID p) (bs_Attempt p) r) ps
     then my_succeed_set now r else r)"

lemma my_batch_upd_Nil [simp]: "my_batch_upd coll now [] = (\<lambda>r. r)"
  by (simp add: my_batch_upd_def fun_eq_iff)

lemma my_batch_upd_Cons:
  "my_batch_upd coll now ps (if my_holds_attempt coll (bs_MessageID p) (bs_Attempt p) r then my_succeed_set now r else r) =
   my_batch_upd coll now (p # ps) r"
proof (cases "my_holds_attempt coll (bs_MessageID p) (bs_Attempt p) r")
  case True
  have "\<not> my_holds_attempt coll i a (my_succeed_set now r)" for i a by (simp add: my_holds_attempt_def my_succeed_set_def)
  with True show ?thesis by (simp add: my_batch_upd_def list_ex_iff)
qed (simp add: my_batch_upd_def)

lemma my_batch_updates_rows:
  "my_batch_updates coll e k ps db = (db', None) \<Longrightarrow> messages db' = map (my_batch_upd coll (env_now e) ps) (messages db)"
proof (induction ps arbitrary: k db)
  case (Cons p ps)
  let ?h = "my_holds_attempt coll (bs_MessageID p) (bs_Attempt p)" and ?now = "env_now e"
  let ?db1 = "db\<lparr>messages := sql_update ?h (my_succeed_set ?now) (messages db)\<rparr>"
  have "my_batch_updates coll e (k + 2) ps
      (my_appendHistory coll e (k + 1) (bs_MessageID p) StatusHandling StatusSuccess (bs_Attempt p) '''' (bs_WorkerID p) ?db1) = (db', None)"
    using Cons.prems by (simp split: option.splits)
  from Cons.IH [OF this] have "messages db' = map (my_batch_upd coll ?now ps) (sql_update ?h (my_succeed_set ?now) (messages db))" by simp
  then show ?case by (simp only: sql_update_def list.map_comp comp_def my_batch_upd_Cons)
qed simp

lemma my_BatchSucceed_rows:
  assumes "my_BatchSucceed coll e ps db = (db', None)"
  shows "messages db' = map (my_batch_upd coll (env_now e) ps) (messages db)"
proof (cases "ps = []")
  case True
  with assms show ?thesis by (simp add: my_BatchSucceed_def)
next
  case False
  obtain db1 where "my_batch_updates coll e 2 ps db = (db1, None)" "db' = db1"
    using assms False by (auto simp: my_BatchSucceed_def my_commit_def run_stmt_def dest: applied_if_ok split: option.splits prod.splits)
  then show ?thesis using my_batch_updates_rows by blast
qed

lemma my_batch_row:
  assumes "Some (\<lambda>ps. my_call (\<lambda>e. my_BatchSucceed coll e ps)) = Some batch" "batch ps w = (w', None)"
  shows "row_by m_id j (messages (mw_db w')) = map_option (my_batch_upd coll (env_now (my_now w)) ps) (row_by m_id j (messages (mw_db w)))"
proof -
  have "my_call (\<lambda>e. my_BatchSucceed coll e ps) w = (w', None)" using assms by auto
  from my_BatchSucceed_rows [OF my_call_db [OF this]]
  have "messages (mw_db w') = sql_update (\<lambda>_. True) (my_batch_upd coll (env_now (my_now w)) ps) (messages (mw_db w))"
    by (simp add: sql_update_def)
  moreover have "m_id (my_batch_upd coll now ps r) = m_id r" for now r by (simp add: my_batch_upd_def)
  ultimately show ?thesis by (simp add: row_by_update)
qed

lemma my_world_batch_held:
  assumes "Some (\<lambda>ps. my_call (\<lambda>e. my_BatchSucceed coll e ps)) = Some batch" "my_world_ok coll w" "batch ps w = (w', None)"
    "b \<in> set ps" "held my_look w (bs_MessageID b) (bs_Attempt b) (bs_WorkerID b)"
  shows "status_of my_look w' (bs_MessageID b) = Some StatusSuccess"
proof -
  obtain r where r: "row_by m_id (bs_MessageID b) (messages (mw_db w)) = Some r" "m_status r = StatusHandling" "m_attempt r = bs_Attempt b"
    using assms(5) by (auto simp: held_def my_look_def lease_of_def split: option.splits)
  then have "list_ex (\<lambda>p. my_holds_attempt coll (bs_MessageID p) (bs_Attempt p) r) ps"
    using assms(4) row_by_Some_in [OF r(1)] by (auto simp: list_ex_iff my_holds_attempt_def)
  then show ?thesis
    using my_batch_row [OF assms(1,3), of "bs_MessageID b"] r(1) by (simp add: status_of_def my_look_def my_batch_upd_def lease_of_def my_succeed_set_def)
qed

lemma my_world_batch_frame:
  assumes "Some (\<lambda>ps. my_call (\<lambda>e. my_BatchSucceed coll e ps)) = Some batch" "my_world_ok coll w" "batch ps w = (w', None)"
    "\<And>b. b \<in> set ps \<Longrightarrow> my_look w (bs_MessageID b) \<noteq> None" "j \<notin> bs_MessageID ` set ps"
  shows "my_look w' j = my_look w j"
proof (cases "row_by m_id j (messages (mw_db w))")
  case (Some r)
  have "\<not> my_holds_attempt coll (bs_MessageID b) (bs_Attempt b) r" if b: "b \<in> set ps" for b
  proof
    assume h: "my_holds_attempt coll (bs_MessageID b) (bs_Attempt b) r"
    obtain r' where r': "row_by m_id (bs_MessageID b) (messages (mw_db w)) = Some r'" using assms(4) [OF b] by (auto simp: my_look_def)
    have "r = r'" using my_row_unique [OF my_world_okD(5) [OF assms(2)] r'] row_by_Some_in [OF Some] h by (simp add: my_holds_attempt_def)
    then have "j = bs_MessageID b" using row_by_Some_in [OF Some] row_by_Some_in [OF r'] by simp
    with b assms(5) show False by blast
  qed
  then have "my_batch_upd coll now ps r = r" for now by (auto simp: my_batch_upd_def list_ex_iff)
  then show ?thesis using my_batch_row [OF assms(1,3), of j] Some by (simp add: my_look_def)
qed (use my_batch_row [OF assms(1,3), of j] in \<open>simp add: my_look_def\<close>)

lemma my_world_extend: "my_look (fst (my_call (\<lambda>e. my_Extend coll e ident wk until) w)) j = my_look w j"
proof -
  have "map_option lease_of (row_by m_id j (sql_update p (\<lambda>r. r\<lparr>m_claimed_until := t, m_updated_at := now\<rparr>) rows)) =
      map_option lease_of (row_by m_id j rows)" for p t now and rows :: "string msg_row list"
    by (cases "row_by m_id j rows") (simp_all add: row_by_update lease_of_def)
  then have "map_option lease_of (row_by m_id j (messages (fst (my_Extend coll e ident wk until db)))) =
      map_option lease_of (row_by m_id j (messages db))" for e db
    by (simp add: my_Extend_def Let_def run_stmt_def split: option.split)
  then show ?thesis by (simp add: my_call_eq my_look_def)
qed

lemma my_world_inv:
  assumes "my_world_ok coll w"
  shows "my_world_ok coll (fst (my_call (\<lambda>e. my_Claim coll e p) w))"
    "my_world_ok coll (fst (my_call (\<lambda>e. my_Succeed coll e ident att wk) w))"
    "my_world_ok coll (fst (my_call (\<lambda>e. my_BatchSucceed coll e bs) w))"
    "my_world_ok coll (fst (my_call (\<lambda>e. my_Fail coll e fp) w))"
    "my_world_ok coll (fst (my_call (\<lambda>e. my_ReleaseShutdown coll e ident att wk reason) w))"
    "my_world_ok coll (fst (my_call (\<lambda>e. my_Extend coll e ident wk until) w))"
    "my_world_ok coll (fst (my_call (\<lambda>e. my_ReclaimExpired e n) w))"
    "my_world_ok coll (fst (my_call (\<lambda>e. my_PurgeTerminal e t n) w))"
    "my_world_ok coll (fst (my_call (\<lambda>e. my_PurgeHistory e t n) w))"
  by (rule my_world_ok_call [OF assms],
      (rule my_effect_ok [OF my_world_okD(1) [OF assms]], rule my_effects my_Claim_effect my_ReclaimExpired_effect, (rule my_world_okD [OF assms])?, (rule my_world_okD [OF assms])?
       | rule my_PurgeTerminal_ok my_PurgeHistory_ok, rule my_world_okD(1) [OF assms]))+

lemma my_world_batch_inv:
  "Some (\<lambda>ps. my_call (\<lambda>e. my_BatchSucceed coll e ps)) = Some batch \<Longrightarrow> my_world_ok coll w \<Longrightarrow> my_world_ok coll (fst (batch ps w))"
  using my_world_inv(3) by auto

lemmas my_storage_simps = my_storage_def Storage.simps

interpretation my_consumer: consumer_storage "my_storage coll" my_look "my_world_ok coll" for coll
  by (unfold_locales, unfold my_storage_simps)
     ((rule my_world_inv my_claim_distinct my_claim_held my_claim_frame my_world_succeed my_world_batch_inv my_world_batch_held
       my_world_batch_frame my_world_fail my_world_release my_world_extend; blast?; assumption)+)

section \<open>The purges\<close>

lemma chosen_count:
  assumes "limit_choice ch" "distinct (map key rows)"
  shows "sql_count (\<lambda>r. key r \<in> set (ch (nat n) (map key (filter P rows)))) rows = min (max n 0) (sql_count P rows)"
proof -
  let ?ids = "ch (nat n) (map key (filter P rows))"
  have "distinct ?ids" by (rule limit_choiceD(3) [OF assms(1)]) (rule distinct_map_filter [OF assms(2)])
  moreover have "set ?ids \<subseteq> key ` set rows" using limit_choiceD(1) [OF assms(1), of "nat n" "map key (filter P rows)"] by auto
  ultimately have "sql_count (\<lambda>r. key r \<in> set ?ids) rows = int (length ?ids)"
    unfolding sql_count_def using length_filter_key_eq [OF assms(2)] by simp
  then show ?thesis unfolding limit_choiceD(2) [OF assms(1)] by (auto simp: sql_count_def)
qed

lemma my_terminal_rows:
  assumes "my_world_ok coll w" "st_PurgeTerminal (my_storage coll) t b w = (w', n, err)" "0 < b"
  shows "\<exists>p. messages (mw_db w') = sql_delete p (messages (mw_db w)) \<and> (\<forall>r\<in>set (messages (mw_db w)). p r \<longrightarrow> purge_match t r) \<and>
    (err = None \<longrightarrow> sql_count p (messages (mw_db w)) = n \<and> n = min b (sql_count (purge_match t) (messages (mw_db w))))"
proof -
  let ?e = "my_now w" and ?db = "mw_db w"
  let ?p = "\<lambda>r. m_id r \<in> set (env_choice ?e (nat b) (map m_id (filter (purge_match t) (messages ?db))))"
  have c: "my_PurgeTerminal ?e t b ?db = (mw_db w', n, err)" using my_call_db assms(2) by (simp add: my_storage_def)
  then have c': "mw_db w' = fst (my_PurgeTerminal ?e t b ?db)" "n = fst (snd (my_PurgeTerminal ?e t b ?db))"
    "err = snd (snd (my_PurgeTerminal ?e t b ?db))" by simp_all
  note ok = my_world_okD [OF assms(1)]
  have all: "\<forall>r\<in>set (messages ?db). ?p r \<longrightarrow> purge_match t r" using chosen_ids [OF ok(2,4)] by blast
  have count: "sql_count ?p (messages ?db) = min b (sql_count (purge_match t) (messages ?db))"
    using chosen_count [OF ok(2,4), of b "purge_match t"] assms(3) by simp
  show ?thesis
  proof (cases "applied (env_reply ?e 0)")
    case True
    then have "messages (mw_db w') = sql_delete ?p (messages ?db)" "err = None \<longrightarrow> n = sql_count ?p (messages ?db)"
      unfolding c' using assms(3) by (simp_all add: my_PurgeTerminal_def run_stmt_def Let_def split: option.split)
    with all count show ?thesis by (intro exI [of _ ?p]) (simp only:, blast)
  next
    case False
    then have "mw_db w' = ?db" "err \<noteq> None" using c by (cases "env_reply ?e 0"; auto simp: my_PurgeTerminal_def Let_def)+
    then show ?thesis by (intro exI [of _ "\<lambda>_. False"]) (auto simp: sql_delete_def)
  qed
qed

lemma my_history_keys: "my_db_ok coll db \<Longrightarrow> distinct (map hist_key (history db))"
  by (auto simp: my_db_ok_def hist_ok_def distinct_map inj_on_def hist_key_def keyed_hist_def image_iff)

lemma my_history_rows:
  assumes "my_world_ok coll w" "the (st_PurgeHistory (my_storage coll)) t b w = (w', n, err)" "0 < b"
  shows "\<exists>p. history (mw_db w') = sql_delete p (history (mw_db w)) \<and> (\<forall>h\<in>set (history (mw_db w)). p h \<longrightarrow> h_at h < t) \<and>
    (err = None \<longrightarrow> sql_count p (history (mw_db w)) = n \<and> n = min b (sql_count (\<lambda>h. h_at h < t) (history (mw_db w))))"
proof -
  let ?e = "my_now w" and ?db = "mw_db w"
  let ?p = "\<lambda>h. hist_key h \<in> set (map hist_key (order_limit h_at b (filter (\<lambda>h. h_at h < t) (history ?db))))"
  have c: "my_PurgeHistory ?e t b ?db = (mw_db w', n, err)" using my_call_db assms(2) by (simp add: my_storage_def)
  then have c': "mw_db w' = fst (my_PurgeHistory ?e t b ?db)" "n = fst (snd (my_PurgeHistory ?e t b ?db))"
    "err = snd (snd (my_PurgeHistory ?e t b ?db))" by simp_all
  note del = limited_delete(1,2) [OF my_history_keys [OF my_world_okD(1) [OF assms(1)]], of h_at b "\<lambda>h. h_at h < t"]
  have b: "max b 0 = b" using assms(3) by simp
  show ?thesis
  proof (cases "applied (env_reply ?e 0)")
    case True
    then have "history (mw_db w') = sql_delete ?p (history ?db)" "err = None \<longrightarrow> n = sql_count ?p (history ?db)"
      unfolding c' using assms(3) by (simp_all add: my_PurgeHistory_def run_stmt_def Let_def split: option.split)
    with del show ?thesis unfolding b by (intro exI [of _ ?p]) (simp only:, blast)
  next
    case False
    then have "mw_db w' = ?db" "err \<noteq> None" using c by (cases "env_reply ?e 0"; auto simp: my_PurgeHistory_def Let_def)+
    then show ?thesis by (intro exI [of _ "\<lambda>_. False"]) (auto simp: sql_delete_def)
  qed
qed

lemma my_purge_keeps:
  assumes "my_world_ok coll w"
  shows "my_world_ok coll (fst (st_PurgeTerminal (my_storage coll) t b w))" "my_world_ok coll (fst (the (st_PurgeHistory (my_storage coll)) t b w))"
  using my_world_inv(8,9) [OF assms] by (simp_all add: my_storage_def)

lemma my_purge_rest:
  "history (mw_db (fst (st_PurgeTerminal (my_storage coll) t b w))) = history (mw_db w)"
  "messages (mw_db (fst (the (st_PurgeHistory (my_storage coll)) t b w))) = messages (mw_db w)"
  by (auto simp: my_storage_def my_call_eq my_PurgeTerminal_def my_PurgeHistory_def run_stmt_def Let_def split: option.splits)

interpretation my_terminal: purger "st_PurgeTerminal (my_storage coll)" "\<lambda>w. messages (mw_db w)" purge_match
  "\<lambda>w. history (mw_db w)" "my_world_ok coll" for coll
  by unfold_locales (rule my_purge_keeps my_purge_rest my_terminal_rows; assumption)+

interpretation my_histories: purger "the (st_PurgeHistory (my_storage coll))" "\<lambda>w. history (mw_db w)" "\<lambda>t h. h_at h < t"
  "\<lambda>w. messages (mw_db w)" "my_world_ok coll" for coll
  by unfold_locales (rule my_purge_keeps my_purge_rest my_history_rows; assumption)+

section \<open>Properties over MySQL\<close>


definition my_sample_row :: "string msg_row" where
  "my_sample_row =
     \<lparr>m_id = ''a'', m_event_type = ''order'', m_payload = [1, 2], m_headers = [], m_idempotency_key = Some ''k'',
      m_status = StatusHandling, m_attempt = 1, m_max_attempts = 1, m_process_at = 5, m_shard = 0,
      m_claimed_until = Some 30, m_claimed_by = Some ''w1'', m_last_error = None, m_created_at = 5, m_updated_at = 5,
      m_completed_at = None\<rparr>"

definition my_sample_world :: my_world where
  "my_sample_world =
     \<lparr>mw_db = \<lparr>messages = [my_sample_row], history = [], notified = [], staged = [], staged_notified = []\<rparr>,
      mw_locks = [], mw_env = (\<lambda>_. my_sample_env), mw_conn = Inr, mw_calls = 0\<rparr>"

definition my_sample_engine :: "my_world engine" where
  "my_sample_engine = newEngine \<lparr>ec_storage = my_storage (\<lambda>s. s), ec_registry = sample_registry, ec_workerID = ''w1'',
     ec_pollInterval = 0, ec_pollMaxBackoff = 0, ec_batchSize = 0, ec_poolSize = 0, ec_lease = 0, ec_shutdownGrace = 0,
     ec_hooks = sample_hooks\<rparr>"

lemma my_sample_engine_sel [simp]:
  "en_storage my_sample_engine = my_storage (\<lambda>s. s)" "en_workerID my_sample_engine = ''w1''"
  "en_hooks my_sample_engine = sample_hooks" "en_succeedCh my_sample_engine = Some 400"
  by (simp_all add: my_sample_engine_def newEngine_def Let_def my_storage_def batchSizeOrDefault_def)

lemma my_sample_ok: "my_world_ok (\<lambda>s. s) my_sample_world" "held my_look my_sample_world ''a'' 1 ''w1''"
  by (simp_all add: my_world_ok_def my_db_ok_def my_sample_world_def my_sample_env_def limit_choice_take broken_fetch_fails_def
      idem_unique_def hist_ok_def my_row_ok_def my_sample_row_def held_def my_look_def lease_of_def keyed_def)

definition my_sample_run :: "my_world \<times> obs list" where
  "my_sample_run = (case runHandler my_sample_engine sample_ae (my_scanMessage my_sample_row)
       (sample_reg (Some (\<lambda>_ _. Returned None)) None 0) my_sample_world of
     (w1, acks, os) \<Rightarrow> (case flush my_sample_engine acks w1 of (w2, os') \<Rightarrow> (w2, os @ os')))"


end
