(* ===== verification/Cockroach.thy ===== *)
theory Cockroach
  imports Worker_Spec
begin

text \<open>
  The CockroachDB adapter (src/storage/cockroach/cockroach.go). It embeds the PostgreSQL adapter
  built without its notifier, re-exposes two of the optional extensions, hides the third, and
  replaces the advisory lock by a row with a time limit. The embedded methods are those of
  \<open>Pg_Storage\<close>; the consumer contract carries over.
\<close>

section \<open>The lock table\<close>

record lock_row =
  lk_key :: string
  lk_holder :: nat
  lk_expires :: time

definition lock_ttl :: duration where
  "lock_ttl = 60 * Second"

text \<open>
  The upsert of \<open>TryLeaderLock\<close>: the row it returns, if any, says whether the holder is the
  caller's. A live lock of somebody else filters the update out, and no row is returned.
\<close>

definition lockSQL :: "time \<Rightarrow> string \<Rightarrow> nat \<Rightarrow> lock_row list \<Rightarrow> lock_row list \<times> bool option" where
  "lockSQL now key holder locks =
     (let new = \<lparr>lk_key = key, lk_holder = holder, lk_expires = now + lock_ttl\<rparr> in
      case row_by lk_key key locks of
        None \<Rightarrow> (locks @ [new], Some True)
      | Some l \<Rightarrow>
          if lk_expires l < now then (sql_update (\<lambda>l. lk_key l = key) (\<lambda>_. new) locks, Some True) else (locks, None))"

definition cr_TryLeaderLock ::
  "exec_reply \<Rightarrow> time \<Rightarrow> string \<Rightarrow> nat \<Rightarrow> lock_row list \<Rightarrow> lock_row list \<times> bool \<times> goerr option" where
  "cr_TryLeaderLock rep now key holder locks =
     (let locks' = run_stmt rep (\<lambda>locks. fst (lockSQL now key holder locks)) locks;
          err = (case reply_err rep of Some er \<Rightarrow> Some er
                 | None \<Rightarrow> if snd (lockSQL now key holder locks) = None then Some ErrNoRows else None)
      in case err of
           Some er \<Rightarrow>
             if errors_Is err ErrNoRows then (locks', False, None)
             else (locks', False, Some (WrapError ''tickr/cockroach: try leader lock: '' er))
         | None \<Rightarrow> (locks', snd (lockSQL now key holder locks) = Some True, None))"

definition cr_unlock :: "exec_reply \<Rightarrow> string \<Rightarrow> nat \<Rightarrow> lock_row list \<Rightarrow> lock_row list" where
  "cr_unlock rep key holder locks = run_stmt rep (sql_delete (\<lambda>l. lk_key l = key \<and> lk_holder l = holder)) locks"

definition cr_locks_ok :: "lock_row list \<Rightarrow> bool" where
  "cr_locks_ok locks \<longleftrightarrow> distinct (map lk_key locks)"

text \<open>At a time \<open>now\<close>, the live row of a key.\<close>

definition cr_owns :: "time \<Rightarrow> lock_row list \<Rightarrow> string \<Rightarrow> nat \<Rightarrow> bool" where
  "cr_owns now locks key holder \<longleftrightarrow>
     (case row_by lk_key key locks of None \<Rightarrow> False | Some l \<Rightarrow> lk_holder l = holder \<and> now \<le> lk_expires l)"

lemma lockSQL_row:
  "row_by lk_key k (fst (lockSQL now key holder locks)) =
     (if k = key \<and> (\<forall>l. row_by lk_key key locks = Some l \<longrightarrow> lk_expires l < now)
      then Some \<lparr>lk_key = key, lk_holder = holder, lk_expires = now + lock_ttl\<rparr> else row_by lk_key k locks)"
proof (cases "row_by lk_key key locks")
  case None
  then show ?thesis by (cases "row_by lk_key k locks") (auto simp: lockSQL_def Let_def row_simps)
next
  case (Some l)
  have "row_by lk_key k (sql_update (\<lambda>l. lk_key l = key) (\<lambda>_. \<lparr>lk_key = key, lk_holder = holder, lk_expires = t\<rparr>) locks) =
      map_option (\<lambda>l. if k = key then \<lparr>lk_key = key, lk_holder = holder, lk_expires = t\<rparr> else l) (row_by lk_key k locks)" for t
    by (induction locks) auto
  with Some show ?thesis by (cases "k = key") (simp_all add: lockSQL_def Let_def option.map_ident)
qed

lemma lockSQL_ok: "cr_locks_ok locks \<Longrightarrow> cr_locks_ok (fst (lockSQL now key holder locks))"
proof -
  have "map lk_key (sql_update (\<lambda>l. lk_key l = key) (\<lambda>_. \<lparr>lk_key = key, lk_holder = h, lk_expires = t\<rparr>) locks) = map lk_key locks" for h t
    by (induction locks) simp_all
  then show "cr_locks_ok locks \<Longrightarrow> ?thesis"
    by (auto simp: cr_locks_ok_def lockSQL_def Let_def row_by_None_iff split: option.splits)
qed

lemma cr_TryLeaderLock_locks:
  "fst (cr_TryLeaderLock rep now key holder locks) \<in> {locks, fst (lockSQL now key holder locks)}"
  by (auto simp: cr_TryLeaderLock_def run_stmt_def Let_def split: option.split)

lemma cr_TryLeaderLock_got:
  assumes "cr_TryLeaderLock rep now key holder locks = (locks', True, err)"
  shows "locks' = fst (lockSQL now key holder locks) \<and> snd (lockSQL now key holder locks) = Some True"
  using assms by (auto simp: cr_TryLeaderLock_def run_stmt_def Let_def dest: applied_if_ok split: option.splits if_splits)

interpretation cr_leader: leader_lock
  "\<lambda>holder key locks. (case cr_TryLeaderLock rep now key holder locks of (locks', ok, _) \<Rightarrow> (locks', ok))"
  "\<lambda>holder key locks. cr_unlock rep' key holder locks" "cr_owns now" cr_locks_ok for rep rep' now
proof unfold_locales
  fix c c' :: nat and k k' :: string and l l' :: "lock_row list"
  let ?acq = "\<lambda>holder key locks. (case cr_TryLeaderLock rep now key holder locks of (locks', ok, _) \<Rightarrow> (locks', ok))"
  have ttl: "0 \<le> lock_ttl" by (simp add: lock_ttl_def Second_def)
  have fst_acq: "fst (?acq c k l) = fst (cr_TryLeaderLock rep now k c l)" for c k l by (simp add: split_beta)
  show "cr_locks_ok (fst (?acq c k l))" if "cr_locks_ok l"
    using that cr_TryLeaderLock_locks [of rep now k c l] lockSQL_ok unfolding fst_acq by auto
  show "cr_locks_ok (cr_unlock rep' k c l)" if "cr_locks_ok l"
    using that by (simp add: cr_unlock_def cr_locks_ok_def run_stmt_def)
  show "c = c'" if "cr_locks_ok l" "cr_owns now l k c" "cr_owns now l k c'"
    using that by (auto simp: cr_owns_def split: option.splits)
  show "cr_owns now l' k c" if "cr_locks_ok l" "?acq c k l = (l', True)"
  proof -
    from that obtain err where "cr_TryLeaderLock rep now k c l = (l', True, err)" by (auto split: prod.splits)
    from cr_TryLeaderLock_got [OF this] have e: "l' = fst (lockSQL now k c l)" "snd (lockSQL now k c l) = Some True" by simp_all
    then have "\<forall>r. row_by lk_key k l = Some r \<longrightarrow> lk_expires r < now" by (auto simp: lockSQL_def Let_def split: option.splits if_splits)
    then show ?thesis using ttl by (simp add: cr_owns_def e(1) lockSQL_row)
  qed
  show "cr_owns now (fst (?acq c k' l)) k c'" if "cr_locks_ok l" "cr_owns now l k c'" "c' \<noteq> c"
    using that(2) cr_TryLeaderLock_locks [of rep now k' c l] unfolding fst_acq
    by (auto simp: cr_owns_def lockSQL_row split: option.splits if_splits)
  show "cr_owns now (cr_unlock rep' k' c l) k c'" if "cr_locks_ok l" "cr_owns now l k c'" "c' \<noteq> c"
    using that by (auto simp: cr_unlock_def cr_owns_def cr_locks_ok_def run_stmt_def row_by_delete split: option.splits)
qed

section \<open>The adapter\<close>

text \<open>
  The world of the embedded adapter, the lock table, for the \<open>n\<close>-th call the identifier it draws
  as holder, and for each key the holder that the caller's unlock function closes over.
\<close>

record 'i cr_world =
  cw_pg :: "'i world"
  cw_locks :: "lock_row list"
  cw_draw :: "nat \<Rightarrow> nat"
  cw_holder :: "string \<Rightarrow> nat option"

definition embedded :: "('i world \<Rightarrow> 'i world \<times> 'x) \<Rightarrow> 'i cr_world \<Rightarrow> 'i cr_world \<times> 'x" where
  "embedded f w = (case f (cw_pg w) of (p, x) \<Rightarrow> (w\<lparr>cw_pg := p\<rparr>, x))"

definition cr_store :: Store where
  "cr_store = New [WithoutNotifier]"

definition cr_lock_call :: "string \<Rightarrow> 'i cr_world \<Rightarrow> 'i cr_world \<times> bool \<times> goerr option" where
  "cr_lock_call key w =
     (let e = now_env (cw_pg w); holder = cw_draw w (w_calls (cw_pg w)) in
      case cr_TryLeaderLock (env_reply e 0) (env_now e) key holder (cw_locks w) of (locks', got, err) \<Rightarrow>
        (w\<lparr>cw_locks := locks', cw_pg := (cw_pg w)\<lparr>w_calls := Suc (w_calls (cw_pg w))\<rparr>,
           cw_holder := (if got then (cw_holder w)(key \<mapsto> holder) else cw_holder w)\<rparr>, got, err))"

definition cr_unlock_call :: "string \<Rightarrow> 'i cr_world \<Rightarrow> 'i cr_world" where
  "cr_unlock_call key w =
     (case cw_holder w key of None \<Rightarrow> w
      | Some holder \<Rightarrow> w\<lparr>cw_locks := cr_unlock (env_reply (now_env (cw_pg w)) 0) key holder (cw_locks w),
          cw_pg := (cw_pg w)\<lparr>w_calls := Suc (w_calls (cw_pg w))\<rparr>\<rparr>)"

definition cr_PurgeHistory :: "time \<Rightarrow> int \<Rightarrow> ('i::linorder) cr_world \<Rightarrow> 'i cr_world \<times> int \<times> goerr option" where
  "cr_PurgeHistory before limit w =
     (case st_PurgeHistory (pg_storage cr_store) of None \<Rightarrow> (w, 0, None)
      | Some purge \<Rightarrow> embedded (purge before limit) w)"

definition cr_BatchSucceed :: "BatchSucceedParam list \<Rightarrow> ('i::linorder) cr_world \<Rightarrow> 'i cr_world \<times> goerr option" where
  "cr_BatchSucceed ps w =
     (case st_BatchSucceed (pg_storage cr_store) of None \<Rightarrow> (w, None) | Some batch \<Rightarrow> embedded (batch ps) w)"

definition cr_storage :: "('i::linorder) cr_world Storage" where
  "cr_storage = (let st = pg_storage cr_store in
     \<lparr>st_Enqueue = (\<lambda>tx p. embedded (st_Enqueue st tx p)),
      st_EnqueueBatch = (\<lambda>tx ps. embedded (st_EnqueueBatch st tx ps)),
      st_Claim = (\<lambda>p. embedded (st_Claim st p)),
      st_Succeed = (\<lambda>ident att wk. embedded (st_Succeed st ident att wk)),
      st_Fail = (\<lambda>p. embedded (st_Fail st p)),
      st_ReleaseShutdown = (\<lambda>ident att wk reason. embedded (st_ReleaseShutdown st ident att wk reason)),
      st_Extend = (\<lambda>ident wk until. embedded (st_Extend st ident wk until)),
      st_History = (\<lambda>ident. embedded (st_History st ident)),
      st_ListDead = (\<lambda>et after limit. embedded (st_ListDead st et after limit)),
      st_Requeue = (\<lambda>ident t. embedded (st_Requeue st ident t)),
      st_ReclaimExpired = (\<lambda>n. embedded (st_ReclaimExpired st n)),
      st_PurgeTerminal = (\<lambda>t n. embedded (st_PurgeTerminal st t n)),
      st_Stats = embedded (st_Stats st),
      st_TryLeaderLock = cr_lock_call,
      st_unlock = cr_unlock_call,
      st_BatchSucceed = Some cr_BatchSucceed,
      st_Notify = None,
      st_PurgeHistory = Some cr_PurgeHistory\<rparr>)"

definition cr_look :: "'i cr_world \<Rightarrow> message_id \<Rightarrow> lease option" where
  "cr_look w = pg_look (cw_pg w)"

definition cr_ok :: "'i cr_world \<Rightarrow> bool" where
  "cr_ok w \<longleftrightarrow> world_ok cr_store (cw_pg w)"

lemma embedded_eqD: "embedded f w = (w', x) \<Longrightarrow> f (cw_pg w) = (cw_pg w', x)"
  by (auto simp: embedded_def split: prod.splits)

lemma embedded_ok: "cr_ok (fst (embedded f w)) = world_ok cr_store (fst (f (cw_pg w)))"
  by (simp add: embedded_def cr_ok_def split: prod.splits)

lemma embedded_look: "cr_look (fst (embedded f w)) = pg_look (fst (f (cw_pg w)))"
  by (simp add: embedded_def cr_look_def split: prod.splits)

lemma cr_view: "held cr_look w = held pg_look (cw_pg w)" "status_of cr_look w = status_of pg_look (cw_pg w)"
  "only cr_look i w w' = only pg_look i (cw_pg w) (cw_pg w')"
  by (simp_all add: held_def status_of_def only_def cr_look_def fun_eq_iff)

lemma cr_batch_eq: "cr_BatchSucceed = (\<lambda>ps. embedded (call (\<lambda>e. pg_BatchSucceed cr_store e ps)))"
  by (simp add: fun_eq_iff cr_BatchSucceed_def pg_storage_def)

lemma cr_batch_world:
  assumes "Some cr_BatchSucceed = Some batch"
  shows "world_ok cr_store (cw_pg w) \<Longrightarrow> world_ok cr_store (cw_pg (fst (batch ps w)))"
    and "batch ps w = (w', None) \<Longrightarrow> call (\<lambda>e. pg_BatchSucceed cr_store e ps) (cw_pg w) = (cw_pg w', None)"
  using assms pg_world_batch_inv [OF refl] by (auto simp: cr_batch_eq embedded_ok [unfolded cr_ok_def] dest: embedded_eqD)

lemmas cr_batch_held = pg_world_batch_held [OF refl _ cr_batch_world(2)]
lemmas cr_batch_frame = pg_world_batch_frame [OF refl _ cr_batch_world(2)]

lemmas cr_rules = pg_consumer.claim_inv pg_consumer.succeed_inv pg_consumer.fail_inv pg_consumer.release_inv
  pg_consumer.extend_inv pg_consumer.extend_frame pg_consumer.reclaim_inv pg_consumer.purge_inv
  pg_consumer.claim_distinct [OF _ embedded_eqD] pg_consumer.claim_held [OF _ embedded_eqD]
  pg_consumer.claim_frame [OF _ embedded_eqD] pg_consumer.succeed_held [OF _ _ embedded_eqD]
  pg_consumer.fail_held [OF _ _ embedded_eqD] pg_consumer.release_held [OF _ _ embedded_eqD]
  cr_batch_world(1) cr_batch_held cr_batch_frame

interpretation cr_consumer: consumer_storage cr_storage cr_look cr_ok
  by (unfold_locales, unfold cr_storage_def Let_def Storage.simps embedded_ok embedded_look cr_view, unfold cr_ok_def cr_look_def)
     ((rule cr_rules; blast?; assumption)+)

section \<open>The lease of a leader\<close>

text \<open>
  C39. The leader lock of CockroachDB is a lease of 60 seconds: while the row of a key is live,
  every other caller is refused and the row stays as it is; once it has expired, as after a
  crash of its holder, the first call that reaches the database takes it over, until 60 seconds
  after; releasing deletes the caller's own row only.
\<close>

theorem cr_leader_lease:
  assumes "cr_locks_ok locks" "row_by lk_key key locks = Some l"
  shows "(now \<le> lk_expires l \<longrightarrow> fst (cr_TryLeaderLock rep now key holder locks) = locks \<and>
      \<not> fst (snd (cr_TryLeaderLock rep now key holder locks))) \<and>
    (lk_expires l < now \<longrightarrow> (case cr_TryLeaderLock ExecOk now key holder locks of (locks', got, err) \<Rightarrow>
      got \<and> err = None \<and> (\<forall>t. cr_owns t locks' key holder \<longleftrightarrow> t \<le> now + lock_ttl))) \<and>
    row_by lk_key key (cr_unlock ExecOk key holder locks) = (if lk_holder l = holder then None else Some l)"
proof (intro conjI impI)
  show "fst (cr_TryLeaderLock rep now key holder locks) = locks" "\<not> fst (snd (cr_TryLeaderLock rep now key holder locks))" if "now \<le> lk_expires l"
  proof -
    have s: "lockSQL now key holder locks = (locks, None)" using assms(2) that by (simp add: lockSQL_def)
    show "fst (cr_TryLeaderLock rep now key holder locks) = locks"
      using cr_TryLeaderLock_locks [of rep now key holder locks] by (simp add: s)
    show "\<not> fst (snd (cr_TryLeaderLock rep now key holder locks))"
      using cr_TryLeaderLock_got [of rep now key holder locks] s by (cases "cr_TryLeaderLock rep now key holder locks") auto
  qed
  show "case cr_TryLeaderLock ExecOk now key holder locks of (locks', got, err) \<Rightarrow>
      got \<and> err = None \<and> (\<forall>t. cr_owns t locks' key holder \<longleftrightarrow> t \<le> now + lock_ttl)" if "lk_expires l < now"
  proof -
    have "snd (lockSQL now key holder locks) = Some True" using assms(2) that by (simp add: lockSQL_def Let_def)
    moreover have "row_by lk_key key (fst (lockSQL now key holder locks)) = Some \<lparr>lk_key = key, lk_holder = holder, lk_expires = now + lock_ttl\<rparr>"
      using assms(2) that by (simp add: lockSQL_row)
    ultimately show ?thesis by (simp add: cr_TryLeaderLock_def cr_owns_def Let_def)
  qed
  show "row_by lk_key key (cr_unlock ExecOk key holder locks) = (if lk_holder l = holder then None else Some l)"
    using assms row_by_Some_in [OF assms(2)] by (simp add: cr_unlock_def cr_locks_ok_def row_by_delete)
qed

theorem cr_leader_lease_witness:
  "fst (snd (cr_TryLeaderLock ExecOk (61 * Second) ''stats'' 2 [\<lparr>lk_key = ''stats'', lk_holder = 1, lk_expires = 60 * Second\<rparr>])) \<and>
   \<not> fst (snd (cr_TryLeaderLock ExecOk (60 * Second) ''stats'' 2 [\<lparr>lk_key = ''stats'', lk_holder = 1, lk_expires = 60 * Second\<rparr>]))"
  using cr_leader_lease [of "[\<lparr>lk_key = ''stats'', lk_holder = 1, lk_expires = 60 * Second\<rparr>]" "''stats''" _ "61 * Second" ExecOk 2]
    cr_leader_lease [of "[\<lparr>lk_key = ''stats'', lk_holder = 1, lk_expires = 60 * Second\<rparr>]" "''stats''" _ "60 * Second" ExecOk 2]
  by (auto simp: cr_locks_ok_def Second_def split_beta)

text \<open>
  The lease is not renewed: a pass of a background loop that takes longer than 60 seconds runs
  beside that of the next leader.
\<close>

lemma cr_lease_overlaps:
  "case cr_TryLeaderLock ExecOk 0 key 1 [] of (locks, first, _) \<Rightarrow>
     first \<and> fst (snd (cr_TryLeaderLock ExecOk (61 * Second) key 2 locks))"
  by (simp add: cr_TryLeaderLock_def lockSQL_def lock_ttl_def Second_def Let_def)

text \<open>
  Over CockroachDB the engine settles attempts as over PostgreSQL, whose statements the
  adapter reuses: the message ends as the result demands and no other message moves.
\<close>

theorem cr_attempt_settled:
  fixes e :: "('i::linorder) cr_world engine"
  assumes "en_storage e = cr_storage" "hk_alerter (en_hooks e) = ConfiguredHook" "cr_ok w"
    and "held cr_look w (im_ID m) (im_Attempt m) (en_workerID e)"
    and "runHandler e ae m reg w = (w1, acks, os)" "flush e acks w1 = (w2, os')" "\<not> storage_alert (os @ os')"
  shows "let lost = fst (snd (extendLoop e m (ae_before ae) w)); err = safeInvoke (reg_handler reg) (attempt_ctx ae lost) m in
    settled ae (reg_cfg reg) m err (resolveOutcome (ae_parentErr ae) (ae_stopping ae) err) (cr_look w2 (im_ID m)) \<and>
    only cr_look (im_ID m) w w2"
  by (rule cr_consumer.attempt_settles [OF assms(1,2) _ assms(3-7)]) (simp add: cr_storage_def Let_def)

end
