(* ===== verification/Spec2Isabelle.thy ===== *)
theory Spec2Isabelle
  imports Worker_Spec My_Storage Cockroach
begin

text \<open>
  \<^bold>\<open>tickr, a transactional outbox and job queue on a SQL database.\<close>

  A producer stores a message in the table \<open>tickr_messages\<close>, in its own transaction if it
  likes (\<open>Client\<close>, src/client.go). Workers (src/worker.go) poll the table, claim due messages
  under a lease, run the handler registered for the event type (src/registry.go,
  src/handler_typed.go) and write the outcome back (src/engine.go). Background loops, each under
  a leader lock, return expired leases, purge old rows and sample statistics. The engine and the
  client know the database only through the interface \<open>Storage\<close> (src/storage.go), which the
  adapters of src/storage/ implement.

  \<^bold>\<open>Common vocabulary.\<close>

  \<^item> \<open>Prelude\<close>: Go's times and durations as integers of nanoseconds (\<open>wrap64\<close> writes the
    64-bit wrap-around of a duration out), maps as association lists, and what an \<open>UPDATE\<close>,
    \<open>DELETE\<close>, \<open>COUNT\<close> or \<open>ORDER BY ... LIMIT\<close> does to a table, a list of rows.
  \<^item> \<open>Errors\<close> (src/errors.go), \<open>Message\<close> (src/message.go, the parameter types of
    src/storage.go), \<open>Observe\<close> (src/observe.go): error values with their chains, the data the
    parts exchange, and what the hooks observe, as a list in the order of the calls.
  \<^item> \<open>Tables\<close>: the two tables \<open>tickr_messages\<close> and \<open>tickr_history\<close> as the record \<open>db\<close>, with
    the rows an open transaction of the caller has staged; the environment \<open>env\<close> of an adapter
    call: the clock of the server and of the client, the identifiers and random numbers drawn, the rows
    other transactions hold locked, the choice of rows a \<open>LIMIT\<close> without order makes, and for
    each statement of the call the reply of the driver. A statement may succeed, fail without
    effect, or take effect although its reply is lost.

  \<^bold>\<open>PostgreSQL adapter (src/storage/postgres/postgres.go).\<close>

  \<^item> \<open>Pg_Enqueue\<close>, \<open>Pg_Claim\<close>, \<open>Pg_Ack\<close>, \<open>Pg_Admin\<close>: one definition per SQL statement and per
    method, in the order of the file, named after them (\<open>claimSQL\<close>, \<open>pg_Claim\<close>). A method is a
    function of the store's options, the environment and the database, and returns the new
    database with the results and the error of the Go method.
  \<^item> \<open>Pg_Rows\<close>, \<open>Pg_Machine\<close>, \<open>Pg_Properties\<close>: every method acts row by row as \<open>row_step\<close>; the step
    relation \<open>pg_step\<close> has one rule per method, in any environment, so that any number of
    producers and workers interleave; the invariant \<open>db_ok\<close>, the status machine and the safety of
    unfinished messages hold on all reachable databases.
  \<^item> \<open>Pg_Enqueue_Spec\<close>, \<open>Pg_Claim_Spec\<close>, \<open>Pg_Ack_Spec\<close>, \<open>Pg_Admin_Spec\<close>: the functional
    behaviour of each method: idempotent and transactional enqueue, exact effect, order,
    progress and exclusion of claims, acknowledgements that take effect only for the holder of
    the attempt, exact counts of reclaimer, purge and statistics.
  \<^item> \<open>Pg_Storage\<close>: the adapter as a value of the storage interface, and its advisory locks.

  \<^bold>\<open>MySQL adapter (src/storage/mysql/mysql.go).\<close>

  \<^item> \<open>My_Store\<close>: the methods, with the collation of the database as a parameter. The server
    evaluates the assignments of an update from left to right; the text of the identifier is
    the primary key.
  \<^item> \<open>My_Machine\<close>: row steps, invariant \<open>my_db_ok\<close> (uniqueness under the collation), step relation.
  \<^item> \<open>My_Storage\<close>: the storage value, and the contracts below. A claim whose result set breaks
    off is assumed to fail at its commit (\<open>broken_fetch_fails\<close>); the loop that reads it does not
    check.

  \<^bold>\<open>CockroachDB adapter (src/storage/cockroach/cockroach.go).\<close>

  \<^item> \<open>Cockroach\<close>: the adapter embeds the PostgreSQL adapter without its notifier; its storage value
    delegates to \<open>pg_storage\<close> and keeps the table of leader locks, whose rows expire after 60
    seconds. Before the expiry no other holder gets the lock; after it a slow holder overlaps with
    the next one (\<open>cr_lease_overlaps\<close>).

  \<^bold>\<open>Contracts, and where they are interpreted.\<close>

  \<^item> \<open>Storage_Iface\<close>: the interface as a record of functions over a world; the locales
    \<open>consumer_storage\<close> (what the engine needs) and \<open>leader_lock\<close>. \<open>Worker_Spec\<close> adds \<open>purger\<close>.
    The first two are interpreted on all three adapters (\<open>pg_consumer\<close>, \<open>my_consumer\<close>,
    \<open>cr_consumer\<close>, \<open>pg_leader\<close>, \<open>my_leader\<close>, \<open>cr_leader\<close>), the third on PostgreSQL and MySQL
    (\<open>pg_terminal\<close>, \<open>pg_history\<close>, \<open>my_terminal\<close>, \<open>my_histories\<close>). \<open>Retry\<close> has the locale
    \<open>retry_policy\<close>, interpreted on the exponential backoff.
  \<^item> \<open>Lifecycle\<close>: the status machine of ARCHITECTURE.md as an abstract specification
    \<open>life_step\<close> of one message, and the locale \<open>lifecycle_impl\<close> of its implementations, interpreted
    on PostgreSQL and MySQL: a refinement through the abstraction \<open>life_in\<close>.

  \<^bold>\<open>Program above the storage.\<close>

  \<^item> \<open>Retry\<close> (src/retry.go): the backoff in double precision, with the rounding of the
    arithmetic as a parameter.
  \<^item> \<open>Registry\<close>: options, registration, typed handlers over a codec that is a parameter.
  \<^item> \<open>Client\<close>, \<open>Client_Spec\<close>: the producer; what it stored arrives at the handler unchanged.
  \<^item> \<open>Engine\<close>, \<open>Engine_Spec\<close>: polling, partitioning, attempts with their lease extensions, outcomes,
    the flusher. An attempt and a batch are settled as the result demands, proved from
    \<open>consumer_storage\<close>.
  \<^item> \<open>Engine_Machine\<close>: the goroutines as a step relation with channel, semaphores and wait group.
    Bounded concurrency, exactly one settlement per claimed message, no infinite run, and the
    end of a shutdown are proved over all schedules.
  \<^item> \<open>Worker\<close>, \<open>Worker_Spec\<close>: construction, start and stop, the background loops; the janitor
    returns and deletes exactly what is past its age, a leader excludes the others, the reclaimer
    recovers the messages of a dead worker.

  \<^bold>\<open>Loops and bounds.\<close> The methods and the engine's operations are total functions. The
  janitor's loop runs until a purge deletes less than a batch and is a \<open>partial_function (option)\<close>;
  it is proved to return, with the number of rows as the measure. The poll loop runs until it is
  cancelled; its iterations are steps of \<open>Engine_Machine\<close>, and its delays a function of the
  number of idle polls. No definition has fuel.

  \<^bold>\<open>Abstractions.\<close> Times are not truncated to the microseconds the columns hold. JSON in the
  header column is the map it encodes. Log lines and the text of driver errors are left out;
  metrics, spans and alerts are observations. A context appears as the error it reports when it
  is asked. Waiting for a row lock is not a step.

  \<^bold>\<open>Not modelled.\<close> The migrations (src/migrate.go and the \<open>ApplyMigrations\<close> methods) and the
  partition maintenance execute data definition statements read from files or from the system
  catalogue; the listener is a loop on a dedicated connection of the driver. The HTTP
  and gRPC handlers and the codec wrappers are handlers like those of a user: the theorems on
  attempts cover every result a handler can return, but how these classify a response is not
  modelled. The metric and tracing exporters and the command line tool forward to other packages
  and keep no state of the queue. Tests, benchmarks, examples and documentation are not part of
  the program.
\<close>

end
